theory Spec2Isabelle
  imports Complex_Main "HOL-Library.Word"
begin

section \<open>Strings\<close>

text \<open>
  A Go string is a sequence of bytes and is modelled as \<^typ>\<open>string\<close>, one
  \<^typ>\<open>char\<close> per byte, so that \<open>len\<close>, indexing and slicing of the source are
  \<^const>\<open>length\<close>, \<^const>\<open>nth\<close>, \<^const>\<open>take\<close> and \<^const>\<open>drop\<close>.
  The loops written \<open>for _, char := range s\<close> visit runes. Those that count leading
  blanks and stop at the first other rune compare the rune with ASCII characters only, and
  an ASCII byte is always a rune of its own, so they are modelled byte by byte. The loop
  of \<open>splitLines\<close> appends \<open>string(char)\<close>, which for a byte that is not part of a valid
  encoding is the encoding of \<open>U+FFFD\<close>; it is modelled rune by rune.
\<close>

definition LF :: char where
  "LF = CHR 0x0A"

definition CR :: char where
  "CR = CHR 0x0D"


definition TAB :: char where
  "TAB = CHR 0x09"

subsection \<open>Package strings\<close>

text \<open>
  The functions of Go's \<open>strings\<close> package that the source calls, after their
  documentation. \<open>strings.Index\<close> returns \<open>-1\<close> when the substring does not occur.
\<close>

definition HasPrefix :: "string \<Rightarrow> string \<Rightarrow> bool" where
  "HasPrefix s pre = (take (length pre) s = pre)"

definition HasSuffix :: "string \<Rightarrow> string \<Rightarrow> bool" where
  "HasSuffix s suf = (length suf \<le> length s \<and> drop (length s - length suf) s = suf)"

fun Index :: "string \<Rightarrow> string \<Rightarrow> int" where
  "Index [] sub = (if sub = [] then 0 else - 1)"
| "Index (c # cs) sub =
     (if HasPrefix (c # cs) sub then 0
      else (let i = Index cs sub in if i = - 1 then - 1 else i + 1))"

definition Contains :: "string \<Rightarrow> string \<Rightarrow> bool" where
  "Contains s sub = (Index s sub \<noteq> - 1)"

definition TrimPrefix :: "string \<Rightarrow> string \<Rightarrow> string" where
  "TrimPrefix s pre = (if HasPrefix s pre then drop (length pre) s else s)"

text \<open>
  \<open>strings.SplitN(s, sep, 2)\<close> for a non-empty separator: the text before the first
  occurrence of \<open>sep\<close> and the text after it, or \<open>s\<close> alone.
\<close>

definition SplitN2 :: "string \<Rightarrow> string \<Rightarrow> string list" where
  "SplitN2 s sep =
     (let i = Index s sep in
      if i = - 1 then [s] else [take (nat i) s, drop (nat i + length sep) s])"

text \<open>\<open>strings.TrimLeft\<close> and \<open>strings.Trim\<close> with a cutset of ASCII characters.\<close>

definition TrimLeft :: "string \<Rightarrow> string \<Rightarrow> string" where
  "TrimLeft s cutset = dropWhile (\<lambda>c. c \<in> set cutset) s"

definition TrimRight :: "string \<Rightarrow> string \<Rightarrow> string" where
  "TrimRight s cutset = rev (dropWhile (\<lambda>c. c \<in> set cutset) (rev s))"

definition Trim :: "string \<Rightarrow> string \<Rightarrow> string" where
  "Trim s cutset = TrimRight (TrimLeft s cutset) cutset"

text \<open>
  \<open>strings.TrimSpace\<close> removes leading and trailing white space as Unicode defines it.
  \<open>spaceRunes\<close> lists the UTF-8 encodings of the runes for which \<open>unicode.IsSpace\<close>
  holds: U+0009 to U+000D, U+0020, U+0085, U+00A0, U+1680, U+2000 to U+200A, U+2028,
  U+2029, U+202F, U+205F and U+3000.
\<close>

definition spaceRunes :: "string list" where
  "spaceRunes =
     [[CHR 0x09], [CHR 0x0A], [CHR 0x0B], [CHR 0x0C], [CHR 0x0D], [CHR 0x20],
      [CHR 0xC2, CHR 0x85], [CHR 0xC2, CHR 0xA0],
      [CHR 0xE1, CHR 0x9A, CHR 0x80],
      [CHR 0xE2, CHR 0x80, CHR 0x80], [CHR 0xE2, CHR 0x80, CHR 0x81],
      [CHR 0xE2, CHR 0x80, CHR 0x82], [CHR 0xE2, CHR 0x80, CHR 0x83],
      [CHR 0xE2, CHR 0x80, CHR 0x84], [CHR 0xE2, CHR 0x80, CHR 0x85],
      [CHR 0xE2, CHR 0x80, CHR 0x86], [CHR 0xE2, CHR 0x80, CHR 0x87],
      [CHR 0xE2, CHR 0x80, CHR 0x88], [CHR 0xE2, CHR 0x80, CHR 0x89],
      [CHR 0xE2, CHR 0x80, CHR 0x8A],
      [CHR 0xE2, CHR 0x80, CHR 0xA8], [CHR 0xE2, CHR 0x80, CHR 0xA9],
      [CHR 0xE2, CHR 0x80, CHR 0xAF], [CHR 0xE2, CHR 0x81, CHR 0x9F],
      [CHR 0xE3, CHR 0x80, CHR 0x80]]"

text \<open>\<open>stripRunes table s\<close> removes from the front of \<open>s\<close> every leading entry of \<open>table\<close>.\<close>

fun stripRunes :: "string list \<Rightarrow> string \<Rightarrow> string" where
  "stripRunes table [] = []"
| "stripRunes table (c # cs) =
     (case find (\<lambda>e. HasPrefix (c # cs) e) table of
        None \<Rightarrow> c # cs
      | Some e \<Rightarrow> stripRunes table (drop (length e - 1) cs))"

definition TrimSpace :: "string \<Rightarrow> string" where
  "TrimSpace s = rev (stripRunes (map rev spaceRunes) (rev (stripRunes spaceRunes s)))"

text \<open>
  \<open>filepath.Base\<close> on a system whose path separator is \<open>/\<close>: the last element of the
  path, trailing slashes removed first; \<open>.\<close> for the empty path and \<open>/\<close> for a path
  of slashes only.
\<close>

definition Base :: "string \<Rightarrow> string" where
  "Base path =
     (if path = [] then ''.''
      else let stripped = rev (dropWhile (\<lambda>c. c = CHR ''/'') (rev path));
               element = rev (takeWhile (\<lambda>c. c \<noteq> CHR ''/'') (rev stripped))
           in if element = [] then ''/'' else element)"

subsection \<open>Runes\<close>

text \<open>
  A loop \<open>for _, char := range s\<close> decodes \<open>s\<close> as UTF-8, one rune at a time. Where the
  bytes at the position read are not a valid encoding, the rune is \<open>U+FFFD\<close> and the
  loop moves on by one byte. \<open>runeWidth s\<close> is the number of bytes of the valid encoding at
  the front of \<open>s\<close>, and 0 when there is none, after the tables of package \<open>unicode/utf8\<close>:
  the lead byte fixes the length and the range of the second byte, and the later bytes lie
  in \<open>0x80..0xBF\<close>.
\<close>

definition acceptRange :: "nat \<Rightarrow> nat \<times> nat" where
  "acceptRange x =
     (if x = 0xE0 then (0xA0, 0xBF)
      else if x = 0xED then (0x80, 0x9F)
      else if x = 0xF0 then (0x90, 0xBF)
      else if x = 0xF4 then (0x80, 0x8F)
      else (0x80, 0xBF))"

definition inRange :: "nat \<times> nat \<Rightarrow> char \<Rightarrow> bool" where
  "inRange accept c = (fst accept \<le> of_char c \<and> (of_char c :: nat) \<le> snd accept)"

definition continuation :: "char \<Rightarrow> bool" where
  "continuation c = inRange (0x80, 0xBF) c"

fun runeWidth :: "string \<Rightarrow> nat" where
  "runeWidth [] = 0"
| "runeWidth (b0 # r) =
     (let x = (of_char b0 :: nat) in
      if x < 0x80 then 1
      else if 0xC2 \<le> x \<and> x \<le> 0xDF then
        (case r of
           b1 # _ \<Rightarrow> if inRange (acceptRange x) b1 then 2 else 0
         | _ \<Rightarrow> 0)
      else if 0xE0 \<le> x \<and> x \<le> 0xEF then
        (case r of
           b1 # b2 # _ \<Rightarrow> if inRange (acceptRange x) b1 \<and> continuation b2 then 3 else 0
         | _ \<Rightarrow> 0)
      else if 0xF0 \<le> x \<and> x \<le> 0xF4 then
        (case r of
           b1 # b2 # b3 # _ \<Rightarrow>
             if inRange (acceptRange x) b1 \<and> continuation b2 \<and> continuation b3 then 4 else 0
         | _ \<Rightarrow> 0)
      else 0)"

text \<open>The UTF-8 encoding of \<open>U+FFFD\<close>, the rune an invalid byte is read as.\<close>

definition RuneError :: string where
  "RuneError = [CHR 0xEF, CHR 0xBF, CHR 0xBD]"

text \<open>
  \<open>runeBytes s\<close> is \<open>string(char)\<close> for the rune \<open>char\<close> read at the front of a non-empty
  \<open>s\<close>: the bytes read when they are a valid encoding, and the encoding of \<open>U+FFFD\<close>
  otherwise.
\<close>

definition runeBytes :: "string \<Rightarrow> string" where
  "runeBytes s = (if runeWidth s = 0 then RuneError else take (runeWidth s) s)"

section \<open>Document store (internal/lsp/completion.go)\<close>

subsection \<open>splitLines\<close>

text \<open>
  The loop of \<open>splitLines\<close>: the state is the pair of \<open>lines\<close> and \<open>current\<close>. Each
  step reads the rune at the front of the remaining text and goes on behind it: behind
  the encoding when there is a valid one, and one byte further when there is none. The
  rune is held as the bytes \<open>string(char)\<close> writes, so \<open>char == '\n'\<close> is \<open>char = [LF]\<close>,
  a line feed being the rune whose encoding is the byte \<open>0x0A\<close> alone, and likewise for
  the carriage return.
\<close>

fun splitLoop :: "string \<Rightarrow> string list \<Rightarrow> string \<Rightarrow> string list \<times> string" where
  "splitLoop [] lines current = (lines, current)"
| "splitLoop (b # rest) lines current =
     (let char = runeBytes (b # rest);
          next = drop (runeWidth (b # rest) - 1) rest
      in if char = [LF] then splitLoop next (lines @ [current]) []
         else if char \<noteq> [CR] then splitLoop next lines (current @ char)
         else splitLoop next lines current)"

definition splitLines :: "string \<Rightarrow> string list" where
  "splitLines content =
     (if content = [] then []
      else case splitLoop content [] [] of
        (lines, current) \<Rightarrow>
          if current \<noteq> [] \<or> length lines = 0 then lines @ [current] else lines)"

text \<open>
  \<open>reencode s\<close> is the text as the loop reads it, the concatenation of \<open>string(char)\<close>
  for the runes of \<open>s\<close> in order, which is \<open>string([]rune(s))\<close>: the text with every byte
  that is not part of a valid encoding replaced by the encoding of \<open>U+FFFD\<close>.
  \<open>validUTF8 s\<close> holds when every rune read from \<open>s\<close> has a valid encoding there, as
  \<open>utf8.ValidString\<close> tests.
\<close>

fun reencode :: "string \<Rightarrow> string" where
  "reencode [] = []"
| "reencode (b # rest) = runeBytes (b # rest) @ reencode (drop (runeWidth (b # rest) - 1) rest)"

fun validUTF8 :: "string \<Rightarrow> bool" where
  "validUTF8 [] = True"
| "validUTF8 (b # rest) =
     (runeWidth (b # rest) \<noteq> 0 \<and> validUTF8 (drop (runeWidth (b # rest) - 1) rest))"

subsection \<open>DocumentManager\<close>

record Document =
  URI :: string
  Version :: "32 word"
  Content :: string
  Lines :: "string list"

text \<open>
  The manager's only state is its map from URI to document. The mutex is not modelled:
  every operation holds it from entry to return, so operations are atomic steps.
\<close>

type_synonym DocumentManager = "string \<rightharpoonup> Document"

definition NewDocumentManager :: DocumentManager where
  "NewDocumentManager = Map.empty"

definition OpenDocument :: "DocumentManager \<Rightarrow> string \<Rightarrow> 32 word \<Rightarrow> string \<Rightarrow> DocumentManager" where
  "OpenDocument dm uri version content =
     dm(uri \<mapsto> \<lparr>URI = uri, Version = version, Content = content, Lines = splitLines content\<rparr>)"

definition UpdateDocument :: "DocumentManager \<Rightarrow> string \<Rightarrow> 32 word \<Rightarrow> string \<Rightarrow> DocumentManager" where
  "UpdateDocument dm uri version content =
     (case dm uri of
        Some doc \<Rightarrow>
          dm(uri \<mapsto> doc\<lparr>Version := version, Content := content, Lines := splitLines content\<rparr>)
      | None \<Rightarrow>
          dm(uri \<mapsto> \<lparr>URI = uri, Version = version, Content = content, Lines = splitLines content\<rparr>))"

definition CloseDocument :: "DocumentManager \<Rightarrow> string \<Rightarrow> DocumentManager" where
  "CloseDocument dm uri = dm(uri := None)"

text \<open>\<open>GetDocument\<close> returns the pair (document, exists); \<^const>\<open>None\<close> is \<open>exists = false\<close>.\<close>

definition GetDocument :: "DocumentManager \<Rightarrow> string \<Rightarrow> Document option" where
  "GetDocument dm uri = dm uri"


section \<open>Plugin references\<close>

record ParsedPluginRef =
  Org :: string
  Name :: string
  Version_p :: string
  FullRef :: string

text \<open>
  \<open>ParsePluginReference\<close> returns a pointer, \<open>nil\<close> for the empty reference
  (\<^const>\<open>None\<close>). The field \<open>Version\<close> is named \<open>Version_p\<close> here, the document record
  having a \<open>Version\<close> already.
\<close>

definition ParsePluginReference :: "string \<Rightarrow> ParsedPluginRef option" where
  "ParsePluginReference ref =
     (if ref = [] then None
      else
        let parts = SplitN2 ref ''#'';
            pluginPart = hd parts;
            version = (if length parts = 2 then parts ! 1 else ''latest'')
        in if Contains pluginPart ''/''
           then (let orgParts = SplitN2 pluginPart ''/'' in
                 Some \<lparr>Org = orgParts ! 0, Name = orgParts ! 1, Version_p = version, FullRef = ref\<rparr>)
           else Some \<lparr>Org = ''buildkite-plugins'', Name = pluginPart, Version_p = version, FullRef = ref\<rparr>)"

definition GetRepositoryURL :: "ParsedPluginRef \<Rightarrow> string" where
  "GetRepositoryURL p = ''https://github.com/'' @ Org p @ ''/'' @ Name p @ ''-buildkite-plugin''"

definition GetAllSchemaURLs :: "ParsedPluginRef \<Rightarrow> string list" where
  "GetAllSchemaURLs p =
     [''https://raw.githubusercontent.com/'' @ Org p @ ''/'' @ Name p @ ''-buildkite-plugin/''
        @ Version_p p @ ''/plugin.yml'',
      ''https://raw.githubusercontent.com/'' @ Org p @ ''/'' @ Name p @ ''-buildkite-plugin/main/plugin.yml'',
      ''https://raw.githubusercontent.com/'' @ Org p @ ''/'' @ Name p @ ''-buildkite-plugin/master/plugin.yml'']"

section \<open>File eligibility\<close>

definition isBuildkiteFile :: "string \<Rightarrow> bool" where
  "isBuildkiteFile uri =
     (let filePath = (if HasPrefix uri ''file://'' then TrimPrefix uri ''file://'' else uri) in
      if Contains filePath ''.buildkite/''
      then HasSuffix filePath ''.yml'' \<or> HasSuffix filePath ''.yaml''
      else let fileName = Base filePath in
           fileName = ''pipeline.yml'' \<or> fileName = ''pipeline.yaml'' \<or>
           fileName = ''buildkite.yml'' \<or> fileName = ''buildkite.yaml'')"

text \<open>
  The predicate as the specification words it, for comparison with \<^const>\<open>isBuildkiteFile\<close>:
  the path contains \<open>/.buildkite/\<close> and ends in \<open>.yml\<close> or \<open>.yaml\<close>, or its base name is
  one of the four pipeline file names.
\<close>

definition isBuildkiteFile_spec :: "string \<Rightarrow> bool" where
  "isBuildkiteFile_spec uri =
     (let filePath = TrimPrefix uri ''file://'' in
      (Contains filePath ''/.buildkite/'' \<and>
         (HasSuffix filePath ''.yml'' \<or> HasSuffix filePath ''.yaml''))
      \<or> Base filePath \<in> {''pipeline.yml'', ''pipeline.yaml'', ''buildkite.yml'', ''buildkite.yaml''})"

section \<open>Pipeline schema validation (internal/schema/loader.go)\<close>

text \<open>
  \<open>gojsonschema.ResultError\<close> is an interface; an error is modelled by the values its
  methods return. \<open>Details\<close> holds, for each key, the text \<open>fmt\<close> prints for the value.
\<close>

record ResultError =
  Type_e :: string
  Field :: string
  Description :: string
  Details :: "(string \<times> string) list"

record ValidationResult =
  Valid :: bool
  Errors :: "ResultError list"

record ValidationError =
  Message :: string
  Path :: string
  Line :: int

definition errorPriority :: "string \<rightharpoonup> int" where
  "errorPriority = map_of
     [(''additional_property_not_allowed'', 1),
      (''required'', 2),
      (''invalid_type'', 3),
      (''enum'', 4),
      (''string_gte'', 5),
      (''string_lte'', 6),
      (''array_min_items'', 7),
      (''array_max_items'', 8),
      (''number_gte'', 9),
      (''number_lte'', 10)]"

text \<open>The selection loop of \<open>ValidateJSON\<close>; its state is \<open>bestError\<close> and \<open>highestPriority\<close>.\<close>

fun bestLoop :: "ResultError list \<Rightarrow> ResultError \<Rightarrow> int \<Rightarrow> ResultError \<times> int" where
  "bestLoop [] bestError highestPriority = (bestError, highestPriority)"
| "bestLoop (err # rest) bestError highestPriority =
     (case errorPriority (Type_e err) of
        Some priority \<Rightarrow>
          if priority < highestPriority then bestLoop rest err priority
          else bestLoop rest bestError highestPriority
      | None \<Rightarrow> bestLoop rest bestError highestPriority)"

text \<open>\<open>bestError\<close> after the loop, for a non-empty list of errors (the fallback is its head).\<close>

definition pickBestError :: "ResultError list \<Rightarrow> ResultError" where
  "pickBestError errors = fst (bestLoop errors (hd errors) 999)"

text \<open>\<open>strings.Split(s, sep)\<close> for a one-character separator.\<close>

fun SplitChar :: "char \<Rightarrow> string \<Rightarrow> string list" where
  "SplitChar sep [] = [[]]"
| "SplitChar sep (c # cs) =
     (let r = SplitChar sep cs in
      if c = sep then [] # r else (c # hd r) # tl r)"

definition isNumeric :: "string \<Rightarrow> bool" where
  "isNumeric s = (s \<noteq> [] \<and> (\<forall>c \<in> set s. \<not> ((of_char c :: nat) < 48 \<or> (of_char c :: nat) > 57)))"

definition extractFieldName :: "string \<Rightarrow> string" where
  "extractFieldName fieldPath =
     (case find (\<lambda>part. \<not> isNumeric part) (rev (SplitChar (CHR ''.'') fieldPath)) of
        Some part \<Rightarrow> part
      | None \<Rightarrow> fieldPath)"

definition extractPropertyFromDescription :: "string \<Rightarrow> string" where
  "extractPropertyFromDescription description =
     (if Contains description ''Additional property '' \<and> Contains description '' is not allowed''
      then (let start = Index description ''Additional property '' + int (length ''Additional property '');
                end = Index description '' is not allowed''
            in if start < end \<and> end > start
               then drop (nat start) (take (nat end) description)
               else [])
      else [])"

text \<open>
  \<open>detail verb err key\<close> is what \<open>fmt\<close> prints for \<open>err.Details()[key]\<close>; \<open>verb\<close> is the
  text printed for a missing key (\<open>%!s(<nil>)\<close> under \<open>%s\<close>, \<open><nil>\<close> under \<open>%v\<close>).
\<close>

definition detail :: "string \<Rightarrow> ResultError \<Rightarrow> string \<Rightarrow> string" where
  "detail missing err key = (case map_of (Details err) key of Some v \<Rightarrow> v | None \<Rightarrow> missing)"

definition friendlyErrorMessage :: "ResultError \<Rightarrow> string" where
  "friendlyErrorMessage err =
     (if Type_e err = ''additional_property_not_allowed'' then
        (let propertyName = extractPropertyFromDescription (Description err) in
         if propertyName \<noteq> []
         then ''Unknown property '' @ [CHR 0x27] @ propertyName @ [CHR 0x27] @ '' is not allowed''
         else Description err)
      else if Type_e err = ''required'' then
        ''Missing required property '' @ [CHR 0x27] @ Field err @ [CHR 0x27]
      else if Type_e err = ''invalid_type'' then
        ''Property '' @ [CHR 0x27] @ extractFieldName (Field err) @ [CHR 0x27]
          @ '' has wrong type (expected '' @ detail ''%!s(<nil>)'' err ''expected'' @ '')''
      else if Type_e err = ''enum'' then
        ''Property '' @ [CHR 0x27] @ extractFieldName (Field err) @ [CHR 0x27]
          @ '' must be one of: '' @ detail ''<nil>'' err ''allowed''
      else if Type_e err = ''string_gte'' then
        ''Property '' @ [CHR 0x27] @ extractFieldName (Field err) @ [CHR 0x27]
          @ '' is too short (minimum '' @ detail ''<nil>'' err ''min'' @ '' characters)''
      else if Type_e err = ''string_lte'' then
        ''Property '' @ [CHR 0x27] @ extractFieldName (Field err) @ [CHR 0x27]
          @ '' is too long (maximum '' @ detail ''<nil>'' err ''max'' @ '' characters)''
      else if Type_e err = ''array_min_items'' then
        ''Array '' @ [CHR 0x27] @ extractFieldName (Field err) @ [CHR 0x27]
          @ '' needs at least '' @ detail ''<nil>'' err ''min'' @ '' items''
      else if Type_e err = ''array_max_items'' then
        ''Array '' @ [CHR 0x27] @ extractFieldName (Field err) @ [CHR 0x27]
          @ '' can have at most '' @ detail ''<nil>'' err ''max'' @ '' items''
      else Description err)"

text \<open>
  \<open>ValidateJSON\<close>. Fetching the schema (\<open>GetSchemaData\<close>, an HTTP request) and
  \<open>gojsonschema.Validate\<close> are outside this repository: the outcome of the first and the
  function that is the second are parameters, each an error message (\<^const>\<open>Inl\<close>) or a
  value. The result is the pair of the source as a sum: \<open>(nil, err)\<close> is \<^const>\<open>Inl\<close>,
  \<open>(nil, nil)\<close> is \<open>Inr None\<close>.
\<close>

definition ValidateJSON ::
  "string + string \<Rightarrow> (string \<Rightarrow> string \<Rightarrow> string + ValidationResult) \<Rightarrow> string
     \<Rightarrow> string + ValidationError option" where
  "ValidateJSON getSchemaData validate jsonData =
     (case getSchemaData of
        Inl err \<Rightarrow> Inl (''failed to get schema: '' @ err)
      | Inr schemaData \<Rightarrow>
          (case validate schemaData jsonData of
             Inl err \<Rightarrow> Inl (''validation failed: '' @ err)
           | Inr result \<Rightarrow>
               if \<not> Valid result \<and> length (Errors result) > 0
               then (let bestError = pickBestError (Errors result) in
                     Inr (Some \<lparr>Message = friendlyErrorMessage bestError,
                                 Path = Field bestError, Line = 1\<rparr>))
               else Inr None))"

text \<open>
  The priority the specification gives an error type: the table's entry, and 999 for a
  type the table does not list.
\<close>

definition priorityOf :: "ResultError \<Rightarrow> int" where
  "priorityOf err = (case errorPriority (Type_e err) of Some p \<Rightarrow> p | None \<Rightarrow> 999)"

section \<open>Step diagnostics\<close>

text \<open>
  A value decoded by \<open>encoding/json\<close> into \<open>interface{}\<close>: \<open>nil\<close>, \<open>bool\<close>, \<open>float64\<close>,
  \<open>string\<close>, \<open>[]interface{}\<close> or \<open>map[string]interface{}\<close>. A step is a Go map from
  keys to such values; a key may be present with the value \<open>nil\<close>.
\<close>

datatype json =
  JNull
| JBool bool
| JNumber real
| JString string
| JArray "json list"
| JObject "(string \<times> json) list"

type_synonym stepData = "string \<rightharpoonup> json"

text \<open>\<open>stepData[key] != nil\<close>: the key is present and its value is not \<open>nil\<close>.\<close>

definition notNil :: "stepData \<Rightarrow> string \<Rightarrow> bool" where
  "notNil stepData key = (case stepData key of None \<Rightarrow> False | Some v \<Rightarrow> v \<noteq> JNull)"

text \<open>The type name \<open>%T\<close> prints.\<close>

fun typeName :: "json \<Rightarrow> string" where
  "typeName JNull = ''<nil>''"
| "typeName (JBool b) = ''bool''"
| "typeName (JNumber x) = ''float64''"
| "typeName (JString s) = ''string''"
| "typeName (JArray xs) = ''[]interface {}''"
| "typeName (JObject kvs) = ''map[string]interface {}''"

text \<open>Decimal digits, as \<open>%d\<close> prints an integer.\<close>

function showNat :: "nat \<Rightarrow> string" where
  "showNat n = (if n < 10 then [char_of (48 + n)] else showNat (n div 10) @ [char_of (48 + n mod 10)])"
  by pat_completeness auto
termination
  by (relation "measure id") auto

declare showNat.simps [simp del]

definition showInt :: "int \<Rightarrow> string" where
  "showInt i = (if i < 0 then ''-'' @ showNat (nat (- i)) else showNat (nat i))"

datatype DiagnosticSeverity =
  DiagnosticSeverityError
| DiagnosticSeverityWarning
| DiagnosticSeverityInformation
| DiagnosticSeverityHint

record Position =
  Line_p :: "32 word"
  Character :: "32 word"

record Range =
  Start :: Position
  End :: Position

record Diagnostic =
  Range_d :: Range
  Severity :: DiagnosticSeverity
  Message_d :: string
  Source :: string
  Code :: string

text \<open>
  The step-type flags of \<open>validateSingleStep\<close>. \<open>hasWait\<close> alone is the presence of the
  key (\<open>_, hasWait := stepData["wait"]\<close>); the others compare the value with \<open>nil\<close>.
\<close>

definition hasCommand :: "stepData \<Rightarrow> bool" where
  "hasCommand stepData = (notNil stepData ''command'' \<or> notNil stepData ''commands'')"

definition hasWait :: "stepData \<Rightarrow> bool" where
  "hasWait stepData = (stepData ''wait'' \<noteq> None)"

definition hasBlock :: "stepData \<Rightarrow> bool" where
  "hasBlock stepData = notNil stepData ''block''"

definition hasInput :: "stepData \<Rightarrow> bool" where
  "hasInput stepData = notNil stepData ''input''"

definition hasTrigger :: "stepData \<Rightarrow> bool" where
  "hasTrigger stepData = notNil stepData ''trigger''"

definition hasGroup :: "stepData \<Rightarrow> bool" where
  "hasGroup stepData = notNil stepData ''group''"

definition stepTypeCount :: "stepData \<Rightarrow> int" where
  "stepTypeCount stepData =
     (if hasCommand stepData then 1 else 0) + (if hasWait stepData then 1 else 0)
     + (if hasBlock stepData then 1 else 0) + (if hasInput stepData then 1 else 0)
     + (if hasTrigger stepData then 1 else 0) + (if hasGroup stepData then 1 else 0)"

text \<open>The blocks of \<open>validateSingleStep\<close>, in the order of the source; each gives the
  diagnostics it appends.\<close>

definition stepTypeDiagnostics :: "stepData \<Rightarrow> 32 word \<Rightarrow> int \<Rightarrow> Diagnostic list" where
  "stepTypeDiagnostics stepData lineNum stepNumber =
     (if stepTypeCount stepData = 0 then
        (let hasPlugins = notNil stepData ''plugins'' in
         if hasPlugins then
           [\<lparr>Range_d = \<lparr>Start = \<lparr>Line_p = lineNum, Character = 2\<rparr>,
                        End = \<lparr>Line_p = lineNum + 2, Character = 0\<rparr>\<rparr>,
             Severity = DiagnosticSeverityInformation,
             Message_d = ''Step '' @ showInt stepNumber
               @ '' has no explicit step type, but plugins may provide command execution via hooks'',
             Source = ''buildkite-ls'',
             Code = ''no-step-type-with-plugins''\<rparr>]
         else
           [\<lparr>Range_d = \<lparr>Start = \<lparr>Line_p = lineNum, Character = 2\<rparr>,
                        End = \<lparr>Line_p = lineNum + 2, Character = 0\<rparr>\<rparr>,
             Severity = DiagnosticSeverityError,
             Message_d = ''Step '' @ showInt stepNumber
               @ '' must specify a step type: command, wait, block, input, trigger, or group'',
             Source = ''buildkite-ls'',
             Code = ''missing-step-type''\<rparr>])
      else if stepTypeCount stepData > 1 then
        [\<lparr>Range_d = \<lparr>Start = \<lparr>Line_p = lineNum, Character = 2\<rparr>,
                     End = \<lparr>Line_p = lineNum + 3, Character = 0\<rparr>\<rparr>,
          Severity = DiagnosticSeverityError,
          Message_d = ''Step '' @ showInt stepNumber
            @ '' has multiple step types - only one is allowed per step'',
          Source = ''buildkite-ls'',
          Code = ''multiple-step-types''\<rparr>]
      else [])"

definition emptyCommandDiagnostics :: "stepData \<Rightarrow> 32 word \<Rightarrow> Diagnostic list" where
  "emptyCommandDiagnostics stepData lineNum =
     (case stepData ''command'' of
        Some (JString command) \<Rightarrow>
          if TrimSpace command = [] then
            (let hasPlugins = notNil stepData ''plugins'' in
             if hasPlugins then
               [\<lparr>Range_d = \<lparr>Start = \<lparr>Line_p = lineNum + 1, Character = 4\<rparr>,
                            End = \<lparr>Line_p = lineNum + 1, Character = 999\<rparr>\<rparr>,
                 Severity = DiagnosticSeverityInformation,
                 Message_d = ''Command is empty, but plugins may provide command execution via hooks'',
                 Source = ''buildkite-ls'',
                 Code = ''empty-command-with-plugins''\<rparr>]
             else
               [\<lparr>Range_d = \<lparr>Start = \<lparr>Line_p = lineNum + 1, Character = 4\<rparr>,
                            End = \<lparr>Line_p = lineNum + 1, Character = 999\<rparr>\<rparr>,
                 Severity = DiagnosticSeverityWarning,
                 Message_d = ''Command should not be empty'',
                 Source = ''buildkite-ls'',
                 Code = ''empty-command''\<rparr>])
          else []
      | _ \<Rightarrow> [])"

definition nameDiagnostics :: "stepData \<Rightarrow> 32 word \<Rightarrow> Diagnostic list" where
  "nameDiagnostics stepData lineNum =
     (if notNil stepData ''name'' \<and> \<not> notNil stepData ''label'' then
        [\<lparr>Range_d = \<lparr>Start = \<lparr>Line_p = lineNum, Character = 2\<rparr>,
                     End = \<lparr>Line_p = lineNum + 2, Character = 0\<rparr>\<rparr>,
          Severity = DiagnosticSeverityInformation,
          Message_d = ''Use '' @ [CHR 0x27] @ ''label'' @ [CHR 0x27] @ '' instead of ''
            @ [CHR 0x27] @ ''name'' @ [CHR 0x27] @ '' - '' @ [CHR 0x27] @ ''label'' @ [CHR 0x27]
            @ '' is the standard Buildkite field for step display names'',
          Source = ''buildkite-ls'',
          Code = ''use-label-not-name''\<rparr>]
      else [])"

definition labelDiagnostics :: "stepData \<Rightarrow> 32 word \<Rightarrow> Diagnostic list" where
  "labelDiagnostics stepData lineNum =
     (if \<not> notNil stepData ''label'' \<and> \<not> notNil stepData ''name'' then
        [\<lparr>Range_d = \<lparr>Start = \<lparr>Line_p = lineNum, Character = 2\<rparr>,
                     End = \<lparr>Line_p = lineNum, Character = 999\<rparr>\<rparr>,
          Severity = DiagnosticSeverityInformation,
          Message_d = ''Consider adding a '' @ [CHR 0x27] @ ''label'' @ [CHR 0x27]
            @ '' to make this step easier to identify in the UI'',
          Source = ''buildkite-ls'',
          Code = ''missing-label''\<rparr>]
      else [])"

text \<open>\<open>if hasCommand { ... }\<close>: the three checks made on command steps only.\<close>

definition commandDiagnostics :: "stepData \<Rightarrow> 32 word \<Rightarrow> Diagnostic list" where
  "commandDiagnostics stepData lineNum =
     (if hasCommand stepData then
        emptyCommandDiagnostics stepData lineNum @ nameDiagnostics stepData lineNum
          @ labelDiagnostics stepData lineNum
      else [])"

definition waitDiagnostics :: "stepData \<Rightarrow> 32 word \<Rightarrow> Diagnostic list" where
  "waitDiagnostics stepData lineNum =
     (case stepData ''wait'' of
        None \<Rightarrow> []
      | Some (JString v) \<Rightarrow> []
      | Some (JNumber v) \<Rightarrow> []
      | Some JNull \<Rightarrow> []
      | Some v \<Rightarrow>
          [\<lparr>Range_d = \<lparr>Start = \<lparr>Line_p = lineNum + 1, Character = 4\<rparr>,
                       End = \<lparr>Line_p = lineNum + 1, Character = 999\<rparr>\<rparr>,
            Severity = DiagnosticSeverityError,
            Message_d = ''Wait value must be null, a string message, or a number of seconds, got ''
              @ typeName v,
            Source = ''buildkite-ls'',
            Code = ''invalid-wait-value''\<rparr>])"

text \<open>\<open>v, ok := stepData[key].(string); !ok || strings.TrimSpace(v) == ""\<close>.\<close>

definition notNonEmptyString :: "stepData \<Rightarrow> string \<Rightarrow> bool" where
  "notNonEmptyString stepData key =
     (case stepData key of Some (JString v) \<Rightarrow> TrimSpace v = [] | _ \<Rightarrow> True)"

definition blockDiagnostics :: "stepData \<Rightarrow> 32 word \<Rightarrow> Diagnostic list" where
  "blockDiagnostics stepData lineNum =
     (if hasBlock stepData \<and> notNonEmptyString stepData ''block'' then
        [\<lparr>Range_d = \<lparr>Start = \<lparr>Line_p = lineNum + 1, Character = 4\<rparr>,
                     End = \<lparr>Line_p = lineNum + 1, Character = 999\<rparr>\<rparr>,
          Severity = DiagnosticSeverityError,
          Message_d = ''Block step must have a non-empty message'',
          Source = ''buildkite-ls'',
          Code = ''empty-block-message''\<rparr>]
      else [])"

definition triggerDiagnostics :: "stepData \<Rightarrow> 32 word \<Rightarrow> Diagnostic list" where
  "triggerDiagnostics stepData lineNum =
     (if hasTrigger stepData \<and> notNonEmptyString stepData ''trigger'' then
        [\<lparr>Range_d = \<lparr>Start = \<lparr>Line_p = lineNum + 1, Character = 4\<rparr>,
                     End = \<lparr>Line_p = lineNum + 1, Character = 999\<rparr>\<rparr>,
          Severity = DiagnosticSeverityError,
          Message_d = ''Trigger step must specify a pipeline slug'',
          Source = ''buildkite-ls'',
          Code = ''empty-trigger-pipeline''\<rparr>]
      else [])"

definition inputDiagnostics :: "stepData \<Rightarrow> 32 word \<Rightarrow> Diagnostic list" where
  "inputDiagnostics stepData lineNum =
     (if hasInput stepData \<and> notNonEmptyString stepData ''input'' then
        [\<lparr>Range_d = \<lparr>Start = \<lparr>Line_p = lineNum + 1, Character = 4\<rparr>,
                     End = \<lparr>Line_p = lineNum + 1, Character = 999\<rparr>\<rparr>,
          Severity = DiagnosticSeverityError,
          Message_d = ''Input step must have a non-empty prompt message'',
          Source = ''buildkite-ls'',
          Code = ''empty-input-prompt''\<rparr>]
      else [])"

definition validateSingleStep :: "stepData \<Rightarrow> 32 word \<Rightarrow> int \<Rightarrow> Diagnostic list" where
  "validateSingleStep stepData lineNum stepNumber =
     stepTypeDiagnostics stepData lineNum stepNumber
     @ commandDiagnostics stepData lineNum
     @ waitDiagnostics stepData lineNum
     @ blockDiagnostics stepData lineNum
     @ triggerDiagnostics stepData lineNum
     @ inputDiagnostics stepData lineNum"

section \<open>Context analyzer\<close>

datatype CompletionContext =
  ContextUnknown
| ContextTopLevel
| ContextStep
| ContextPlugins
| ContextPluginConfig

record ContextInfo =
  Type :: CompletionContext
  IndentLevel :: int
  InArray :: bool
  ArrayContext :: string
  ParentKeys :: "string list"
  CurrentKey :: string
  PluginName :: string
  NearestStepIndex :: int

text \<open>
  \<open>PositionContext\<close>. Its field \<open>URI\<close> is named \<open>URI_c\<close> and its field \<open>Position\<close>
  \<open>Position_c\<close>, the names being taken already.
\<close>

record PositionContext =
  URI_c :: string
  Position_c :: Position
  CurrentLine :: string
  CharIndex :: int
  ContextLines :: "string list"
  FullContent :: string

text \<open>\<open>KeyInfo\<close>; its field \<open>IndentLevel\<close> is named \<open>IndentLevel_k\<close>.\<close>

record KeyInfo =
  Key :: string
  IndentLevel_k :: int
  IsArray :: bool
  HasValue :: bool

fun getIndentLevel :: "string \<Rightarrow> int" where
  "getIndentLevel [] = 0"
| "getIndentLevel (char # rest) =
     (if char = CHR '' '' then 1 + getIndentLevel rest
      else if char = TAB then 2 + getIndentLevel rest
      else 0)"

definition popKeysAtOrAboveIndent :: "KeyInfo list \<Rightarrow> int \<Rightarrow> KeyInfo list" where
  "popKeysAtOrAboveIndent keyStack indent = filter (\<lambda>key. IndentLevel_k key < indent) keyStack"

text \<open>The key of a \<open>key: value\<close> text, shared by the two branches of \<open>parseKeyFromLine\<close>.\<close>

definition keyAtColon :: "string \<Rightarrow> int \<Rightarrow> KeyInfo option" where
  "keyAtColon content indent =
     (let colonIndex = Index content '':'' in
      if colonIndex \<noteq> - 1 then
        (let key = TrimSpace (take (nat colonIndex) content);
             afterColon = TrimSpace (drop (nat colonIndex + 1) content)
         in Some \<lparr>Key = key, IndentLevel_k = indent,
                   IsArray = (afterColon = [] \<or> afterColon = ''[]''),
                   HasValue = (afterColon \<noteq> [] \<and> afterColon \<noteq> ''[]'')\<rparr>)
      else None)"

definition parseKeyFromLine :: "string \<Rightarrow> int \<Rightarrow> KeyInfo option" where
  "parseKeyFromLine line indent =
     (let trimmed = TrimSpace line in
      if HasPrefix trimmed ''- ''
      then (let arrayItemContent = TrimSpace (drop 2 trimmed) in keyAtColon arrayItemContent indent)
      else keyAtColon trimmed indent)"

text \<open>
  The loop \<open>for i := len(keyStack) - 1; i >= 0; i--\<close> of \<open>determineContextFromStack\<close>;
  the argument is \<open>i + 1\<close>, and \<^const>\<open>None\<close> is the loop ending without a return.
\<close>

fun stackScan :: "ContextInfo \<Rightarrow> KeyInfo list \<Rightarrow> nat \<Rightarrow> ContextInfo option" where
  "stackScan context keyStack 0 = None"
| "stackScan context keyStack (Suc i) =
     (let key = keyStack ! i in
      if Key key = ''plugins'' then
        (let context = context\<lparr>Type := ContextPlugins, InArray := True, ArrayContext := ''plugins''\<rparr> in
         if int i < int (length keyStack) - 1
         then Some (context\<lparr>Type := ContextPluginConfig, PluginName := Key (keyStack ! (i + 1))\<rparr>)
         else Some context)
      else if Key key = ''steps'' then Some (context\<lparr>Type := ContextStep\<rparr>)
      else stackScan context keyStack i)"

definition determineContextFromStack ::
  "ContextInfo \<Rightarrow> KeyInfo list \<Rightarrow> string \<Rightarrow> int \<Rightarrow> ContextInfo" where
  "determineContextFromStack context keyStack currentLine charIndex =
     (let context = context\<lparr>ParentKeys := map Key keyStack\<rparr> in
      if length keyStack = 0 then context\<lparr>Type := ContextTopLevel\<rparr>
      else case stackScan context keyStack (length keyStack) of
        Some found \<Rightarrow> found
      | None \<Rightarrow>
          if length keyStack \<le> 1 then context\<lparr>Type := ContextTopLevel\<rparr>
          else context\<lparr>Type := ContextStep\<rparr>)"

text \<open>
  The loop of \<open>analyzeYAMLStructure\<close> over the lines not yet visited; the state is
  \<open>context\<close> and \<open>keyStack\<close>. The line visited is the current line
  (\<open>i == len(lines) - 1\<close>) when no line follows it.
\<close>

fun analyzeLoop :: "string list \<Rightarrow> string \<Rightarrow> int \<Rightarrow> ContextInfo \<Rightarrow> KeyInfo list \<Rightarrow> ContextInfo" where
  "analyzeLoop [] currentLine charIndex context keyStack = context"
| "analyzeLoop (line # rest) currentLine charIndex context keyStack =
     (let isCurrentLine = (rest = []);
          trimmed = TrimSpace line
      in if (trimmed = [] \<or> HasPrefix trimmed ''#'') \<and> \<not> isCurrentLine
         then analyzeLoop rest currentLine charIndex context keyStack
         else
           (let indent = getIndentLevel line;
                keyStack = popKeysAtOrAboveIndent keyStack indent;
                (context, keyStack) =
                  (if isCurrentLine then (context\<lparr>IndentLevel := indent\<rparr>, keyStack)
                   else case parseKeyFromLine line indent of
                     Some keyInfo \<Rightarrow>
                       (if Key keyInfo = ''steps'' \<and> IsArray keyInfo
                        then context\<lparr>NearestStepIndex := 0\<rparr> else context,
                        keyStack @ [keyInfo])
                   | None \<Rightarrow> (context, keyStack));
                context =
                  (if Contains trimmed ''- '' \<and> length keyStack > 0
                      \<and> Key (last keyStack) = ''steps''
                   then context\<lparr>NearestStepIndex := NearestStepIndex context + 1\<rparr>
                   else context);
                context =
                  (if isCurrentLine
                   then determineContextFromStack context keyStack currentLine charIndex
                   else context)
            in analyzeLoop rest currentLine charIndex context keyStack))"

definition analyzeYAMLStructure :: "string list \<Rightarrow> string \<Rightarrow> int \<Rightarrow> ContextInfo" where
  "analyzeYAMLStructure lines currentLine charIndex =
     analyzeLoop lines currentLine charIndex
       \<lparr>Type = ContextUnknown, IndentLevel = 0, InArray = False, ArrayContext = [],
        ParentKeys = [], CurrentKey = [], PluginName = [], NearestStepIndex = - 1\<rparr>
       []"

text \<open>\<open>AnalyzeContext\<close>; the argument is a pointer, \<^const>\<open>None\<close> for \<open>nil\<close>.\<close>

definition AnalyzeContext :: "PositionContext option \<Rightarrow> ContextInfo" where
  "AnalyzeContext posCtx =
     (case posCtx of
        None \<Rightarrow>
          \<lparr>Type = ContextUnknown, IndentLevel = 0, InArray = False, ArrayContext = [],
           ParentKeys = [], CurrentKey = [], PluginName = [], NearestStepIndex = 0\<rparr>
      | Some p \<Rightarrow> analyzeYAMLStructure (ContextLines p) (CurrentLine p) (CharIndex p))"

section \<open>Completion (internal/lsp/completion.go)\<close>

text \<open>
  \<open>GetContentAtPosition\<close>; the result is a pointer, \<^const>\<open>None\<close> for \<open>nil\<close> (the error
  returned with it is always \<open>nil\<close>).
\<close>

definition GetContentAtPosition :: "DocumentManager \<Rightarrow> string \<Rightarrow> Position \<Rightarrow> PositionContext option" where
  "GetContentAtPosition dm uri position =
     (case dm uri of
        None \<Rightarrow> None
      | Some doc \<Rightarrow>
          (let lineIndex = unat (Line_p position);
               charIndex = uint (Character position)
           in if lineIndex \<ge> length (Lines doc) then None
              else Some \<lparr>URI_c = uri, Position_c = position,
                         CurrentLine = Lines doc ! lineIndex, CharIndex = charIndex,
                         ContextLines = take (lineIndex + 1) (Lines doc),
                         FullContent = Content doc\<rparr>))"

datatype CompletionItemKind =
  CompletionItemKindKeyword
| CompletionItemKindModule
| CompletionItemKindProperty
| CompletionItemKindSnippet

datatype InsertTextFormat =
  InsertTextFormatNone
| InsertTextFormatSnippet

text \<open>
  The fields of \<open>protocol.CompletionItem\<close> that the source sets. \<open>Documentation\<close> is a
  pointer to a \<open>MarkupContent\<close> whose kind is Markdown in every item; the model keeps
  its text. A field an item does not set has its zero value.
\<close>

record CompletionItem =
  Label :: string
  Kind :: CompletionItemKind
  Detail :: string
  Documentation :: "string option"
  InsertText :: string
  InsertTextFormat :: InsertTextFormat
  FilterText :: string
  SortText :: string

definition getTopLevelCompletions :: "CompletionItem list" where
  \<open>getTopLevelCompletions =
     [\<lparr>Label = ''steps'',
       Kind = CompletionItemKindProperty,
       Detail = ''Pipeline steps array'',
       Documentation = Some (''An array of build steps to be run''),
       InsertText = ''steps:\<newline>  - $0'',
       InsertTextFormat = InsertTextFormatSnippet,
       FilterText = [],
       SortText = []\<rparr>,
      \<lparr>Label = ''env'',
       Kind = CompletionItemKindProperty,
       Detail = ''Environment variables'',
       Documentation = Some (''Environment variables for the pipeline''),
       InsertText = ''env:\<newline>  $0'',
       InsertTextFormat = InsertTextFormatSnippet,
       FilterText = [],
       SortText = []\<rparr>,
      \<lparr>Label = ''agents'',
       Kind = CompletionItemKindProperty,
       Detail = ''Agent requirements'',
       Documentation = Some (''Requirements for agents to run this pipeline''),
       InsertText = ''agents:\<newline>  $0'',
       InsertTextFormat = InsertTextFormatSnippet,
       FilterText = [],
       SortText = []\<rparr>,
      \<lparr>Label = ''timeout_in_minutes'',
       Kind = CompletionItemKindProperty,
       Detail = ''Pipeline timeout'',
       Documentation = Some (''The maximum number of minutes a job created by this step will run''),
       InsertText = [],
       InsertTextFormat = InsertTextFormatNone,
       FilterText = [],
       SortText = []\<rparr>,
      \<lparr>Label = ''cancel_running_branch_builds'',
       Kind = CompletionItemKindProperty,
       Detail = ''Cancel running builds'',
       Documentation = Some (''Cancel running builds for the same branch when a new build is created''),
       InsertText = [],
       InsertTextFormat = InsertTextFormatNone,
       FilterText = [],
       SortText = []\<rparr>,
      \<lparr>Label = ''skip_intermediate_builds'',
       Kind = CompletionItemKindProperty,
       Detail = ''Skip intermediate builds'',
       Documentation = Some (''Skip intermediate builds and only run the latest''),
       InsertText = [],
       InsertTextFormat = InsertTextFormatNone,
       FilterText = [],
       SortText = []\<rparr>,
      \<lparr>Label = ''skip'',
       Kind = CompletionItemKindProperty,
       Detail = ''Skip entire pipeline'',
       Documentation = Some (''Skip this pipeline entirely''),
       InsertText = [],
       InsertTextFormat = InsertTextFormatNone,
       FilterText = [],
       SortText = []\<rparr>,
      \<lparr>Label = ''notify'',
       Kind = CompletionItemKindProperty,
       Detail = ''Build notifications'',
       Documentation = Some (''Configure Slack, email, or webhook notifications''),
       InsertText = ''notify:\<newline>  - ${1|slack,email,webhook|}: "$2"'',
       InsertTextFormat = InsertTextFormatSnippet,
       FilterText = [],
       SortText = []\<rparr>,
      \<lparr>Label = ''group'',
       Kind = CompletionItemKindProperty,
       Detail = ''Group steps together'',
       Documentation = Some (''Group related steps together in the pipeline UI''),
       InsertText = ''group: "$1"'',
       InsertTextFormat = InsertTextFormatSnippet,
       FilterText = [],
       SortText = []\<rparr>,
      \<lparr>Label = ''x-buildkite-repository-provider'',
       Kind = CompletionItemKindProperty,
       Detail = ''Repository provider settings'',
       Documentation = Some (''Configure repository provider specific settings''),
       InsertText = ''x-buildkite-repository-provider:\<newline>  webhook_url: "${1:https://api.buildkite.com/v2/webhooks/}"\<newline>  build_branches: ${2|true,false|}'',
       InsertTextFormat = InsertTextFormatSnippet,
       FilterText = [],
       SortText = []\<rparr>,
      \<lparr>Label = ''x-buildkite-plugins'',
       Kind = CompletionItemKindProperty,
       Detail = ''Global plugin configuration'',
       Documentation = Some (''Define plugins that apply to all steps''),
       InsertText = ''x-buildkite-plugins:\<newline>  - ${1:plugin-name}#${2:version}:\<newline>      ${3:config}: "${4:value}"'',
       InsertTextFormat = InsertTextFormatSnippet,
       FilterText = [],
       SortText = []\<rparr>,
      \<lparr>Label = ''repository_provider_settings'',
       Kind = CompletionItemKindProperty,
       Detail = ''Repository provider configuration'',
       Documentation = Some (''Settings specific to your repository provider (GitHub, GitLab, etc.)''),
       InsertText = ''repository_provider_settings:\<newline>  build_pull_requests: ${1|true,false|}\<newline>  build_branches: ${2|true,false|}\<newline>  publish_commit_status: ${3|true,false|}'',
       InsertTextFormat = InsertTextFormatSnippet,
       FilterText = [],
       SortText = []\<rparr>]\<close>

definition getStepCompletions :: "CompletionItem list" where
  \<open>getStepCompletions =
     [\<lparr>Label = ''label'',
       Kind = CompletionItemKindProperty,
       Detail = ''Step label'',
       Documentation = Some (''The label that will be displayed in the pipeline''),
       InsertText = [],
       InsertTextFormat = InsertTextFormatNone,
       FilterText = [],
       SortText = []\<rparr>,
      \<lparr>Label = ''command'',
       Kind = CompletionItemKindProperty,
       Detail = ''Command to run'',
       Documentation = Some (''The command/script to be executed by this step''),
       InsertText = [],
       InsertTextFormat = InsertTextFormatNone,
       FilterText = [],
       SortText = []\<rparr>,
      \<lparr>Label = ''commands'',
       Kind = CompletionItemKindProperty,
       Detail = ''Multiple commands'',
       Documentation = Some (''An array of commands to run in sequence''),
       InsertText = ''commands:\<newline>  - "$0"'',
       InsertTextFormat = InsertTextFormatSnippet,
       FilterText = [],
       SortText = []\<rparr>,
      \<lparr>Label = ''agents'',
       Kind = CompletionItemKindProperty,
       Detail = ''Agent requirements for step'',
       Documentation = Some (''Agent query rules to target specific agents''),
       InsertText = ''agents:\<newline>  $0'',
       InsertTextFormat = InsertTextFormatSnippet,
       FilterText = [],
       SortText = []\<rparr>,
      \<lparr>Label = ''artifact_paths'',
       Kind = CompletionItemKindProperty,
       Detail = ''Paths to upload as artifacts'',
       Documentation = Some (''Glob patterns for files to upload as build artifacts''),
       InsertText = [],
       InsertTextFormat = InsertTextFormatNone,
       FilterText = [],
       SortText = []\<rparr>,
      \<lparr>Label = ''branches'',
       Kind = CompletionItemKindProperty,
       Detail = ''Branch filtering'',
       Documentation = Some (''Restrict step to certain branches''),
       InsertText = [],
       InsertTextFormat = InsertTextFormatNone,
       FilterText = [],
       SortText = []\<rparr>,
      \<lparr>Label = ''if'',
       Kind = CompletionItemKindProperty,
       Detail = ''Conditional step'',
       Documentation = Some (''A boolean condition to determine if the step should run''),
       InsertText = [],
       InsertTextFormat = InsertTextFormatNone,
       FilterText = [],
       SortText = []\<rparr>,
      \<lparr>Label = ''depends_on'',
       Kind = CompletionItemKindProperty,
       Detail = ''Step dependencies'',
       Documentation = Some (''A list of step keys that this step depends on''),
       InsertText = [],
       InsertTextFormat = InsertTextFormatNone,
       FilterText = [],
       SortText = []\<rparr>,
      \<lparr>Label = ''retry'',
       Kind = CompletionItemKindProperty,
       Detail = ''Retry configuration'',
       Documentation = Some (''The conditions for retrying this step''),
       InsertText = ''retry:\<newline>  automatic: ${1:true}\<newline>  manual: ${2:true}'',
       InsertTextFormat = InsertTextFormatSnippet,
       FilterText = [],
       SortText = []\<rparr>,
      \<lparr>Label = ''timeout_in_minutes'',
       Kind = CompletionItemKindProperty,
       Detail = ''Step timeout'',
       Documentation = Some (''The number of minutes to time out a job''),
       InsertText = [],
       InsertTextFormat = InsertTextFormatNone,
       FilterText = [],
       SortText = []\<rparr>,
      \<lparr>Label = ''skip'',
       Kind = CompletionItemKindProperty,
       Detail = ''Skip this step'',
       Documentation = Some (''Whether to skip this step''),
       InsertText = [],
       InsertTextFormat = InsertTextFormatNone,
       FilterText = [],
       SortText = []\<rparr>,
      \<lparr>Label = ''plugins'',
       Kind = CompletionItemKindProperty,
       Detail = ''Build step plugins'',
       Documentation = Some (''List of plugins to run for this step''),
       InsertText = ''plugins:\<newline>  - $0'',
       InsertTextFormat = InsertTextFormatSnippet,
       FilterText = [],
       SortText = []\<rparr>,
      \<lparr>Label = ''key'',
       Kind = CompletionItemKindProperty,
       Detail = ''Step key identifier'',
       Documentation = Some (''A unique identifier for this step, used for dependencies''),
       InsertText = [],
       InsertTextFormat = InsertTextFormatNone,
       FilterText = [],
       SortText = []\<rparr>,
      \<lparr>Label = ''concurrency'',
       Kind = CompletionItemKindProperty,
       Detail = ''Concurrency limit'',
       Documentation = Some (''Number of concurrent jobs allowed for this step''),
       InsertText = [],
       InsertTextFormat = InsertTextFormatNone,
       FilterText = [],
       SortText = []\<rparr>,
      \<lparr>Label = ''concurrency_group'',
       Kind = CompletionItemKindProperty,
       Detail = ''Concurrency group name'',
       Documentation = Some (''Name of the concurrency group to limit parallel execution''),
       InsertText = [],
       InsertTextFormat = InsertTextFormatNone,
       FilterText = [],
       SortText = []\<rparr>,
      \<lparr>Label = ''concurrency_method'',
       Kind = CompletionItemKindProperty,
       Detail = ''Concurrency method'',
       Documentation = Some (''How to handle concurrency limits (eager or ordered)''),
       InsertText = ''concurrency_method: ${1|eager,ordered|}'',
       InsertTextFormat = InsertTextFormatSnippet,
       FilterText = [],
       SortText = []\<rparr>,
      \<lparr>Label = ''parallelism'',
       Kind = CompletionItemKindProperty,
       Detail = ''Number of parallel jobs'',
       Documentation = Some (''Number of parallel jobs to run for this step''),
       InsertText = [],
       InsertTextFormat = InsertTextFormatNone,
       FilterText = [],
       SortText = []\<rparr>,
      \<lparr>Label = ''soft_fail'',
       Kind = CompletionItemKindProperty,
       Detail = ''Allow step to fail'',
       Documentation = Some (''Allow the step to fail without failing the entire build''),
       InsertText = ''soft_fail: ${1|true,false|}'',
       InsertTextFormat = InsertTextFormatSnippet,
       FilterText = [],
       SortText = []\<rparr>,
      \<lparr>Label = ''priority'',
       Kind = CompletionItemKindProperty,
       Detail = ''Step priority'',
       Documentation = Some (''Priority of this step (-5 to 5, higher values run first)''),
       InsertText = [],
       InsertTextFormat = InsertTextFormatNone,
       FilterText = [],
       SortText = []\<rparr>,
      \<lparr>Label = ''matrix'',
       Kind = CompletionItemKindProperty,
       Detail = ''Matrix build configuration'',
       Documentation = Some (''Create multiple variations of this step with different variable combinations''),
       InsertText = ''matrix:\<newline>  setup:\<newline>    ${1:environment}: ["${2:production}", "${3:staging}"]\<newline>    ${4:node_version}: ["${5:16}", "${6:18}", "${7:20}"]\<newline>  adjustments:\<newline>    - with:\<newline>        ${8:environment}: "${9:production}"\<newline>      ${10|skip,soft_fail|}: ${11|true,false|}'',
       InsertTextFormat = InsertTextFormatSnippet,
       FilterText = [],
       SortText = []\<rparr>,
      \<lparr>Label = ''notify'',
       Kind = CompletionItemKindProperty,
       Detail = ''Step-specific notifications'',
       Documentation = Some (''Configure notifications for this specific step''),
       InsertText = ''notify:\<newline>  - ${1|slack,email,webhook|}: "$2"'',
       InsertTextFormat = InsertTextFormatSnippet,
       FilterText = [],
       SortText = []\<rparr>,
      \<lparr>Label = ''wait'',
       Kind = CompletionItemKindKeyword,
       Detail = ''Wait step'',
       Documentation = Some (''Wait for all previous steps to complete''),
       InsertText = ''wait: ${1|~,null|}'',
       InsertTextFormat = InsertTextFormatSnippet,
       FilterText = [],
       SortText = []\<rparr>,
      \<lparr>Label = ''block'',
       Kind = CompletionItemKindKeyword,
       Detail = ''Block/manual step'',
       Documentation = Some (''Manual approval step that blocks pipeline execution''),
       InsertText = [],
       InsertTextFormat = InsertTextFormatNone,
       FilterText = [],
       SortText = []\<rparr>,
      \<lparr>Label = ''input'',
       Kind = CompletionItemKindKeyword,
       Detail = ''Input step'',
       Documentation = Some (''Collect user input before continuing''),
       InsertText = [],
       InsertTextFormat = InsertTextFormatNone,
       FilterText = [],
       SortText = []\<rparr>,
      \<lparr>Label = ''trigger'',
       Kind = CompletionItemKindKeyword,
       Detail = ''Trigger step'',
       Documentation = Some (''Trigger another pipeline''),
       InsertText = [],
       InsertTextFormat = InsertTextFormatNone,
       FilterText = [],
       SortText = []\<rparr>,
      \<lparr>Label = ''group'',
       Kind = CompletionItemKindProperty,
       Detail = ''Group step'',
       Documentation = Some (''Group multiple steps together''),
       InsertText = ''group: "$1"\<newline>steps:\<newline>  - $0'',
       InsertTextFormat = InsertTextFormatSnippet,
       FilterText = [],
       SortText = []\<rparr>,
      \<lparr>Label = ''prompt'',
       Kind = CompletionItemKindProperty,
       Detail = ''Block step prompt'',
       Documentation = Some (''Prompt text shown for manual approval steps''),
       InsertText = [],
       InsertTextFormat = InsertTextFormatNone,
       FilterText = [],
       SortText = []\<rparr>,
      \<lparr>Label = ''fields'',
       Kind = CompletionItemKindProperty,
       Detail = ''Input step fields'',
       Documentation = Some (''Fields to collect from user input''),
       InsertText = ''fields:\<newline>  - ${1|text,select,boolean|}: "$2"'',
       InsertTextFormat = InsertTextFormatSnippet,
       FilterText = [],
       SortText = []\<rparr>,
      \<lparr>Label = ''pipeline'',
       Kind = CompletionItemKindProperty,
       Detail = ''Pipeline to trigger'',
       Documentation = Some (''Pipeline slug to trigger''),
       InsertText = [],
       InsertTextFormat = InsertTextFormatNone,
       FilterText = [],
       SortText = []\<rparr>,
      \<lparr>Label = ''build'',
       Kind = CompletionItemKindProperty,
       Detail = ''Trigger build configuration'',
       Documentation = Some (''Build configuration for triggered pipeline''),
       InsertText = ''build:\<newline>  message: "$1"\<newline>  commit: "${2:HEAD}"\<newline>  branch: "${3:main}"'',
       InsertTextFormat = InsertTextFormatSnippet,
       FilterText = [],
       SortText = []\<rparr>,
      \<lparr>Label = ''async'',
       Kind = CompletionItemKindProperty,
       Detail = ''Async trigger'',
       Documentation = Some (''Don'' @ [CHR 0x27] @ ''t wait for triggered pipeline to complete''),
       InsertText = [],
       InsertTextFormat = InsertTextFormatNone,
       FilterText = [],
       SortText = []\<rparr>,
      \<lparr>Label = ''group'',
       Kind = CompletionItemKindProperty,
       Detail = ''Step group'',
       Documentation = Some (''Group steps together in the UI''),
       InsertText = [],
       InsertTextFormat = InsertTextFormatNone,
       FilterText = [],
       SortText = []\<rparr>,
      \<lparr>Label = ''parallelism'',
       Kind = CompletionItemKindProperty,
       Detail = ''Parallel job count'',
       Documentation = Some (''Number of parallel jobs to run for this step''),
       InsertText = ''parallelism: ${1:5}'',
       InsertTextFormat = InsertTextFormatSnippet,
       FilterText = [],
       SortText = []\<rparr>,
      \<lparr>Label = ''signature'',
       Kind = CompletionItemKindProperty,
       Detail = ''Step signature'',
       Documentation = Some (''Digital signature for step verification''),
       InsertText = ''signature:\<newline>  algorithm: "${1:sha256}"\<newline>  signed_fields:\<newline>    - "${2:command}"'',
       InsertTextFormat = InsertTextFormatSnippet,
       FilterText = [],
       SortText = []\<rparr>,
      \<lparr>Label = ''cache'',
       Kind = CompletionItemKindProperty,
       Detail = ''Step-level cache'',
       Documentation = Some (''Cache configuration for this specific step''),
       InsertText = ''cache:\<newline>  - "${1:.cache}"'',
       InsertTextFormat = InsertTextFormatSnippet,
       FilterText = [],
       SortText = []\<rparr>,
      \<lparr>Label = ''concurrency_method'',
       Kind = CompletionItemKindProperty,
       Detail = ''Concurrency control method'',
       Documentation = Some (''How to handle concurrency conflicts''),
       InsertText = ''concurrency_method: ${1|eager,ordered|}'',
       InsertTextFormat = InsertTextFormatSnippet,
       FilterText = [],
       SortText = []\<rparr>,
      \<lparr>Label = ''cancel_on_build_failing'',
       Kind = CompletionItemKindProperty,
       Detail = ''Cancel on build failure'',
       Documentation = Some (''Cancel this step if any other step fails''),
       InsertText = ''cancel_on_build_failing: ${1|true,false|}'',
       InsertTextFormat = InsertTextFormatSnippet,
       FilterText = [],
       SortText = []\<rparr>]\<close>

record PopularPlugin =
  Name_pp :: string
  Version_pp :: string
  Description_pp :: string

definition GetPopularPlugins :: "PopularPlugin list" where
  "GetPopularPlugins =
     [\<lparr>Name_pp = ''docker'', Version_pp = ''v5.13.0'',
       Description_pp = ''Run build steps in Docker containers''\<rparr>,
      \<lparr>Name_pp = ''docker-compose'', Version_pp = ''v5.10.0'',
       Description_pp = ''Run build steps with Docker Compose''\<rparr>,
      \<lparr>Name_pp = ''cache'', Version_pp = ''v1.7.0'',
       Description_pp = ''Cache files between builds''\<rparr>,
      \<lparr>Name_pp = ''artifacts'', Version_pp = ''v1.9.4'',
       Description_pp = ''Upload and download build artifacts''\<rparr>,
      \<lparr>Name_pp = ''test-collector'', Version_pp = ''v1.11.0'',
       Description_pp = ''Collect and analyze test results''\<rparr>,
      \<lparr>Name_pp = ''junit-annotate'', Version_pp = ''v2.7.0'',
       Description_pp = ''Annotate builds with JUnit test results''\<rparr>,
      \<lparr>Name_pp = ''shellcheck'', Version_pp = ''v1.4.0'',
       Description_pp = ''Run ShellCheck on shell scripts''\<rparr>,
      \<lparr>Name_pp = ''ecr'', Version_pp = ''v2.10.0'',
       Description_pp = ''Build and push Docker images to AWS ECR''\<rparr>,
      \<lparr>Name_pp = ''monorepo-diff'', Version_pp = ''v1.5.1'',
       Description_pp = ''Skip builds for unchanged parts of monorepos''\<rparr>,
      \<lparr>Name_pp = ''plugin-linter'', Version_pp = ''v3.3.0'',
       Description_pp = ''Lint Buildkite plugins''\<rparr>,
      \<lparr>Name_pp = ''docker-login'', Version_pp = ''v3.0.0'',
       Description_pp = ''Log in to Docker registries''\<rparr>]"

definition needsListItemSuggestion :: "PositionContext option \<Rightarrow> ContextInfo option \<Rightarrow> bool" where
  "needsListItemSuggestion posCtx contextInfo =
     (case (posCtx, contextInfo) of
        (Some p, Some info) \<Rightarrow>
          (let currentLine = CurrentLine p;
               trimmedLine = TrimSpace currentLine
           in if HasPrefix trimmedLine ''-'' then False
              else if trimmedLine = [] \<and> Type info = ContextPlugins then True
              else False)
      | _ \<Rightarrow> False)"

text \<open>The \<open>switch plugin.Name\<close> of \<open>getPluginCompletions\<close>.\<close>

definition pluginInsertText :: "string \<Rightarrow> string \<Rightarrow> string" where
  \<open>pluginInsertText name fullName =
     (if name = ''docker'' then fullName @ '':\<newline>    image: "${1:node:18}"''
      else if name = ''docker-compose'' then fullName @ '':\<newline>    run: "${1:app}"''
      else if name = ''cache'' then
        fullName @ '':\<newline>    key: "${1:v1-cache-key}"\<newline>    paths:\<newline>      - "${2:.cache}"''
      else if name = ''artifacts'' then fullName @ '':\<newline>    download: "${1:build/*}"''
      else if name = ''test-collector'' then fullName @ '':\<newline>    files: "${1:test-results.xml}"''
      else if name = ''slack'' then fullName @ '':\<newline>    message: "${1:Build completed}"''
      else if name = ''junit-annotate'' then fullName @ '':\<newline>    artifacts: "${1:test-results.xml}"''
      else if name = ''shellcheck'' then fullName @ '':\<newline>    files: "${1:scripts/*.sh}"''
      else fullName @ '':\<newline>    ${1:property}: "${2:value}"'')\<close>

text \<open>\<open>%02d\<close>: decimal, padded with zeros to two digits.\<close>

definition showInt02 :: "int \<Rightarrow> string" where
  "showInt02 i = (if 0 \<le> i \<and> i < 10 then ''0'' @ showInt i else showInt i)"

text \<open>The item the loop of \<open>getPluginCompletions\<close> appends for one popular plugin.\<close>

definition pluginCompletionItem :: "PopularPlugin \<Rightarrow> CompletionItem" where
  "pluginCompletionItem plugin =
     (let fullName = Name_pp plugin @ ''#'' @ Version_pp plugin;
          insertText = pluginInsertText (Name_pp plugin) fullName
      in \<lparr>Label = fullName,
          Kind = CompletionItemKindModule,
          Detail = Description_pp plugin,
          Documentation = Some (''**'' @ Name_pp plugin @ '' Plugin**\<newline>\<newline>''
            @ Description_pp plugin
            @ ''\<newline>\<newline>[Plugin Directory](https://buildkite.com/plugins)''),
          InsertText = insertText,
          InsertTextFormat = InsertTextFormatSnippet,
          FilterText = Name_pp plugin,
          SortText = showInt02 (int (length (Name_pp plugin))) @ ''-'' @ Name_pp plugin\<rparr>)"

definition listItemCompletion :: CompletionItem where
  \<open>listItemCompletion =
     \<lparr>Label = ''- (add plugin)'',
      Kind = CompletionItemKindSnippet,
      Detail = ''Add a plugin to the list'',
      Documentation = Some ''Insert a list item for adding a plugin'',
      InsertText = ''- ${1:plugin-name}#${2:version}:\<newline>    ${3:config}: "${4:value}"'',
      InsertTextFormat = InsertTextFormatSnippet,
      FilterText = [],
      SortText = ''00-list-item''\<rparr>\<close>

definition getPluginCompletions :: "PositionContext option \<Rightarrow> ContextInfo option \<Rightarrow> CompletionItem list" where
  "getPluginCompletions posCtx contextInfo =
     (if needsListItemSuggestion posCtx contextInfo then [listItemCompletion] else [])
     @ map pluginCompletionItem GetPopularPlugins"

definition getDefaultCompletions :: "CompletionItem list" where
  "getDefaultCompletions = getTopLevelCompletions @ getStepCompletions"

text \<open>
  \<open>GetCompletions\<close>. The completions of a plugin's configuration come from the plugin
  registry, which fetches schemas over the network; \<open>getPluginConfigCompletions\<close> is a
  parameter.
\<close>

definition GetCompletions ::
  "(ContextInfo \<Rightarrow> CompletionItem list) \<Rightarrow> PositionContext option \<Rightarrow> CompletionItem list" where
  "GetCompletions getPluginConfigCompletions posCtx =
     (case posCtx of
        None \<Rightarrow> []
      | Some p \<Rightarrow>
          (let contextInfo = AnalyzeContext posCtx in
           case Type contextInfo of
             ContextTopLevel \<Rightarrow> getTopLevelCompletions
           | ContextStep \<Rightarrow> getStepCompletions
           | ContextPlugins \<Rightarrow> getPluginCompletions posCtx (Some contextInfo)
           | ContextPluginConfig \<Rightarrow> getPluginConfigCompletions contextInfo
           | ContextUnknown \<Rightarrow> getDefaultCompletions))"

text \<open>
  The form the specification gives the label of a plugin completion:
  \<open><name>#v<major>.<minor>.<patch>\<close>, then nothing or \<open>-\<close> and a suffix.
\<close>

definition isDigit :: "char \<Rightarrow> bool" where
  "isDigit c = (48 \<le> (of_char c :: nat) \<and> (of_char c :: nat) \<le> 57)"

definition versionForm :: "string \<Rightarrow> bool" where
  "versionForm v =
     (case v of
        [] \<Rightarrow> False
      | c # r0 \<Rightarrow>
          c = CHR ''v'' \<and>
          (let major = takeWhile isDigit r0; r1 = dropWhile isDigit r0 in
           major \<noteq> [] \<and> r1 \<noteq> [] \<and> hd r1 = CHR ''.'' \<and>
           (let minor = takeWhile isDigit (tl r1); r2 = dropWhile isDigit (tl r1) in
            minor \<noteq> [] \<and> r2 \<noteq> [] \<and> hd r2 = CHR ''.'' \<and>
            (let patch = takeWhile isDigit (tl r2); r3 = dropWhile isDigit (tl r2) in
             patch \<noteq> [] \<and> (r3 = [] \<or> (hd r3 = CHR ''-'' \<and> tl r3 \<noteq> []))))))"

definition pluginLabelForm :: "string \<Rightarrow> bool" where
  "pluginLabelForm label =
     (let name = takeWhile (\<lambda>c. c \<noteq> CHR ''#'') label;
          rest = dropWhile (\<lambda>c. c \<noteq> CHR ''#'') label
      in name \<noteq> [] \<and> rest \<noteq> [] \<and> versionForm (tl rest))"

section \<open>Semantic tokens\<close>

unbundle bit_operations_syntax

text \<open>
  Slicing and indexing panic in Go when out of range; \<^const>\<open>None\<close> is the panic.
  \<open>slice s lo hi\<close> is \<open>s[lo:hi]\<close> and \<open>byteAt s i\<close> is \<open>s[i]\<close>.
\<close>

definition slice :: "string \<Rightarrow> int \<Rightarrow> int \<Rightarrow> string option" where
  "slice s lo hi =
     (if 0 \<le> lo \<and> lo \<le> hi \<and> hi \<le> int (length s)
      then Some (drop (nat lo) (take (nat hi) s)) else None)"

definition byteAt :: "string \<Rightarrow> int \<Rightarrow> char option" where
  "byteAt s i = (if 0 \<le> i \<and> i < int (length s) then Some (s ! nat i) else None)"

text \<open>The server's own \<open>getIndentLevel\<close>, which counts a tab as four.\<close>

fun getIndentLevel_s :: "string \<Rightarrow> int" where
  "getIndentLevel_s [] = 0"
| "getIndentLevel_s (char # rest) =
     (if char = CHR '' '' then 1 + getIndentLevel_s rest
      else if char = TAB then 4 + getIndentLevel_s rest
      else 0)"

definition tokenTypes :: "string list" where
  "tokenTypes =
     [''keyword'', ''string'', ''property'', ''variable'', ''function'', ''namespace'',
      ''operator'', ''comment'']"

fun typeIndexLoop :: "string list \<Rightarrow> int \<Rightarrow> string \<Rightarrow> int" where
  "typeIndexLoop [] i tokenType = 0"
| "typeIndexLoop (t # ts) i tokenType =
     (if t = tokenType then i else typeIndexLoop ts (i + 1) tokenType)"

definition getTokenTypeIndex :: "string \<Rightarrow> int" where
  "getTokenTypeIndex tokenType = typeIndexLoop tokenTypes 0 tokenType"

definition modifierMap :: "string \<rightharpoonup> int" where
  "modifierMap = map_of
     [(''definition'', push_bit 0 1),
      (''readonly'', push_bit 1 1),
      (''deprecated'', push_bit 2 1)]"

fun bitsLoop :: "string list \<Rightarrow> int \<Rightarrow> int" where
  "bitsLoop [] bits = bits"
| "bitsLoop (modifier # rest) bits =
     (case modifierMap modifier of
        Some modifierBit \<Rightarrow> bitsLoop rest (bits OR modifierBit)
      | None \<Rightarrow> bitsLoop rest bits)"

definition getTokenModifierBits :: "string list \<Rightarrow> int" where
  "getTokenModifierBits modifiers = bitsLoop modifiers 0"

definition createToken :: "32 word \<Rightarrow> 32 word \<Rightarrow> 32 word \<Rightarrow> string \<Rightarrow> string list \<Rightarrow> 32 word list" where
  "createToken line start len tokenType modifiers =
     [line, start, len, word_of_int (getTokenTypeIndex tokenType),
      word_of_int (getTokenModifierBits modifiers)]"

definition stepTypes :: "string \<Rightarrow> bool" where
  "stepTypes key =
     (key \<in> set [''command'', ''commands'', ''wait'', ''block'', ''input'', ''trigger'', ''group''])"

definition getKeyTokenType :: "string \<Rightarrow> bool \<Rightarrow> string" where
  "getKeyTokenType key inStep =
     (if stepTypes key then ''keyword''
      else if key = ''key'' \<or> key = ''label'' then ''namespace''
      else if key = ''env'' then ''variable''
      else if key = ''plugins'' \<or> Contains key ''#'' then ''function''
      else ''property'')"

definition getKeyModifiers :: "string \<Rightarrow> bool \<Rightarrow> string list" where
  "getKeyModifiers key inStep =
     (if stepTypes key \<and> inStep then [''definition''] else [])
     @ (if key = ''key'' \<or> key = ''timeout_in_minutes'' then [''readonly''] else [])"

text \<open>
  \<open>strconv.Atoi\<close> succeeds (\<open>err == nil\<close>) on an optional sign followed by decimal
  digits whose value fits the 64-bit \<open>int\<close>.
\<close>

definition digitsValue :: "string \<Rightarrow> int" where
  "digitsValue ds = foldl (\<lambda>n c. 10 * n + (int (of_char c) - 48)) 0 ds"

definition atoiOk :: "string \<Rightarrow> bool" where
  "atoiOk s =
     (let neg = (s \<noteq> [] \<and> hd s = CHR ''-'');
          ds = (if s \<noteq> [] \<and> (hd s = CHR ''-'' \<or> hd s = CHR ''+'') then tl s else s)
      in ds \<noteq> [] \<and> list_all isDigit ds
         \<and> (if neg then digitsValue ds \<le> 2 ^ 63 else digitsValue ds < 2 ^ 63))"

definition getValueTokenType :: "string \<Rightarrow> string \<Rightarrow> bool \<Rightarrow> string \<times> string list" where
  "getValueTokenType key val inStep =
     (let cleanValue = Trim val [CHR 0x22, CHR 0x27] in
      if Contains cleanValue ''#'' then (''function'', [])
      else if key = ''env'' then (''variable'', [])
      else if key = ''key'' \<or> key = ''label'' then (''namespace'', [])
      else if cleanValue = ''true'' \<or> cleanValue = ''false'' \<or> cleanValue = ''null''
              \<or> cleanValue = ''~''
      then (''keyword'', [''readonly''])
      else if atoiOk cleanValue then (''keyword'', [''readonly''])
      else (''string'', []))"

text \<open>
  The loop of \<open>parseStepContent\<close> that moves \<open>valueStart\<close> over blanks, in \<open>uint32\<close>
  arithmetic as the source has it.
\<close>

function valueStartLoop :: "string \<Rightarrow> int \<Rightarrow> 32 word \<Rightarrow> 32 word \<Rightarrow> 32 word option" where
  "valueStartLoop content colonIndex startChar valueStart =
     (if valueStart < startChar + word_of_nat (length content) then
        (case byteAt content (colonIndex + 1 + uint (valueStart - startChar - word_of_int (colonIndex + 1))) of
           None \<Rightarrow> None
         | Some c \<Rightarrow>
             if c = CHR '' '' then valueStartLoop content colonIndex startChar (valueStart + 1)
             else Some valueStart)
      else Some valueStart)"
  by pat_completeness auto
termination
proof (relation "measure (\<lambda>(content, colonIndex, startChar, valueStart).
    unat (startChar + word_of_nat (length content) - valueStart))")
  show "wf (measure (\<lambda>(content, colonIndex, startChar, valueStart).
    unat (startChar + word_of_nat (length content) - valueStart)))"
    by simp
next
  fix content :: string and colonIndex :: int and startChar valueStart :: "32 word" and x2 :: char
  assume less: "valueStart < startChar + word_of_nat (length content)"
  define b where "b = startChar + word_of_nat (length content)"
  have ne: "b - valueStart \<noteq> 0"
    using less by (auto simp: b_def)
  have eq: "b - (valueStart + 1) = (b - valueStart) - 1"
    by simp
  have "unat ((b - valueStart) - 1) = unat (b - valueStart) - 1"
    by (rule unat_minus_one [OF ne])
  then have "unat (b - (valueStart + 1)) = unat (b - valueStart) - 1"
    by (simp only: eq)
  moreover have "unat (b - valueStart) \<noteq> 0"
    using ne by (simp add: unat_eq_0)
  ultimately have "unat (b - (valueStart + 1)) < unat (b - valueStart)"
    by simp
  then show "((content, colonIndex, startChar, valueStart + 1), content, colonIndex, startChar, valueStart)
    \<in> measure (\<lambda>(content, colonIndex, startChar, valueStart).
        unat (startChar + word_of_nat (length content) - valueStart))"
    by (simp add: b_def)
qed

declare valueStartLoop.simps [simp del]

definition parseStepContent :: "string \<Rightarrow> 32 word \<Rightarrow> 32 word \<Rightarrow> 32 word list option" where
  "parseStepContent content line startChar =
     (let colonIndex = Index content '':'' in
      if colonIndex \<noteq> - 1 then
        (case (slice content 0 colonIndex, slice content (colonIndex + 1) (int (length content))) of
           (Some beforeColon, Some afterColon) \<Rightarrow>
             (let key = TrimSpace beforeColon;
                  val = TrimSpace afterColon;
                  keyTokenType = getKeyTokenType key True;
                  keyModifiers = getKeyModifiers key True;
                  tokens = createToken line startChar (word_of_nat (length key)) keyTokenType keyModifiers
                    @ createToken line (startChar + word_of_nat (length key)) 1 ''operator'' []
              in if val \<noteq> [] then
                   (case valueStartLoop content colonIndex startChar
                           (startChar + word_of_int (colonIndex + 1)) of
                      None \<Rightarrow> None
                    | Some valueStart \<Rightarrow>
                        (case getValueTokenType key val True of
                           (valueTokenType, valueModifiers) \<Rightarrow>
                             if valueTokenType \<noteq> [] then
                               Some (tokens @ createToken line valueStart (word_of_nat (length val))
                                       valueTokenType valueModifiers)
                             else Some tokens))
                 else Some tokens)
         | _ \<Rightarrow> None)
      else Some [])"

text \<open>
  The block of \<open>tokenizeLine\<close> that handles the line starting a step (\<open>- ...\<close> at
  indentation 2 inside \<open>steps\<close>): the tokens it returns.
\<close>

definition stepStartTokens :: "string \<Rightarrow> 32 word \<Rightarrow> 32 word list option" where
  "stepStartTokens line lineNumber =
     (let dashPos = Index line ''- '';
          tokens = createToken lineNumber (word_of_int dashPos) 1 ''operator'' []
      in case slice line (dashPos + 2) (int (length line)) of
           None \<Rightarrow> None
         | Some afterDash \<Rightarrow>
             (let stepContent = TrimSpace afterDash in
              if stepContent \<noteq> [] then
                (case parseStepContent stepContent lineNumber (word_of_int (dashPos + 2)) of
                   None \<Rightarrow> None
                 | Some stepTokens \<Rightarrow> Some (tokens @ stepTokens))
              else Some tokens))"

text \<open>
  The last block of \<open>tokenizeLine\<close>, \<open>if colonIndex := strings.Index(line, ":"); colonIndex != -1\<close>:
  the tokens of a \<open>key: value\<close> line.
\<close>

definition keyValueTokens :: "string \<Rightarrow> 32 word \<Rightarrow> bool \<Rightarrow> 32 word list option" where
  "keyValueTokens line lineNumber inStep =
     (let colonIndex = Index line '':'' in
      if colonIndex \<noteq> - 1 then
        (let keyStart = int (length (takeWhile (\<lambda>c. c = CHR '' '' \<or> c = TAB) line)) in
         case (slice line keyStart colonIndex, slice line (colonIndex + 1) (int (length line))) of
           (Some keyText, Some valueText) \<Rightarrow>
             (let key = TrimSpace keyText;
                  val = TrimSpace valueText;
                  keyTokenType = getKeyTokenType key inStep;
                  keyModifiers = getKeyModifiers key inStep;
                  tokens = createToken lineNumber (word_of_int keyStart)
                      (word_of_nat (length key)) keyTokenType keyModifiers
                    @ createToken lineNumber (word_of_int colonIndex) 1 ''operator'' []
              in if val \<noteq> [] then
                   (let valueStart = colonIndex + 1
                          + int (length (takeWhile (\<lambda>c. c = CHR '' '')
                                   (drop (nat (colonIndex + 1)) line)))
                    in case getValueTokenType key val inStep of
                         (valueTokenType, valueModifiers) \<Rightarrow>
                           if valueTokenType \<noteq> [] then
                             Some (tokens @ createToken lineNumber (word_of_int valueStart)
                                     (word_of_nat (length val)) valueTokenType valueModifiers)
                           else Some tokens)
                 else Some tokens)
         | _ \<Rightarrow> None)
      else Some [])"

text \<open>
  \<open>tokenizeLine\<close>. The three pointer parameters \<open>inSteps\<close>, \<open>inStep\<close> and \<open>stepIndent\<close>
  are passed in and returned with the tokens.
\<close>

definition tokenizeLine ::
  "string \<Rightarrow> 32 word \<Rightarrow> bool \<Rightarrow> bool \<Rightarrow> int \<Rightarrow> (32 word list \<times> bool \<times> bool \<times> int) option" where
  "tokenizeLine line lineNumber inSteps inStep stepIndent =
     (let trimmed = TrimSpace line in
      if trimmed = [] \<or> HasPrefix trimmed ''#'' then
        (if HasPrefix trimmed ''#''
         then (let commentStart = Index line ''#'' in
               Some (createToken lineNumber (word_of_int commentStart)
                       (word_of_nat (length trimmed)) ''comment'' [],
                     inSteps, inStep, stepIndent))
         else Some ([], inSteps, inStep, stepIndent))
      else
        (let indent = getIndentLevel_s line in
         if trimmed = ''steps:'' then
           Some (createToken lineNumber 0 (word_of_nat (length ''steps'')) ''keyword'' []
                   @ createToken lineNumber (word_of_nat (length ''steps'')) 1 ''operator'' [],
                 True, False, stepIndent)
         else
           (let leaving = (inSteps \<and> indent = 0 \<and> \<not> HasPrefix trimmed ''- '');
                inSteps = (if leaving then False else inSteps);
                inStep = (if leaving then False else inStep)
            in if inSteps \<and> HasPrefix (TrimLeft line [CHR '' '', TAB]) ''- '' \<and> indent = 2 then
                 (case stepStartTokens line lineNumber of
                    None \<Rightarrow> None
                  | Some tokens \<Rightarrow> Some (tokens, inSteps, True, indent))
               else
                 (let inStep = (if inStep \<and> indent \<le> stepIndent \<and> \<not> HasPrefix trimmed ''- ''
                                then False else inStep)
                  in case keyValueTokens line lineNumber inStep of
                       None \<Rightarrow> None
                     | Some tokens \<Rightarrow> Some (tokens, inSteps, inStep, stepIndent)))))"

text \<open>
  The inner loop of \<open>generateSemanticTokensForRange\<close>, which reads the line's tokens five
  at a time; reading beyond the end of \<open>lineTokens\<close> is a panic.
\<close>

fun deltaLoop ::
  "32 word list \<Rightarrow> 32 word \<Rightarrow> 32 word \<Rightarrow> 32 word list \<Rightarrow> (32 word list \<times> 32 word \<times> 32 word) option" where
  "deltaLoop [] prevLine prevStart data = Some (data, prevLine, prevStart)"
| "deltaLoop (currentLine # currentStart # len # tokenType # tokenModifiers # rest)
     prevLine prevStart data =
     (let deltaLine = currentLine - prevLine;
          deltaStart = (if deltaLine = 0 then currentStart - prevStart else currentStart)
      in deltaLoop rest currentLine currentStart
           (data @ [deltaLine, deltaStart, len, tokenType, tokenModifiers]))"
| "deltaLoop _ prevLine prevStart data = None"

text \<open>The outer loop, over the lines from index \<open>lineIndex\<close> on.\<close>

fun linesLoop ::
  "string list \<Rightarrow> nat \<Rightarrow> int \<Rightarrow> bool \<Rightarrow> bool \<Rightarrow> int \<Rightarrow> 32 word \<Rightarrow> 32 word \<Rightarrow> 32 word list
     \<Rightarrow> 32 word list option" where
  "linesLoop [] lineIndex startLineOffset inSteps inStep stepIndent prevLine prevStart data = Some data"
| "linesLoop (line # rest) lineIndex startLineOffset inSteps inStep stepIndent prevLine prevStart data =
     (let actualLineNumber = word_of_int (int lineIndex + startLineOffset) in
      case tokenizeLine line actualLineNumber inSteps inStep stepIndent of
        None \<Rightarrow> None
      | Some (lineTokens, inSteps, inStep, stepIndent) \<Rightarrow>
          (case deltaLoop lineTokens prevLine prevStart data of
             None \<Rightarrow> None
           | Some (data, prevLine, prevStart) \<Rightarrow>
               linesLoop rest (lineIndex + 1) startLineOffset inSteps inStep stepIndent
                 prevLine prevStart data))"

definition generateSemanticTokensForRange :: "string list \<Rightarrow> int \<Rightarrow> 32 word list option" where
  "generateSemanticTokensForRange lines startLineOffset =
     linesLoop lines 0 startLineOffset False False (- 1) 0 0 []"

definition generateSemanticTokens :: "string list \<Rightarrow> 32 word list option" where
  "generateSemanticTokens lines = generateSemanticTokensForRange lines 0"

text \<open>
  A token stream is well formed when it is made of groups of five in which the fourth
  value, the index of the token type, is below 8 and the fifth, the modifier bits, is
  below 8.
\<close>

fun tokensOk :: "32 word list \<Rightarrow> bool" where
  "tokensOk [] = True"
| "tokensOk (a # b # c # tokenType # tokenModifiers # rest) =
     (tokenType < 8 \<and> tokenModifiers < 8 \<and> tokensOk rest)"
| "tokensOk _ = False"

section \<open>Properties of splitLines\<close>

lemma runeWidth_le: "runeWidth s \<le> length s"
proof (cases s)
  case Nil
  then show ?thesis by simp
next
  case (Cons b0 r)
  show ?thesis
    unfolding Cons
    by (auto simp: Let_def split: list.splits)
qed

lemma runeWidth_one: "runeWidth (b # r) = 1 \<longleftrightarrow> (of_char b :: nat) < 0x80"
  by (auto simp: Let_def split: list.splits)

lemma runeWidth_ascii: "(of_char b :: nat) < 0x80 \<Longrightarrow> runeWidth (b # r) = 1"
  by simp

lemma inRange_high: "inRange (acceptRange x) c \<Longrightarrow> (0x80 :: nat) \<le> of_char c"
  by (simp add: inRange_def acceptRange_def split: if_splits)

lemma continuation_high: "continuation c \<Longrightarrow> (0x80 :: nat) \<le> of_char c"
  by (simp add: continuation_def inRange_def)

lemma runeWidth_values: "runeWidth s \<in> {0, 1, 2, 3, 4}"
  by (cases s) (simp_all add: Let_def split: list.splits)

lemma runeWidth_two:
  "runeWidth (b0 # t) = 2 \<Longrightarrow>
     \<exists>b1 u. t = b1 # u \<and> (0x80 :: nat) \<le> of_char b0 \<and> inRange (acceptRange (of_char b0)) b1"
  by (simp add: Let_def split: if_splits list.splits)

lemma runeWidth_three:
  "runeWidth (b0 # t) = 3 \<Longrightarrow>
     \<exists>b1 b2 u. t = b1 # b2 # u \<and> (0x80 :: nat) \<le> of_char b0
       \<and> inRange (acceptRange (of_char b0)) b1 \<and> continuation b2"
  by (simp add: Let_def split: if_splits list.splits)

lemma runeWidth_four:
  "runeWidth (b0 # t) = 4 \<Longrightarrow>
     \<exists>b1 b2 b3 u. t = b1 # b2 # b3 # u \<and> (0x80 :: nat) \<le> of_char b0
       \<and> inRange (acceptRange (of_char b0)) b1 \<and> continuation b2 \<and> continuation b3"
  by (simp add: Let_def split: if_splits list.splits)

lemma runeWidth_high_all:
  "2 \<le> runeWidth s \<Longrightarrow> list_all (\<lambda>c. (0x80 :: nat) \<le> of_char c) (take (runeWidth s) s)"
proof -
  assume w: "2 \<le> runeWidth s"
  then obtain b0 t where s: "s = b0 # t" by (cases s) auto
  from w runeWidth_values [of s]
  consider "runeWidth s = 2" | "runeWidth s = 3" | "runeWidth s = 4" by auto
  then show ?thesis
  proof cases
    case 1
    from runeWidth_two [OF 1 [unfolded s]] obtain b1 u where
      "t = b1 # u" "(0x80 :: nat) \<le> of_char b0" "inRange (acceptRange (of_char b0)) b1"
      by blast
    then show ?thesis
      unfolding 1 unfolding s by (simp add: inRange_high)
  next
    case 2
    from runeWidth_three [OF 2 [unfolded s]] obtain b1 b2 u where
      "t = b1 # b2 # u" "(0x80 :: nat) \<le> of_char b0" "inRange (acceptRange (of_char b0)) b1"
      "continuation b2"
      by blast
    then show ?thesis
      unfolding 2 unfolding s by (simp add: inRange_high continuation_high)
  next
    case 3
    from runeWidth_four [OF 3 [unfolded s]] obtain b1 b2 b3 u where
      "t = b1 # b2 # b3 # u" "(0x80 :: nat) \<le> of_char b0" "inRange (acceptRange (of_char b0)) b1"
      "continuation b2" "continuation b3"
      by blast
    then show ?thesis
      unfolding 3 unfolding s by (simp add: inRange_high continuation_high)
  qed
qed

lemma runeWidth_high:
  assumes "2 \<le> runeWidth s" and "c \<in> set (take (runeWidth s) s)"
  shows "(0x80 :: nat) \<le> of_char c"
  using runeWidth_high_all [OF assms(1)] assms(2) by (simp add: list_all_iff)

lemma not_inRange_LF: "0x80 \<le> fst accept \<Longrightarrow> \<not> inRange accept LF"
  by (simp add: inRange_def LF_def)

lemma acceptRange_high: "0x80 \<le> fst (acceptRange x)"
  by (simp add: acceptRange_def)

lemma runeWidth_before_LF:
  assumes "LF \<notin> set s" and "s \<noteq> []"
  shows "runeWidth (s @ LF # r) = runeWidth s"
proof -
  have nl: "\<not> inRange (acceptRange x) LF" for x
    by (rule not_inRange_LF) (rule acceptRange_high)
  have nc: "\<not> continuation LF"
    by (simp add: continuation_def not_inRange_LF)
  from assms(2) obtain b0 t where s: "s = b0 # t" by (cases s) auto
  consider "t = []" | b1 where "t = [b1]" | b1 b2 where "t = [b1, b2]"
    | b1 b2 b3 u where "t = b1 # b2 # b3 # u"
    by (metis list.exhaust)
  then show ?thesis
  proof cases
    case 1 then show ?thesis unfolding s by (simp add: Let_def nl nc split: list.splits)
  next
    case 2 then show ?thesis unfolding s by (simp add: Let_def nl nc split: list.splits)
  next
    case 3 then show ?thesis unfolding s by (simp add: Let_def nl nc split: list.splits)
  next
    case 4 then show ?thesis unfolding s by (simp add: Let_def nl nc split: list.splits)
  qed
qed

lemma runeWidth_Nil: "runeWidth [] = 0"
  by simp

declare runeWidth.simps [simp del]

lemma runeWidth_before:
  assumes "LF \<notin> set s" and "s \<noteq> []" and "t = [] \<or> (\<exists>r. t = LF # r)"
  shows "runeWidth (s @ t) = runeWidth s"
  using assms runeWidth_before_LF [of s] by auto

lemma runeBytes_before:
  assumes "LF \<notin> set s" and "s \<noteq> []" and "t = [] \<or> (\<exists>r. t = LF # r)"
  shows "runeBytes (s @ t) = runeBytes s"
  using runeWidth_before [OF assms] runeWidth_le [of s] by (simp add: runeBytes_def)

lemma runeBytes_ascii: "(of_char b :: nat) < 0x80 \<Longrightarrow> runeBytes (b # r) = [b]"
  by (simp add: runeBytes_def runeWidth_ascii)

lemma runeBytes_single: "runeBytes (b # r) = [c] \<Longrightarrow> c = b \<and> (of_char b :: nat) < 0x80"
proof -
  assume a: "runeBytes (b # r) = [c]"
  have w: "runeWidth (b # r) \<noteq> 0"
    using a by (auto simp: runeBytes_def RuneError_def split: if_splits)
  with a have t: "take (runeWidth (b # r)) (b # r) = [c]"
    by (simp add: runeBytes_def)
  then have "length (take (runeWidth (b # r)) (b # r)) = 1"
    by (simp only: list.size)
  then have one: "runeWidth (b # r) = 1"
    using runeWidth_le [of "b # r"] by (simp add: min_def split: if_splits)
  then have "(of_char b :: nat) < 0x80"
    by (simp only: runeWidth_one)
  with t one show ?thesis by simp
qed

lemma runeBytes_clean:
  assumes "runeBytes (b # r) \<noteq> [LF]" and "runeBytes (b # r) \<noteq> [CR]"
  shows "LF \<notin> set (runeBytes (b # r)) \<and> CR \<notin> set (runeBytes (b # r))"
proof -
  from runeWidth_values [of "b # r"]
  consider "runeWidth (b # r) = 0" | "runeWidth (b # r) = 1" | "2 \<le> runeWidth (b # r)"
    by auto
  then show ?thesis
  proof cases
    case 1
    then show ?thesis by (simp add: runeBytes_def RuneError_def LF_def CR_def)
  next
    case 2
    then have "runeBytes (b # r) = [b]" by (simp add: runeBytes_def)
    with assms show ?thesis by simp
  next
    case 3
    have "(0x80 :: nat) \<le> of_char c" if "c \<in> set (runeBytes (b # r))" for c
      using that 3 runeWidth_high [OF 3, of c] by (simp add: runeBytes_def)
    from this [of LF] this [of CR] show ?thesis by (auto simp: LF_def CR_def)
  qed
qed

lemma runeBytes_nonempty: "runeBytes (b # r) \<noteq> []"
  by (simp add: runeBytes_def RuneError_def)

text \<open>What one rune adds to the current line: nothing for a carriage return.\<close>

lemma filter_runeBytes:
  assumes "b \<noteq> LF"
  shows "filter (\<lambda>c. c \<noteq> CR) (runeBytes (b # r))
    = (if runeBytes (b # r) = [CR] then [] else runeBytes (b # r))"
proof (cases "runeBytes (b # r) = [CR]")
  case True
  then show ?thesis by simp
next
  case False
  have "runeBytes (b # r) \<noteq> [LF]"
    using assms runeBytes_single [of b r LF] by auto
  from runeBytes_clean [OF this False] have "CR \<notin> set (runeBytes (b # r))" by simp
  then have "filter (\<lambda>c. c \<noteq> CR) (runeBytes (b # r)) = runeBytes (b # r)"
    by (auto simp: filter_id_conv)
  with False show ?thesis by simp
qed

lemma runeWidth_LF: "runeWidth (LF # r) = 1"
  by (simp add: runeWidth_ascii LF_def)

lemma runeWidth_CR: "runeWidth (CR # r) = 1"
  by (simp add: runeWidth_ascii CR_def)

lemma splitLoop_LF:
  "splitLoop (LF # r) lines current = splitLoop r (lines @ [current]) []"
  by (simp add: runeBytes_def runeWidth_LF)

lemma splitLoop_segment:
  "LF \<notin> set l \<Longrightarrow> t = [] \<or> (\<exists>r. t = LF # r) \<Longrightarrow>
     splitLoop (l @ t) lines current
       = splitLoop t lines (current @ filter (\<lambda>c. c \<noteq> CR) (reencode l))"
proof (induction l arbitrary: current rule: reencode.induct)
  case 1
  show ?case by simp
next
  case (2 b rest)
  define w where "w = runeWidth (b # rest)"
  define rest' where "rest' = drop (w - 1) rest"
  have b: "b \<noteq> LF" and nl: "LF \<notin> set rest'"
    using "2.prems"(1) by (auto simp: rest'_def dest: in_set_dropD)
  have width: "runeWidth (b # rest @ t) = w"
    using runeWidth_before [of "b # rest" t] "2.prems" by (simp add: w_def)
  have bytes: "runeBytes (b # rest @ t) = runeBytes (b # rest)"
    using runeBytes_before [of "b # rest" t] "2.prems" by simp
  have "w - 1 \<le> length rest"
    using runeWidth_le [of "b # rest"] by (simp add: w_def)
  then have dr: "drop (w - 1) (rest @ t) = rest' @ t"
    by (simp add: rest'_def)
  have notLF: "runeBytes (b # rest) \<noteq> [LF]"
    using b runeBytes_single [of b rest LF] by auto
  have step: "splitLoop ((b # rest) @ t) lines current
      = splitLoop (rest' @ t) lines
          (current @ filter (\<lambda>c. c \<noteq> CR) (runeBytes (b # rest)))"
    using notLF
    by (simp only: append_Cons splitLoop.simps Let_def width bytes dr)
       (simp add: filter_runeBytes [OF b])
  have "splitLoop (rest' @ t) lines (current @ filter (\<lambda>c. c \<noteq> CR) (runeBytes (b # rest)))
      = splitLoop t lines ((current @ filter (\<lambda>c. c \<noteq> CR) (runeBytes (b # rest)))
          @ filter (\<lambda>c. c \<noteq> CR) (reencode rest'))"
    unfolding rest'_def w_def
    by (rule "2.IH") (use nl "2.prems"(2) in \<open>simp_all add: rest'_def w_def\<close>)
  with step show ?case
    by (simp add: rest'_def w_def)
qed

lemma splitLoop_prefix:
  "fst (splitLoop s (pre @ lines) current) = pre @ fst (splitLoop s lines current)
   \<and> snd (splitLoop s (pre @ lines) current) = snd (splitLoop s lines current)"
  by (induction s lines current rule: splitLoop.induct) (simp_all add: Let_def)

lemma splitLoop_lines:
  "splitLoop s lines current = (lines @ fst (splitLoop s [] current), snd (splitLoop s [] current))"
  using splitLoop_prefix [of s lines "[]" current] by (simp add: prod_eq_iff)

lemma reencode_only_CR:
  "filter (\<lambda>c. c \<noteq> CR) (reencode s) = [] \<longleftrightarrow> filter (\<lambda>c. c \<noteq> CR) s = []"
proof (induction s rule: reencode.induct)
  case 1
  show ?case by simp
next
  case (2 b rest)
  show ?case
  proof (cases "b = CR")
    case True
    then have "runeWidth (b # rest) = 1" and "runeBytes (b # rest) = [CR]"
      by (simp_all add: runeBytes_def runeWidth_CR)
    with "2.IH" True show ?thesis by simp
  next
    case False
    have "filter (\<lambda>c. c \<noteq> CR) (runeBytes (b # rest)) \<noteq> []"
    proof (cases "b = LF")
      case True
      then have "runeBytes (b # rest) = [LF]" by (simp add: runeBytes_def runeWidth_LF)
      then show ?thesis by (simp add: LF_def CR_def)
    next
      case notLF: False
      have "runeBytes (b # rest) \<noteq> [CR]"
        using False runeBytes_single [of b rest CR] by auto
      then show ?thesis
        using filter_runeBytes [OF notLF, of rest] runeBytes_nonempty [of b rest] by simp
    qed
    with False show ?thesis by simp
  qed
qed

lemma validUTF8_reencode: "validUTF8 s \<Longrightarrow> reencode s = s"
proof (induction s rule: reencode.induct)
  case 1
  show ?case by simp
next
  case (2 b rest)
  define w where "w = runeWidth (b # rest)"
  from "2.prems" have w: "w \<noteq> 0" and v: "validUTF8 (drop (w - 1) rest)"
    by (simp_all add: w_def)
  from w obtain n where n: "w = Suc n" by (cases w) auto
  have "runeBytes (b # rest) = b # take n rest"
    using w n by (simp add: runeBytes_def w_def [symmetric])
  moreover have "reencode (drop (w - 1) rest) = drop n rest"
    using "2.IH" v n by (simp add: w_def)
  ultimately show ?case
    using n by (simp add: w_def [symmetric])
qed

lemma ascii_validUTF8: "\<forall>c \<in> set s. (of_char c :: nat) < 0x80 \<Longrightarrow> validUTF8 s"
  by (induction s) (simp_all add: runeWidth_ascii)

lemma splitLoop_empty_result:
  assumes a: "splitLoop s [] [] = ([], [])"
  shows "filter (\<lambda>c. c \<noteq> CR) s = []"
proof (cases "LF \<in> set s")
  case False
  have "splitLoop (s @ []) [] [] = splitLoop [] [] ([] @ filter (\<lambda>c. c \<noteq> CR) (reencode s))"
    using False by (intro splitLoop_segment) simp_all
  with a have "filter (\<lambda>c. c \<noteq> CR) (reencode s) = []" by simp
  then show ?thesis by (simp only: reencode_only_CR)
next
  case True
  then obtain l r where s: "s = l @ LF # r" and l: "LF \<notin> set l"
    by (meson split_list_first)
  have "splitLoop s [] [] = splitLoop (LF # r) [] ([] @ filter (\<lambda>c. c \<noteq> CR) (reencode l))"
    unfolding s using l by (intro splitLoop_segment) simp_all
  also have "\<dots> = splitLoop r [filter (\<lambda>c. c \<noteq> CR) (reencode l)] []"
    by (simp only: splitLoop_LF append_Nil)
  also have "\<dots> = ([filter (\<lambda>c. c \<noteq> CR) (reencode l)] @ fst (splitLoop r [] []),
      snd (splitLoop r [] []))"
    by (rule splitLoop_lines)
  finally show ?thesis using a by simp
qed

lemma splitLoop_clean:
  "list_all (\<lambda>x. LF \<notin> set x \<and> CR \<notin> set x) lines \<Longrightarrow> LF \<notin> set current \<and> CR \<notin> set current \<Longrightarrow>
   list_all (\<lambda>x. LF \<notin> set x \<and> CR \<notin> set x) (fst (splitLoop s lines current))
       \<and> LF \<notin> set (snd (splitLoop s lines current)) \<and> CR \<notin> set (snd (splitLoop s lines current))"
proof (induction s lines current rule: splitLoop.induct)
  case (1 lines current)
  then show ?case by simp
next
  case (2 b rest lines current)
  define char where "char = runeBytes (b # rest)"
  define nxt where "nxt = drop (runeWidth (b # rest) - 1) rest"
  show ?case
  proof (cases "char = [LF]")
    case True
    have "list_all (\<lambda>x. LF \<notin> set x \<and> CR \<notin> set x) (lines @ [current])"
      using "2.prems" by simp
    from "2.IH"(1) [OF char_def nxt_def True this] True
    show ?thesis by (simp add: Let_def char_def nxt_def)
  next
    case notLF: False
    show ?thesis
    proof (cases "char = [CR]")
      case True
      from "2.IH"(3) [OF char_def nxt_def notLF _ "2.prems"] True notLF
      show ?thesis by (simp add: Let_def char_def nxt_def)
    next
      case False
      have "LF \<notin> set char \<and> CR \<notin> set char"
        using runeBytes_clean [of b rest] notLF False by (simp add: char_def)
      with "2.prems"(2) have "LF \<notin> set (current @ char) \<and> CR \<notin> set (current @ char)"
        by simp
      from "2.IH"(2) [OF char_def nxt_def notLF False "2.prems"(1) this] False notLF
      show ?thesis by (simp add: Let_def char_def nxt_def)
    qed
  qed
qed

lemma splitLines_single:
  assumes "LF \<notin> set s" and "s \<noteq> []"
  shows "splitLines s = [filter (\<lambda>c. c \<noteq> CR) (reencode s)]"
proof -
  have "splitLoop (s @ []) [] [] = splitLoop [] [] ([] @ filter (\<lambda>c. c \<noteq> CR) (reencode s))"
    using assms(1) by (intro splitLoop_segment) simp_all
  then show ?thesis using assms(2) by (simp add: splitLines_def)
qed

lemma splitLoop_line:
  assumes "LF \<notin> set l"
  shows "splitLoop (l @ LF # rest) [] [] =
    (filter (\<lambda>c. c \<noteq> CR) (reencode l) # fst (splitLoop rest [] []), snd (splitLoop rest [] []))"
proof -
  have "splitLoop (l @ LF # rest) [] []
      = splitLoop (LF # rest) [] ([] @ filter (\<lambda>c. c \<noteq> CR) (reencode l))"
    using assms by (intro splitLoop_segment) simp_all
  also have "\<dots> = splitLoop rest [filter (\<lambda>c. c \<noteq> CR) (reencode l)] []"
    by (simp only: splitLoop_LF append_Nil)
  also have "\<dots> = ([filter (\<lambda>c. c \<noteq> CR) (reencode l)] @ fst (splitLoop rest [] []),
      snd (splitLoop rest [] []))"
    by (rule splitLoop_lines)
  finally show ?thesis by simp
qed

lemma splitLines_line:
  assumes "LF \<notin> set l" and "filter (\<lambda>c. c \<noteq> CR) rest \<noteq> []"
  shows "splitLines (l @ LF # rest) = filter (\<lambda>c. c \<noteq> CR) (reencode l) # splitLines rest"
proof -
  obtain L c where Lc: "splitLoop rest [] [] = (L, c)"
    by (cases "splitLoop rest [] []")
  have ne: "\<not> (L = [] \<and> c = [])"
    using splitLoop_empty_result [of rest] Lc assms(2) by auto
  have rest: "rest \<noteq> []"
    using assms(2) by auto
  show ?thesis
    using splitLoop_line [OF assms(1), of rest] Lc ne rest
    by (auto simp: splitLines_def)
qed

lemma splitLines_last_line:
  assumes "LF \<notin> set l" and "filter (\<lambda>c. c \<noteq> CR) rest = []"
  shows "splitLines (l @ LF # rest) = [filter (\<lambda>c. c \<noteq> CR) (reencode l)]"
proof -
  have noLF: "LF \<notin> set rest"
  proof
    assume "LF \<in> set rest"
    then have "LF \<in> set (filter (\<lambda>c. c \<noteq> CR) rest)"
      by (simp add: LF_def CR_def)
    with assms(2) show False by simp
  qed
  have "splitLoop (rest @ []) [] [] = splitLoop [] [] ([] @ filter (\<lambda>c. c \<noteq> CR) (reencode rest))"
    using noLF by (intro splitLoop_segment) simp_all
  moreover have "filter (\<lambda>c. c \<noteq> CR) (reencode rest) = []"
    using assms(2) by (simp only: reencode_only_CR)
  ultimately have "splitLoop rest [] [] = ([], [])"
    by simp
  then show ?thesis
    using splitLoop_line [OF assms(1), of rest] by (simp add: splitLines_def)
qed

lemma splitLines_clean:
  "x \<in> set (splitLines s) \<Longrightarrow> LF \<notin> set x \<and> CR \<notin> set x"
proof -
  assume x: "x \<in> set (splitLines s)"
  obtain L c where Lc: "splitLoop s [] [] = (L, c)"
    by (cases "splitLoop s [] []")
  have "list_all (\<lambda>x. LF \<notin> set x \<and> CR \<notin> set x) (fst (splitLoop s [] []))
       \<and> LF \<notin> set (snd (splitLoop s [] [])) \<and> CR \<notin> set (snd (splitLoop s [] []))"
    by (rule splitLoop_clean) simp_all
  with Lc have "list_all (\<lambda>x. LF \<notin> set x \<and> CR \<notin> set x) (splitLines s)"
    by (simp add: splitLines_def)
  with x show ?thesis
    by (simp add: list_all_iff)
qed

text \<open>
  C1. The listed inputs give the listed line sequences, and for every input, a sequence of
  bytes: the empty string has no lines; no line holds a line feed or a carriage return; a
  non-empty text without line feed is one line, its carriage returns dropped; a line feed
  ends the line before it, and the lines of the rest follow; and when nothing but carriage
  returns follows that line feed, the line before it is the last element (a trailing
  newline adds no empty element). The bytes of a line are those of the text as the loop
  reads it, \<open>reencode\<close>: the text itself when it is well-formed UTF-8, as all ASCII text
  is, and the text with \<open>U+FFFD\<close> for each invalid byte otherwise.
\<close>

theorem splitLines_law:
  "splitLines [] = []
   \<and> splitLines [CHR ''a'', LF] = [''a'']
   \<and> splitLines [LF] = [[]]
   \<and> splitLines [CHR ''a'', CR, LF, CHR ''b''] = [''a'', ''b'']
   \<and> splitLines [CHR ''a'', LF, LF, CHR ''b''] = [''a'', [], ''b'']
   \<and> splitLines [CHR ''a'', CHR 0xFF, LF, CHR ''b''] = [CHR ''a'' # RuneError, ''b'']
   \<and> (\<forall>x \<in> set (splitLines s). LF \<notin> set x \<and> CR \<notin> set x)
   \<and> (LF \<notin> set s \<and> s \<noteq> [] \<longrightarrow> splitLines s = [filter (\<lambda>c. c \<noteq> CR) (reencode s)])
   \<and> (LF \<notin> set l \<and> filter (\<lambda>c. c \<noteq> CR) rest \<noteq> [] \<longrightarrow>
        splitLines (l @ LF # rest) = filter (\<lambda>c. c \<noteq> CR) (reencode l) # splitLines rest)
   \<and> (LF \<notin> set l \<and> filter (\<lambda>c. c \<noteq> CR) rest = [] \<longrightarrow>
        splitLines (l @ LF # rest) = [filter (\<lambda>c. c \<noteq> CR) (reencode l)])
   \<and> (validUTF8 s \<longrightarrow> reencode s = s)
   \<and> ((\<forall>c \<in> set s. (of_char c :: nat) < 0x80) \<longrightarrow> validUTF8 s)"
proof -
  have e1: "splitLines [] = []"
    by (simp add: splitLines_def)
  have e2: "splitLines [CHR ''a'', LF] = [''a'']"
    by code_simp
  have e3: "splitLines [LF] = [[]]"
    by code_simp
  have e4: "splitLines [CHR ''a'', CR, LF, CHR ''b''] = [''a'', ''b'']"
    by code_simp
  have e5: "splitLines [CHR ''a'', LF, LF, CHR ''b''] = [''a'', [], ''b'']"
    by code_simp
  have e6: "splitLines [CHR ''a'', CHR 0xFF, LF, CHR ''b''] = [CHR ''a'' # RuneError, ''b'']"
    by code_simp
  show ?thesis
    using e1 e2 e3 e4 e5 e6 splitLines_clean [of _ s] splitLines_single [of s]
      splitLines_line [of l rest] splitLines_last_line [of l rest]
      validUTF8_reencode [of s] ascii_validUTF8 [of s]
    by blast
qed

theorem splitLines_law_witness:
  "LF \<notin> set [CHR ''a'', CHR 0xFF, CR] \<and> [CHR ''a'', CHR 0xFF, CR] \<noteq> []
   \<and> splitLines [CHR ''a'', CHR 0xFF, CR] = [[CHR ''a'', CHR 0xEF, CHR 0xBF, CHR 0xBD]]
   \<and> filter (\<lambda>c. c \<noteq> CR) ''b'' \<noteq> []
   \<and> splitLines ([CHR ''a'', CHR 0xFF, CR] @ LF # ''b'')
       = [CHR ''a'', CHR 0xEF, CHR 0xBF, CHR 0xBD] # splitLines ''b''
   \<and> filter (\<lambda>c. c \<noteq> CR) [CR] = []
   \<and> splitLines ([CHR ''a'', CHR 0xFF, CR] @ LF # [CR]) = [[CHR ''a'', CHR 0xEF, CHR 0xBF, CHR 0xBD]]
   \<and> [CHR ''a'', CHR 0xEF, CHR 0xBF, CHR 0xBD] \<in> set (splitLines [CHR ''a'', CHR 0xFF, CR])
   \<and> LF \<notin> set [CHR ''a'', CHR 0xEF, CHR 0xBF, CHR 0xBD]
   \<and> CR \<notin> set [CHR ''a'', CHR 0xEF, CHR 0xBF, CHR 0xBD]
   \<and> validUTF8 [CHR ''a'', CHR 0xC3, CHR 0xA9, CR]
   \<and> reencode [CHR ''a'', CHR 0xC3, CHR 0xA9, CR] = [CHR ''a'', CHR 0xC3, CHR 0xA9, CR]
   \<and> splitLines [CHR ''a'', CHR 0xC3, CHR 0xA9, CR] = [[CHR ''a'', CHR 0xC3, CHR 0xA9]]
   \<and> list_all (\<lambda>c. (of_char c :: nat) < 0x80) ''ab'' \<and> validUTF8 ''ab''"
  using splitLines_law [where s = "[CHR ''a'', CHR 0xFF, CR]" and l = "[CHR ''a'', CHR 0xFF, CR]"
      and rest = "''b''"]
    splitLines_law [where s = "[CHR ''a'', CHR 0xC3, CHR 0xA9, CR]"
      and l = "[CHR ''a'', CHR 0xFF, CR]" and rest = "[CR]"]
    splitLines_law [where s = "''ab''" and l = "[]" and rest = "[]"]
  by (simp add: splitLines_def runeBytes_def RuneError_def runeWidth.simps acceptRange_def
      inRange_def continuation_def Let_def LF_def CR_def)

section \<open>Properties of the string functions\<close>

lemma HasPrefix_iff: "HasPrefix s pre \<longleftrightarrow> (\<exists>b. s = pre @ b)"
proof
  assume "HasPrefix s pre"
  then have "s = pre @ drop (length pre) s"
    by (metis HasPrefix_def append_take_drop_id)
  then show "\<exists>b. s = pre @ b" ..
next
  assume "\<exists>b. s = pre @ b"
  then show "HasPrefix s pre" by (auto simp: HasPrefix_def)
qed

lemma HasSuffix_iff: "HasSuffix s suf \<longleftrightarrow> (\<exists>a. s = a @ suf)"
proof
  assume h: "HasSuffix s suf"
  then have "s = take (length s - length suf) s @ suf"
    by (metis HasSuffix_def append_take_drop_id)
  then show "\<exists>a. s = a @ suf" ..
next
  assume "\<exists>a. s = a @ suf"
  then show "HasSuffix s suf" by (auto simp: HasSuffix_def)
qed

lemma Index_ge: "- 1 \<le> Index s sub"
  by (induction s) (auto simp: Let_def)

lemma Index_absent: "Index s sub = - 1 \<longleftrightarrow> \<not> (\<exists>a b. s = a @ sub @ b)"
proof (induction s)
  case Nil
  show ?case by auto
next
  case (Cons c cs)
  show ?case
  proof (cases "HasPrefix (c # cs) sub")
    case True
    then obtain b where "c # cs = [] @ sub @ b" by (auto simp: HasPrefix_iff)
    then have "\<exists>a b. c # cs = a @ sub @ b" by blast
    with True show ?thesis by simp
  next
    case False
    have ge: "- 1 \<le> Index cs sub" by (rule Index_ge)
    have "(\<exists>a b. c # cs = a @ sub @ b) \<longleftrightarrow> (\<exists>a b. cs = a @ sub @ b)"
    proof
      assume "\<exists>a b. c # cs = a @ sub @ b"
      then obtain a b where ab: "c # cs = a @ sub @ b" by blast
      have "a \<noteq> []"
      proof
        assume "a = []"
        with ab have "HasPrefix (c # cs) sub" by (auto simp: HasPrefix_iff)
        with False show False ..
      qed
      then obtain a' where "a = c # a'" using ab by (cases a) auto
      with ab have "cs = a' @ sub @ b" by simp
      then show "\<exists>a b. cs = a @ sub @ b" by blast
    next
      assume "\<exists>a b. cs = a @ sub @ b"
      then obtain a b where "cs = a @ sub @ b" by blast
      then have "c # cs = (c # a) @ sub @ b" by simp
      then show "\<exists>a b. c # cs = a @ sub @ b" by blast
    qed
    with False Cons.IH ge show ?thesis by (auto simp: Let_def)
  qed
qed

lemma Contains_iff: "Contains s sub \<longleftrightarrow> (\<exists>a b. s = a @ sub @ b)"
  by (simp add: Contains_def Index_absent)

lemma Index_char_absent: "c \<notin> set s \<Longrightarrow> Index s [c] = - 1"
  by (induction s) (auto simp: HasPrefix_def)

lemma Index_char_first: "c \<notin> set a \<Longrightarrow> Index (a @ c # b) [c] = int (length a)"
  by (induction a) (auto simp: HasPrefix_def Let_def)

lemma SplitN2_absent: "c \<notin> set s \<Longrightarrow> SplitN2 s [c] = [s]"
  by (simp add: SplitN2_def Index_char_absent)

lemma SplitN2_first: "c \<notin> set a \<Longrightarrow> SplitN2 (a @ c # b) [c] = [a, b]"
  by (simp add: SplitN2_def Index_char_first)

lemma Contains_char: "Contains s [c] \<longleftrightarrow> c \<in> set s"
proof
  assume "Contains s [c]" then show "c \<in> set s" by (auto simp: Contains_iff)
next
  assume "c \<in> set s" then show "Contains s [c]"
    unfolding Contains_iff by (metis append_Cons append_Nil split_list)
qed

lemma parse_no_org:
  assumes "CHR ''#'' \<notin> set name" and "CHR ''/'' \<notin> set name"
  shows "name \<noteq> [] \<Longrightarrow> ParsePluginReference name =
      Some \<lparr>Org = ''buildkite-plugins'', Name = name, Version_p = ''latest'', FullRef = name\<rparr>"
    and "ParsePluginReference (name @ ''#'' @ version) =
      Some \<lparr>Org = ''buildkite-plugins'', Name = name, Version_p = version,
            FullRef = name @ ''#'' @ version\<rparr>"
  using assms
  by (simp_all add: ParsePluginReference_def SplitN2_absent SplitN2_first Contains_char)

lemma parse_org:
  assumes "CHR ''#'' \<notin> set name" and "CHR ''/'' \<notin> set org" and "CHR ''#'' \<notin> set org"
  shows "ParsePluginReference (org @ ''/'' @ name) =
      Some \<lparr>Org = org, Name = name, Version_p = ''latest'', FullRef = org @ ''/'' @ name\<rparr>"
    and "ParsePluginReference (org @ ''/'' @ name @ ''#'' @ version) =
      Some \<lparr>Org = org, Name = name, Version_p = version,
            FullRef = org @ ''/'' @ name @ ''#'' @ version\<rparr>"
proof -
  have a: "CHR ''#'' \<notin> set (org @ ''/'' @ name)"
    using assms by simp
  show "ParsePluginReference (org @ ''/'' @ name) =
      Some \<lparr>Org = org, Name = name, Version_p = ''latest'', FullRef = org @ ''/'' @ name\<rparr>"
    using SplitN2_absent [OF a] SplitN2_first [OF assms(2), of name]
    by (simp add: ParsePluginReference_def Contains_char)
  have "SplitN2 ((org @ ''/'' @ name) @ CHR ''#'' # version) ''#'' = [org @ ''/'' @ name, version]"
    using a by (rule SplitN2_first)
  then show "ParsePluginReference (org @ ''/'' @ name @ ''#'' @ version) =
      Some \<lparr>Org = org, Name = name, Version_p = version,
            FullRef = org @ ''/'' @ name @ ''#'' @ version\<rparr>"
    using SplitN2_first [OF assms(2), of name]
    by (simp add: ParsePluginReference_def Contains_char)
qed

lemma parse_FullRef:
  "ref \<noteq> [] \<Longrightarrow> \<exists>p. ParsePluginReference ref = Some p \<and> FullRef p = ref"
  by (simp add: ParsePluginReference_def Let_def)


section \<open>Document store, plugin references, file eligibility\<close>

text \<open>
  C2. After \<open>OpenDocument\<close> and then \<open>UpdateDocument\<close> on the same URI, \<open>GetDocument\<close>
  finds the document, with the version and text of the update and the lines
  \<open>splitLines\<close> gives for that text; after \<open>CloseDocument\<close>, in that state or in any
  other, \<open>GetDocument\<close> finds nothing.
\<close>

theorem document_store_law:
  "GetDocument (UpdateDocument (OpenDocument dm d v0 t0) d v t) d =
     Some \<lparr>URI = d, Version = v, Content = t, Lines = splitLines t\<rparr>
   \<and> GetDocument (CloseDocument (UpdateDocument (OpenDocument dm d v0 t0) d v t) d) d = None
   \<and> GetDocument (CloseDocument dm d) d = None"
  by (simp add: GetDocument_def UpdateDocument_def OpenDocument_def CloseDocument_def)

theorem document_store_law_witness:
  "GetDocument
     (UpdateDocument (OpenDocument NewDocumentManager ''file:///p/pipeline.yml'' 1 ''steps:'')
        ''file:///p/pipeline.yml'' 2 ''steps:\<newline>  - wait\<newline>'')
     ''file:///p/pipeline.yml'' =
     Some \<lparr>URI = ''file:///p/pipeline.yml'', Version = 2,
           Content = ''steps:\<newline>  - wait\<newline>'', Lines = [''steps:'', ''  - wait'']\<rparr>
   \<and> GetDocument
     (CloseDocument
        (UpdateDocument (OpenDocument NewDocumentManager ''file:///p/pipeline.yml'' 1 ''steps:'')
           ''file:///p/pipeline.yml'' 2 ''steps:\<newline>  - wait\<newline>'')
        ''file:///p/pipeline.yml'')
     ''file:///p/pipeline.yml'' = None"
  using document_store_law [where dm = NewDocumentManager and d = "''file:///p/pipeline.yml''"
      and ?v0.0 = 1 and ?t0.0 = "''steps:''" and v = 2 and t = "''steps:\<newline>  - wait\<newline>''"]
  by (simp add: splitLines_def runeBytes_def runeWidth.simps Let_def LF_def CR_def)

text \<open>
  C7. A reference \<open>name\<close> or \<open>name#version\<close> parses with organisation
  \<open>buildkite-plugins\<close>, a reference \<open>org/name\<close> or \<open>org/name#version\<close> with the
  organisation given; the version is \<open>latest\<close> when the reference has none; the stored
  full reference is the input; and the candidate URLs are the version-pinned
  \<open>plugin.yml\<close>, then the one on \<open>main\<close>, then the one on \<open>master\<close>.
\<close>

theorem plugin_reference_parsing:
  "(name \<noteq> [] \<and> CHR ''#'' \<notin> set name \<and> CHR ''/'' \<notin> set name \<longrightarrow>
      ParsePluginReference name =
        Some \<lparr>Org = ''buildkite-plugins'', Name = name, Version_p = ''latest'', FullRef = name\<rparr>)
   \<and> (CHR ''#'' \<notin> set name \<and> CHR ''/'' \<notin> set name \<longrightarrow>
      ParsePluginReference (name @ ''#'' @ version) =
        Some \<lparr>Org = ''buildkite-plugins'', Name = name, Version_p = version,
              FullRef = name @ ''#'' @ version\<rparr>)
   \<and> (CHR ''#'' \<notin> set name \<and> CHR ''/'' \<notin> set org \<and> CHR ''#'' \<notin> set org \<longrightarrow>
      ParsePluginReference (org @ ''/'' @ name) =
        Some \<lparr>Org = org, Name = name, Version_p = ''latest'', FullRef = org @ ''/'' @ name\<rparr>
      \<and> ParsePluginReference (org @ ''/'' @ name @ ''#'' @ version) =
        Some \<lparr>Org = org, Name = name, Version_p = version,
              FullRef = org @ ''/'' @ name @ ''#'' @ version\<rparr>)
   \<and> (ref \<noteq> [] \<longrightarrow> (\<exists>p. ParsePluginReference ref = Some p \<and> FullRef p = ref))
   \<and> GetAllSchemaURLs p =
       [''https://raw.githubusercontent.com/'' @ Org p @ ''/'' @ Name p @ ''-buildkite-plugin/''
          @ Version_p p @ ''/plugin.yml'',
        ''https://raw.githubusercontent.com/'' @ Org p @ ''/'' @ Name p
          @ ''-buildkite-plugin/main/plugin.yml'',
        ''https://raw.githubusercontent.com/'' @ Org p @ ''/'' @ Name p
          @ ''-buildkite-plugin/master/plugin.yml'']
   \<and> map_option GetAllSchemaURLs (ParsePluginReference ''mcncl/foo#v3.0.0'') =
       Some [''https://raw.githubusercontent.com/mcncl/foo-buildkite-plugin/v3.0.0/plugin.yml'',
             ''https://raw.githubusercontent.com/mcncl/foo-buildkite-plugin/main/plugin.yml'',
             ''https://raw.githubusercontent.com/mcncl/foo-buildkite-plugin/master/plugin.yml'']"
proof -
  have urls: "map_option GetAllSchemaURLs (ParsePluginReference ''mcncl/foo#v3.0.0'') =
       Some [''https://raw.githubusercontent.com/mcncl/foo-buildkite-plugin/v3.0.0/plugin.yml'',
             ''https://raw.githubusercontent.com/mcncl/foo-buildkite-plugin/main/plugin.yml'',
             ''https://raw.githubusercontent.com/mcncl/foo-buildkite-plugin/master/plugin.yml'']"
    using parse_org(2) [of "''foo''" "''mcncl''" "''v3.0.0''"]
    by (simp add: GetAllSchemaURLs_def)
  show ?thesis
    using parse_no_org(1) [of name] parse_no_org(2) [of name version]
      parse_org(1) [of name org] parse_org(2) [of name org version] parse_FullRef [of ref] urls
    by (simp add: GetAllSchemaURLs_def)
qed

theorem plugin_reference_parsing_witness:
  "ParsePluginReference ''docker'' =
     Some \<lparr>Org = ''buildkite-plugins'', Name = ''docker'', Version_p = ''latest'', FullRef = ''docker''\<rparr>
   \<and> ParsePluginReference ''docker#v5.13.0'' =
     Some \<lparr>Org = ''buildkite-plugins'', Name = ''docker'', Version_p = ''v5.13.0'',
           FullRef = ''docker#v5.13.0''\<rparr>
   \<and> ParsePluginReference ''mcncl/docker'' =
     Some \<lparr>Org = ''mcncl'', Name = ''docker'', Version_p = ''latest'', FullRef = ''mcncl/docker''\<rparr>
   \<and> ParsePluginReference ''mcncl/docker#v5.13.0'' =
     Some \<lparr>Org = ''mcncl'', Name = ''docker'', Version_p = ''v5.13.0'',
           FullRef = ''mcncl/docker#v5.13.0''\<rparr>
   \<and> (\<exists>p. ParsePluginReference ''mcncl/foo'' = Some p \<and> FullRef p = ''mcncl/foo'')"
  using plugin_reference_parsing [where name = "''docker''" and version = "''v5.13.0''"
      and org = "''mcncl''" and ref = "''mcncl/foo''"]
  by simp

lemma Base_suffix:
  assumes "path \<noteq> []" and "\<not> HasSuffix path ''/''"
  shows "\<exists>a. path = a @ Base path"
proof -
  have last: "last path \<noteq> CHR ''/''"
  proof
    assume "last path = CHR ''/''"
    with assms(1) have "path = butlast path @ ''/''"
      by (metis append_butlast_last_id)
    then have "HasSuffix path ''/''"
      by (metis HasSuffix_iff)
    with assms(2) show False by simp
  qed
  have hd: "hd (rev path) \<noteq> CHR ''/''"
    using last assms(1) by (simp add: hd_rev)
  have stripped: "dropWhile (\<lambda>c. c = CHR ''/'') (rev path) = rev path"
    using hd assms(1) by (cases "rev path") simp_all
  have ne: "takeWhile (\<lambda>c. c \<noteq> CHR ''/'') (rev path) \<noteq> []"
    using hd assms(1) by (cases "rev path") simp_all
  have "rev path = takeWhile (\<lambda>c. c \<noteq> CHR ''/'') (rev path) @ dropWhile (\<lambda>c. c \<noteq> CHR ''/'') (rev path)"
    by simp
  then have "path = rev (dropWhile (\<lambda>c. c \<noteq> CHR ''/'') (rev path)) @ rev (takeWhile (\<lambda>c. c \<noteq> CHR ''/'') (rev path))"
    by (metis rev_append rev_rev_ident)
  moreover have "Base path = rev (takeWhile (\<lambda>c. c \<noteq> CHR ''/'') (rev path))"
    using assms(1) ne by (simp add: Base_def Let_def stripped)
  ultimately show ?thesis by metis
qed

lemma Base_yaml:
  assumes "\<not> HasSuffix path ''/''"
    and "Base path \<in> {''pipeline.yml'', ''pipeline.yaml'', ''buildkite.yml'', ''buildkite.yaml''}"
  shows "HasSuffix path ''.yml'' \<or> HasSuffix path ''.yaml''"
proof -
  have "path \<noteq> []"
    using assms(2) by (auto simp: Base_def)
  from Base_suffix [OF this assms(1)] obtain a where a: "path = a @ Base path" ..
  from assms(2) consider "Base path = ''pipeline'' @ ''.yml''" | "Base path = ''pipeline'' @ ''.yaml''"
    | "Base path = ''buildkite'' @ ''.yml''" | "Base path = ''buildkite'' @ ''.yaml''"
    by auto
  then show ?thesis
  proof cases
    case 1
    with a have "path = (a @ ''pipeline'') @ ''.yml''" by simp
    then show ?thesis by (metis HasSuffix_iff)
  next
    case 2
    with a have "path = (a @ ''pipeline'') @ ''.yaml''" by simp
    then show ?thesis by (metis HasSuffix_iff)
  next
    case 3
    with a have "path = (a @ ''buildkite'') @ ''.yml''" by simp
    then show ?thesis by (metis HasSuffix_iff)
  next
    case 4
    with a have "path = (a @ ''buildkite'') @ ''.yaml''" by simp
    then show ?thesis by (metis HasSuffix_iff)
  qed
qed

lemma Contains_slash_buildkite:
  "Contains path ''/.buildkite/'' \<Longrightarrow> Contains path ''.buildkite/''"
proof -
  assume "Contains path ''/.buildkite/''"
  then obtain a b where "path = a @ ''/.buildkite/'' @ b"
    by (auto simp: Contains_iff)
  then have "path = (a @ ''/'') @ ''.buildkite/'' @ b" by simp
  then show ?thesis unfolding Contains_iff by blast
qed

lemma isBuildkiteFile_path:
  "isBuildkiteFile uri =
     (let filePath = TrimPrefix uri ''file://'' in
      if Contains filePath ''.buildkite/''
      then HasSuffix filePath ''.yml'' \<or> HasSuffix filePath ''.yaml''
      else Base filePath \<in> {''pipeline.yml'', ''pipeline.yaml'', ''buildkite.yml'', ''buildkite.yaml''})"
  by (simp add: isBuildkiteFile_def Let_def TrimPrefix_def)

text \<open>
  C9. The code does not compute the predicate of the claim. It tests the path for
  \<open>.buildkite/\<close> with no slash before it, so a YAML file in a directory whose name only
  ends in \<open>.buildkite\<close>, as \<open>/p/my.buildkite/steps.yml\<close>, is taken for a file of a
  \<open>.buildkite\<close> directory: \<open>isBuildkiteFile\<close> returns true there, and the predicate of
  the claim, \<open>isBuildkiteFile_spec\<close>, is false. Wherever \<open>.buildkite/\<close> occurs in the
  path only with a slash before it, or not at all, and the path does not end in a slash
  (so that its base name is the text behind its last slash), the code and the claim agree.
\<close>

theorem isBuildkiteFile_diverges:
  "isBuildkiteFile ''file:///p/my.buildkite/steps.yml''
   \<and> \<not> isBuildkiteFile_spec ''file:///p/my.buildkite/steps.yml''
   \<and> (let filePath = TrimPrefix uri ''file://'' in
        (Contains filePath ''.buildkite/'' \<longrightarrow> Contains filePath ''/.buildkite/'')
        \<and> \<not> HasSuffix filePath ''/''
        \<longrightarrow> isBuildkiteFile uri = isBuildkiteFile_spec uri)"
proof -
  have slip: "isBuildkiteFile ''file:///p/my.buildkite/steps.yml''
      \<and> \<not> isBuildkiteFile_spec ''file:///p/my.buildkite/steps.yml''"
    by (simp add: isBuildkiteFile_def isBuildkiteFile_spec_def TrimPrefix_def HasPrefix_def
        HasSuffix_def Contains_def Base_def)
  define filePath where "filePath = TrimPrefix uri ''file://''"
  have agree: "isBuildkiteFile uri = isBuildkiteFile_spec uri"
    if sub: "Contains filePath ''.buildkite/'' \<longrightarrow> Contains filePath ''/.buildkite/''"
      and slash: "\<not> HasSuffix filePath ''/''"
  proof (cases "Contains filePath ''.buildkite/''")
    case True
    with sub have "Contains filePath ''/.buildkite/''" by simp
    with True Base_yaml [OF slash] show ?thesis
      unfolding isBuildkiteFile_path isBuildkiteFile_spec_def Let_def filePath_def [symmetric]
      by auto
  next
    case False
    with Contains_slash_buildkite [of filePath] have "\<not> Contains filePath ''/.buildkite/''"
      by blast
    with False show ?thesis
      unfolding isBuildkiteFile_path isBuildkiteFile_spec_def Let_def filePath_def [symmetric]
      by simp
  qed
  from slip agree show ?thesis
    unfolding Let_def filePath_def by blast
qed

theorem isBuildkiteFile_diverges_witness:
  "Contains ''/project/.buildkite/steps.yml'' ''.buildkite/''
   \<and> Contains ''/project/.buildkite/steps.yml'' ''/.buildkite/''
   \<and> \<not> HasSuffix ''/project/.buildkite/steps.yml'' ''/''
   \<and> isBuildkiteFile ''file:///project/.buildkite/steps.yml''
   \<and> isBuildkiteFile_spec ''file:///project/.buildkite/steps.yml''
   \<and> \<not> Contains ''/project/pipeline.yml'' ''.buildkite/''
   \<and> \<not> HasSuffix ''/project/pipeline.yml'' ''/''
   \<and> isBuildkiteFile ''file:///project/pipeline.yml''
   \<and> isBuildkiteFile_spec ''file:///project/pipeline.yml''
   \<and> \<not> isBuildkiteFile ''file:///project/other.yml''
   \<and> \<not> isBuildkiteFile_spec ''file:///project/other.yml''"
  using isBuildkiteFile_diverges [of "''file:///project/.buildkite/steps.yml''"]
    isBuildkiteFile_diverges [of "''file:///project/pipeline.yml''"]
    isBuildkiteFile_diverges [of "''file:///project/other.yml''"]
  by (simp add: isBuildkiteFile_def isBuildkiteFile_spec_def TrimPrefix_def HasPrefix_def
      HasSuffix_def Contains_def Base_def)

section \<open>Primary error of a schema validation\<close>


lemma errorPriority_range: "errorPriority t = Some p \<Longrightarrow> 1 \<le> p \<and> p \<le> 10"
  unfolding errorPriority_def by (simp split: if_splits)

lemma priorityOf_le: "priorityOf e \<le> 999"
  using errorPriority_range [of "Type_e e"] by (auto simp: priorityOf_def split: option.splits)

lemma bestLoop_step:
  "bestLoop (e # es) best (priorityOf best) =
     (if priorityOf e < priorityOf best then bestLoop es e (priorityOf e)
      else bestLoop es best (priorityOf best))"
  using priorityOf_le [of best] by (auto simp: priorityOf_def split: option.splits)

lemma bestLoop_first_min:
  "\<exists>pre post. best # es = pre @ fst (bestLoop es best (priorityOf best)) # post
     \<and> (\<forall>e \<in> set pre. priorityOf (fst (bestLoop es best (priorityOf best))) < priorityOf e)
     \<and> (\<forall>e \<in> set post. priorityOf (fst (bestLoop es best (priorityOf best))) \<le> priorityOf e)"
proof (induction es arbitrary: best)
  case Nil
  have "[best] = [] @ best # []" by simp
  then show ?case by fastforce
next
  case (Cons e es)
  show ?case
  proof (cases "priorityOf e < priorityOf best")
    case True
    define b where "b = fst (bestLoop es e (priorityOf e))"
    from Cons.IH [of e] obtain pre post where
      d: "e # es = pre @ b # post" and
      p1: "\<forall>x \<in> set pre. priorityOf b < priorityOf x" and
      p2: "\<forall>x \<in> set post. priorityOf b \<le> priorityOf x"
      unfolding b_def by blast
    have "e \<in> set (pre @ b # post)" using d by (metis list.set_intros(1))
    then have "priorityOf b \<le> priorityOf e" using p1 p2 by fastforce
    then have lt: "priorityOf b < priorityOf best" using True by simp
    have eq: "fst (bestLoop (e # es) best (priorityOf best)) = b"
      using True by (simp only: bestLoop_step b_def if_True)
    have "best # e # es = (best # pre) @ b # post" using d by simp
    moreover have "\<forall>x \<in> set (best # pre). priorityOf b < priorityOf x" using p1 lt by simp
    ultimately show ?thesis unfolding eq using p2 by blast
  next
    case False
    define b where "b = fst (bestLoop es best (priorityOf best))"
    from Cons.IH [of best] obtain pre post where
      d: "best # es = pre @ b # post" and
      p1: "\<forall>x \<in> set pre. priorityOf b < priorityOf x" and
      p2: "\<forall>x \<in> set post. priorityOf b \<le> priorityOf x"
      unfolding b_def by blast
    have eq: "fst (bestLoop (e # es) best (priorityOf best)) = b"
      using False by (simp only: bestLoop_step b_def if_False)
    show ?thesis
    proof (cases pre)
      case Nil
      with d have b: "b = best" and post: "post = es" by simp_all
      have "best # e # es = [] @ b # (e # es)" using b by simp
      moreover have "\<forall>x \<in> set (e # es). priorityOf b \<le> priorityOf x"
        using p2 post b False by auto
      ultimately show ?thesis unfolding eq by (metis empty_iff empty_set)
    next
      case (Cons x pre')
      with d have x: "x = best" and es: "es = pre' @ b # post" by simp_all
      have lt: "priorityOf b < priorityOf best" using p1 Cons x by simp
      have "best # e # es = (best # e # pre') @ b # post" using es by simp
      moreover have "\<forall>y \<in> set (best # e # pre'). priorityOf b < priorityOf y"
        using p1 Cons lt False by auto
      ultimately show ?thesis unfolding eq using p2 by blast
    qed
  qed
qed

lemma pickBestError_start:
  "pickBestError (e # es) = fst (bestLoop es e (priorityOf e))"
  using errorPriority_range [of "Type_e e"]
  by (auto simp: pickBestError_def priorityOf_def split: option.splits)

lemma priority_table:
  "errorPriority ''additional_property_not_allowed'' = Some 1"
  "errorPriority ''required'' = Some 2"
  "errorPriority ''invalid_type'' = Some 3"
  "errorPriority ''enum'' = Some 4"
  "errorPriority ''string_gte'' = Some 5"
  "errorPriority ''string_lte'' = Some 6"
  "errorPriority ''array_min_items'' = Some 7"
  "errorPriority ''array_max_items'' = Some 8"
  "errorPriority ''number_gte'' = Some 9"
  "errorPriority ''number_lte'' = Some 10"
  by (simp_all add: errorPriority_def)

lemma priority_other:
  "t \<notin> {''additional_property_not_allowed'', ''required'', ''invalid_type'', ''enum'',
         ''string_gte'', ''string_lte'', ''array_min_items'', ''array_max_items'',
         ''number_gte'', ''number_lte''} \<Longrightarrow> errorPriority t = None"
  by (simp add: errorPriority_def)


text \<open>
  C4. When validation yields a result that is not valid and has errors, \<open>ValidateJSON\<close>
  reports the error \<open>pickBestError\<close> selects, and that error splits the list of errors
  so that every error before it has a strictly larger priority and every error after it
  has a priority at least as large: it has the smallest priority, and is the earliest of
  those that have it. The priorities are those of the table, 999 for any other type.
\<close>

theorem primary_error_choice:
  "(validate schemaData jsonData = Inr result \<and> \<not> Valid result \<and> Errors result \<noteq> [] \<longrightarrow>
      ValidateJSON (Inr schemaData) validate jsonData =
        Inr (Some \<lparr>Message = friendlyErrorMessage (pickBestError (Errors result)),
                    Path = Field (pickBestError (Errors result)), Line = 1\<rparr>)
      \<and> (\<exists>pre post. Errors result = pre @ pickBestError (Errors result) # post
            \<and> (\<forall>e \<in> set pre. priorityOf (pickBestError (Errors result)) < priorityOf e)
            \<and> (\<forall>e \<in> set post. priorityOf (pickBestError (Errors result)) \<le> priorityOf e)))
   \<and> (Type_e e = ''additional_property_not_allowed'' \<longrightarrow> priorityOf e = 1)
   \<and> (Type_e e = ''required'' \<longrightarrow> priorityOf e = 2)
   \<and> (Type_e e = ''invalid_type'' \<longrightarrow> priorityOf e = 3)
   \<and> (Type_e e = ''enum'' \<longrightarrow> priorityOf e = 4)
   \<and> (Type_e e = ''string_gte'' \<longrightarrow> priorityOf e = 5)
   \<and> (Type_e e = ''string_lte'' \<longrightarrow> priorityOf e = 6)
   \<and> (Type_e e = ''array_min_items'' \<longrightarrow> priorityOf e = 7)
   \<and> (Type_e e = ''array_max_items'' \<longrightarrow> priorityOf e = 8)
   \<and> (Type_e e = ''number_gte'' \<longrightarrow> priorityOf e = 9)
   \<and> (Type_e e = ''number_lte'' \<longrightarrow> priorityOf e = 10)
   \<and> (Type_e e \<notin> {''additional_property_not_allowed'', ''required'', ''invalid_type'', ''enum'',
         ''string_gte'', ''string_lte'', ''array_min_items'', ''array_max_items'',
         ''number_gte'', ''number_lte''} \<longrightarrow> priorityOf e = 999)"
proof -
  have sel: "\<exists>pre post. es = pre @ pickBestError es # post
            \<and> (\<forall>e \<in> set pre. priorityOf (pickBestError es) < priorityOf e)
            \<and> (\<forall>e \<in> set post. priorityOf (pickBestError es) \<le> priorityOf e)"
    if "es \<noteq> []" for es
  proof -
    from that obtain e0 rest where es: "es = e0 # rest" by (cases es) auto
    show ?thesis
      unfolding es pickBestError_start by (rule bestLoop_first_min)
  qed
  have main: "validate schemaData jsonData = Inr result \<and> \<not> Valid result \<and> Errors result \<noteq> [] \<longrightarrow>
      ValidateJSON (Inr schemaData) validate jsonData =
        Inr (Some \<lparr>Message = friendlyErrorMessage (pickBestError (Errors result)),
                    Path = Field (pickBestError (Errors result)), Line = 1\<rparr>)
      \<and> (\<exists>pre post. Errors result = pre @ pickBestError (Errors result) # post
            \<and> (\<forall>e \<in> set pre. priorityOf (pickBestError (Errors result)) < priorityOf e)
            \<and> (\<forall>e \<in> set post. priorityOf (pickBestError (Errors result)) \<le> priorityOf e))"
    using sel [of "Errors result"] by (simp add: ValidateJSON_def Let_def)
  have other: "Type_e e \<notin> {''additional_property_not_allowed'', ''required'', ''invalid_type'', ''enum'',
         ''string_gte'', ''string_lte'', ''array_min_items'', ''array_max_items'',
         ''number_gte'', ''number_lte''} \<longrightarrow> priorityOf e = 999"
    using priority_other [of "Type_e e"] by (simp add: priorityOf_def)
  have tab: "(Type_e e = ''additional_property_not_allowed'' \<longrightarrow> priorityOf e = 1)
   \<and> (Type_e e = ''required'' \<longrightarrow> priorityOf e = 2)
   \<and> (Type_e e = ''invalid_type'' \<longrightarrow> priorityOf e = 3)
   \<and> (Type_e e = ''enum'' \<longrightarrow> priorityOf e = 4)
   \<and> (Type_e e = ''string_gte'' \<longrightarrow> priorityOf e = 5)
   \<and> (Type_e e = ''string_lte'' \<longrightarrow> priorityOf e = 6)
   \<and> (Type_e e = ''array_min_items'' \<longrightarrow> priorityOf e = 7)
   \<and> (Type_e e = ''array_max_items'' \<longrightarrow> priorityOf e = 8)
   \<and> (Type_e e = ''number_gte'' \<longrightarrow> priorityOf e = 9)
   \<and> (Type_e e = ''number_lte'' \<longrightarrow> priorityOf e = 10)"
    by (simp add: priorityOf_def priority_table)
  from main tab other show ?thesis by (intro conjI) (elim conjE; assumption)+
qed

theorem primary_error_choice_witness:
  "pickBestError
     [\<lparr>Type_e = ''number_one_of'', Field = ''steps.0'', Description = ''a'', Details = []\<rparr>,
      \<lparr>Type_e = ''required'', Field = ''steps.1'', Description = ''b'', Details = []\<rparr>,
      \<lparr>Type_e = ''additional_property_not_allowed'', Field = ''steps.2'', Description = ''c'', Details = []\<rparr>,
      \<lparr>Type_e = ''additional_property_not_allowed'', Field = ''steps.3'', Description = ''d'', Details = []\<rparr>]
    = \<lparr>Type_e = ''additional_property_not_allowed'', Field = ''steps.2'', Description = ''c'', Details = []\<rparr>
   \<and> ValidateJSON (Inr ''{}'')
        (\<lambda>schemaData jsonData. Inr \<lparr>Valid = False, Errors =
          [\<lparr>Type_e = ''number_one_of'', Field = ''steps.0'', Description = ''a'', Details = []\<rparr>,
           \<lparr>Type_e = ''required'', Field = ''steps.1'', Description = ''b'', Details = []\<rparr>,
           \<lparr>Type_e = ''additional_property_not_allowed'', Field = ''steps.2'', Description = ''c'', Details = []\<rparr>,
           \<lparr>Type_e = ''additional_property_not_allowed'', Field = ''steps.3'', Description = ''d'', Details = []\<rparr>]\<rparr>)
        ''{}''
      = Inr (Some \<lparr>Message = ''c'', Path = ''steps.2'', Line = 1\<rparr>)
   \<and> priorityOf \<lparr>Type_e = ''additional_property_not_allowed'', Field = [], Description = [], Details = []\<rparr> = 1
   \<and> priorityOf \<lparr>Type_e = ''required'', Field = [], Description = [], Details = []\<rparr> = 2
   \<and> priorityOf \<lparr>Type_e = ''invalid_type'', Field = [], Description = [], Details = []\<rparr> = 3
   \<and> priorityOf \<lparr>Type_e = ''enum'', Field = [], Description = [], Details = []\<rparr> = 4
   \<and> priorityOf \<lparr>Type_e = ''string_gte'', Field = [], Description = [], Details = []\<rparr> = 5
   \<and> priorityOf \<lparr>Type_e = ''string_lte'', Field = [], Description = [], Details = []\<rparr> = 6
   \<and> priorityOf \<lparr>Type_e = ''array_min_items'', Field = [], Description = [], Details = []\<rparr> = 7
   \<and> priorityOf \<lparr>Type_e = ''array_max_items'', Field = [], Description = [], Details = []\<rparr> = 8
   \<and> priorityOf \<lparr>Type_e = ''number_gte'', Field = [], Description = [], Details = []\<rparr> = 9
   \<and> priorityOf \<lparr>Type_e = ''number_lte'', Field = [], Description = [], Details = []\<rparr> = 10
   \<and> priorityOf \<lparr>Type_e = ''number_one_of'', Field = [], Description = [], Details = []\<rparr> = 999"
proof -
  let ?es = "[\<lparr>Type_e = ''number_one_of'', Field = ''steps.0'', Description = ''a'', Details = []\<rparr>,
      \<lparr>Type_e = ''required'', Field = ''steps.1'', Description = ''b'', Details = []\<rparr>,
      \<lparr>Type_e = ''additional_property_not_allowed'', Field = ''steps.2'', Description = ''c'', Details = []\<rparr>,
      \<lparr>Type_e = ''additional_property_not_allowed'', Field = ''steps.3'', Description = ''d'', Details = []\<rparr>]"
  have pick: "pickBestError ?es =
      \<lparr>Type_e = ''additional_property_not_allowed'', Field = ''steps.2'', Description = ''c'', Details = []\<rparr>"
    by (simp add: pickBestError_def errorPriority_def)
  have msg: "friendlyErrorMessage
      \<lparr>Type_e = ''additional_property_not_allowed'', Field = ''steps.2'', Description = ''c'', Details = []\<rparr> = ''c''"
    by (simp add: friendlyErrorMessage_def extractPropertyFromDescription_def Contains_def HasPrefix_def)
  have a: "ValidateJSON (Inr ''{}'') (\<lambda>schemaData jsonData. Inr \<lparr>Valid = False, Errors = ?es\<rparr>) ''{}''
      = Inr (Some \<lparr>Message = ''c'', Path = ''steps.2'', Line = 1\<rparr>)"
    using primary_error_choice [where validate = "\<lambda>schemaData jsonData. Inr \<lparr>Valid = False, Errors = ?es\<rparr>"
        and schemaData = "''{}''" and jsonData = "''{}''" and result = "\<lparr>Valid = False, Errors = ?es\<rparr>"]
    by (simp add: pick msg)
  have p0: "priorityOf \<lparr>Type_e = ''additional_property_not_allowed'', Field = [], Description = [], Details = []\<rparr> = 1"
    using primary_error_choice [where e = "\<lparr>Type_e = ''additional_property_not_allowed'', Field = [], Description = [], Details = []\<rparr>"]
    by simp
  have p1: "priorityOf \<lparr>Type_e = ''required'', Field = [], Description = [], Details = []\<rparr> = 2"
    using primary_error_choice [where e = "\<lparr>Type_e = ''required'', Field = [], Description = [], Details = []\<rparr>"]
    by simp
  have p2: "priorityOf \<lparr>Type_e = ''invalid_type'', Field = [], Description = [], Details = []\<rparr> = 3"
    using primary_error_choice [where e = "\<lparr>Type_e = ''invalid_type'', Field = [], Description = [], Details = []\<rparr>"]
    by simp
  have p3: "priorityOf \<lparr>Type_e = ''enum'', Field = [], Description = [], Details = []\<rparr> = 4"
    using primary_error_choice [where e = "\<lparr>Type_e = ''enum'', Field = [], Description = [], Details = []\<rparr>"]
    by simp
  have p4: "priorityOf \<lparr>Type_e = ''string_gte'', Field = [], Description = [], Details = []\<rparr> = 5"
    using primary_error_choice [where e = "\<lparr>Type_e = ''string_gte'', Field = [], Description = [], Details = []\<rparr>"]
    by simp
  have p5: "priorityOf \<lparr>Type_e = ''string_lte'', Field = [], Description = [], Details = []\<rparr> = 6"
    using primary_error_choice [where e = "\<lparr>Type_e = ''string_lte'', Field = [], Description = [], Details = []\<rparr>"]
    by simp
  have p6: "priorityOf \<lparr>Type_e = ''array_min_items'', Field = [], Description = [], Details = []\<rparr> = 7"
    using primary_error_choice [where e = "\<lparr>Type_e = ''array_min_items'', Field = [], Description = [], Details = []\<rparr>"]
    by simp
  have p7: "priorityOf \<lparr>Type_e = ''array_max_items'', Field = [], Description = [], Details = []\<rparr> = 8"
    using primary_error_choice [where e = "\<lparr>Type_e = ''array_max_items'', Field = [], Description = [], Details = []\<rparr>"]
    by simp
  have p8: "priorityOf \<lparr>Type_e = ''number_gte'', Field = [], Description = [], Details = []\<rparr> = 9"
    using primary_error_choice [where e = "\<lparr>Type_e = ''number_gte'', Field = [], Description = [], Details = []\<rparr>"]
    by simp
  have p9: "priorityOf \<lparr>Type_e = ''number_lte'', Field = [], Description = [], Details = []\<rparr> = 10"
    using primary_error_choice [where e = "\<lparr>Type_e = ''number_lte'', Field = [], Description = [], Details = []\<rparr>"]
    by simp
  have p10: "priorityOf \<lparr>Type_e = ''number_one_of'', Field = [], Description = [], Details = []\<rparr> = 999"
    using primary_error_choice [where e = "\<lparr>Type_e = ''number_one_of'', Field = [], Description = [], Details = []\<rparr>"]
    by simp
  from pick a p0 p1 p2 p3 p4 p5 p6 p7 p8 p9 p10 show ?thesis by simp
qed

section \<open>Step diagnostics: step types and labels\<close>


lemma stepType_codes:
  "d \<in> set (stepTypeDiagnostics s l n) \<Longrightarrow>
     Code d \<in> {''no-step-type-with-plugins'', ''missing-step-type'', ''multiple-step-types''}"
  by (auto simp: stepTypeDiagnostics_def Let_def split: if_splits)

lemma emptyCommand_codes:
  "d \<in> set (emptyCommandDiagnostics s l) \<Longrightarrow>
     Code d \<in> {''empty-command-with-plugins'', ''empty-command''}"
  by (auto simp: emptyCommandDiagnostics_def Let_def split: if_splits option.splits json.splits)

lemma name_codes: "d \<in> set (nameDiagnostics s l) \<Longrightarrow> Code d = ''use-label-not-name''"
  by (auto simp: nameDiagnostics_def split: if_splits)

lemma wait_codes:
  assumes "d \<in> set (waitDiagnostics s l)"
  shows "Code d = ''invalid-wait-value''"
proof (cases "s ''wait''")
  case None
  with assms show ?thesis by (simp add: waitDiagnostics_def)
next
  case (Some v)
  with assms show ?thesis by (cases v) (auto simp: waitDiagnostics_def)
qed

lemma block_codes: "d \<in> set (blockDiagnostics s l) \<Longrightarrow> Code d = ''empty-block-message''"
  by (auto simp: blockDiagnostics_def split: if_splits)

lemma trigger_codes: "d \<in> set (triggerDiagnostics s l) \<Longrightarrow> Code d = ''empty-trigger-pipeline''"
  by (auto simp: triggerDiagnostics_def split: if_splits)

lemma input_codes: "d \<in> set (inputDiagnostics s l) \<Longrightarrow> Code d = ''empty-input-prompt''"
  by (auto simp: inputDiagnostics_def split: if_splits)

lemma label_diag:
  "d \<in> set (labelDiagnostics s l) \<Longrightarrow>
     Code d = ''missing-label'' \<and> Severity d = DiagnosticSeverityInformation
     \<and> \<not> notNil s ''label'' \<and> \<not> notNil s ''name''"
  by (auto simp: labelDiagnostics_def split: if_splits)

lemma label_diag_present:
  "\<not> notNil s ''label'' \<Longrightarrow> \<not> notNil s ''name'' \<Longrightarrow>
     \<exists>d \<in> set (labelDiagnostics s l). Code d = ''missing-label''"
  by (simp add: labelDiagnostics_def)

lemma missing_label_origin:
  assumes "d \<in> set (validateSingleStep s l n)" and "Code d = ''missing-label''"
  shows "hasCommand s \<and> d \<in> set (labelDiagnostics s l)"
proof -
  from assms(1) consider
      "d \<in> set (stepTypeDiagnostics s l n)"
    | "hasCommand s" "d \<in> set (emptyCommandDiagnostics s l)"
    | "hasCommand s" "d \<in> set (nameDiagnostics s l)"
    | "hasCommand s" "d \<in> set (labelDiagnostics s l)"
    | "d \<in> set (waitDiagnostics s l)"
    | "d \<in> set (blockDiagnostics s l)"
    | "d \<in> set (triggerDiagnostics s l)"
    | "d \<in> set (inputDiagnostics s l)"
    by (auto simp: validateSingleStep_def commandDiagnostics_def split: if_splits)
  then show ?thesis
  proof cases
    case 1 from stepType_codes [OF this] assms(2) show ?thesis by simp
  next
    case 2 from emptyCommand_codes [OF this(2)] assms(2) show ?thesis by simp
  next
    case 3 from name_codes [OF this(2)] assms(2) show ?thesis by simp
  next
    case 4 then show ?thesis by simp
  next
    case 5 from wait_codes [OF this] assms(2) show ?thesis by simp
  next
    case 6 from block_codes [OF this] assms(2) show ?thesis by simp
  next
    case 7 from trigger_codes [OF this] assms(2) show ?thesis by simp
  next
    case 8 from input_codes [OF this] assms(2) show ?thesis by simp
  qed
qed

lemma stepTypeCount_command_wait:
  "hasCommand s \<Longrightarrow> s ''wait'' = Some w \<Longrightarrow> 2 \<le> stepTypeCount s"
  by (simp add: stepTypeCount_def hasWait_def)

text \<open>
  C5, as the code has it. The test for \<open>wait\<close> is the presence of the key, the test for
  \<open>command\<close> and \<open>commands\<close> is a value other than \<open>nil\<close>: a step whose \<open>command\<close> or
  \<open>commands\<close> value is not \<open>nil\<close> and that has a \<open>wait\<close> key, whatever its value (\<open>nil\<close>
  included), counts at least two step types and gets a diagnostic with code
  \<open>multiple-step-types\<close> and severity Error.
\<close>

theorem multiple_step_types_with_wait:
  "(notNil stepData ''command'' \<or> notNil stepData ''commands'') \<and> stepData ''wait'' = Some w \<longrightarrow>
     2 \<le> stepTypeCount stepData
     \<and> (\<exists>d \<in> set (validateSingleStep stepData lineNum stepNumber).
           Code d = ''multiple-step-types'' \<and> Severity d = DiagnosticSeverityError)"
proof (intro impI)
  assume a: "(notNil stepData ''command'' \<or> notNil stepData ''commands'') \<and> stepData ''wait'' = Some w"
  then have c: "2 \<le> stepTypeCount stepData"
    using stepTypeCount_command_wait [of stepData w] by (simp add: hasCommand_def)
  then have "\<exists>d \<in> set (stepTypeDiagnostics stepData lineNum stepNumber).
           Code d = ''multiple-step-types'' \<and> Severity d = DiagnosticSeverityError"
    by (simp add: stepTypeDiagnostics_def)
  then have "\<exists>d \<in> set (validateSingleStep stepData lineNum stepNumber).
           Code d = ''multiple-step-types'' \<and> Severity d = DiagnosticSeverityError"
    unfolding validateSingleStep_def by auto
  with c show "2 \<le> stepTypeCount stepData
     \<and> (\<exists>d \<in> set (validateSingleStep stepData lineNum stepNumber).
           Code d = ''multiple-step-types'' \<and> Severity d = DiagnosticSeverityError)"
    by simp
qed

theorem multiple_step_types_with_wait_witness:
  "notNil [''command'' \<mapsto> JString ''test'', ''wait'' \<mapsto> JNull] ''command''
   \<and> [''command'' \<mapsto> JString ''test'', ''wait'' \<mapsto> JNull] ''wait'' = Some JNull
   \<and> 2 \<le> stepTypeCount [''command'' \<mapsto> JString ''test'', ''wait'' \<mapsto> JNull]
   \<and> (\<exists>d \<in> set (validateSingleStep [''command'' \<mapsto> JString ''test'', ''wait'' \<mapsto> JNull] 1 1).
         Code d = ''multiple-step-types'' \<and> Severity d = DiagnosticSeverityError)"
  using multiple_step_types_with_wait [where stepData = "[''command'' \<mapsto> JString ''test'', ''wait'' \<mapsto> JNull]"
      and w = JNull and lineNum = 1 and stepNumber = 1]
  by (simp add: notNil_def)

theorem multiple_step_types_counterexample:
  "[''command'' \<mapsto> JNull, ''wait'' \<mapsto> JNull] ''command'' = Some JNull
   \<and> [''command'' \<mapsto> JNull, ''wait'' \<mapsto> JNull] ''wait'' = Some JNull
   \<and> stepTypeCount [''command'' \<mapsto> JNull, ''wait'' \<mapsto> JNull] = 1
   \<and> map Code (validateSingleStep [''command'' \<mapsto> JNull, ''wait'' \<mapsto> JNull] 1 1) = []"
  by (simp add: validateSingleStep_def stepTypeDiagnostics_def commandDiagnostics_def
      waitDiagnostics_def blockDiagnostics_def triggerDiagnostics_def inputDiagnostics_def
      stepTypeCount_def hasCommand_def hasWait_def hasBlock_def hasInput_def hasTrigger_def
      hasGroup_def notNil_def)

text \<open>
  C6, as the code has it. The label check is one of the checks made on command steps:
  a diagnostic with code \<open>missing-label\<close> is emitted exactly when the step's \<open>command\<close>
  or \<open>commands\<close> value is not \<open>nil\<close> and neither \<open>label\<close> nor \<open>name\<close> has a value other
  than \<open>nil\<close>; its severity is Information.
\<close>

theorem missing_label_iff:
  "((\<exists>d \<in> set (validateSingleStep stepData lineNum stepNumber). Code d = ''missing-label'') \<longleftrightarrow>
      (notNil stepData ''command'' \<or> notNil stepData ''commands'')
      \<and> \<not> notNil stepData ''label'' \<and> \<not> notNil stepData ''name'')
   \<and> (\<forall>d \<in> set (validateSingleStep stepData lineNum stepNumber).
        Code d = ''missing-label'' \<longrightarrow> Severity d = DiagnosticSeverityInformation)"
proof -
  have 1: "(notNil stepData ''command'' \<or> notNil stepData ''commands'')
      \<and> \<not> notNil stepData ''label'' \<and> \<not> notNil stepData ''name''"
    if "\<exists>d \<in> set (validateSingleStep stepData lineNum stepNumber). Code d = ''missing-label''"
  proof -
    from that obtain d where d: "d \<in> set (validateSingleStep stepData lineNum stepNumber)"
      and c: "Code d = ''missing-label''" by blast
    from missing_label_origin [OF d c] label_diag [of d stepData lineNum]
    show ?thesis by (simp add: hasCommand_def)
  qed
  have 2: "\<exists>d \<in> set (validateSingleStep stepData lineNum stepNumber). Code d = ''missing-label''"
    if a: "(notNil stepData ''command'' \<or> notNil stepData ''commands'')
      \<and> \<not> notNil stepData ''label'' \<and> \<not> notNil stepData ''name''"
  proof -
    from a obtain d where "d \<in> set (labelDiagnostics stepData lineNum)"
      and c: "Code d = ''missing-label''"
      using label_diag_present [of stepData lineNum] by blast
    then have "d \<in> set (validateSingleStep stepData lineNum stepNumber)"
      using a by (simp add: validateSingleStep_def commandDiagnostics_def hasCommand_def)
    with c show ?thesis by blast
  qed
  have 3: "Severity d = DiagnosticSeverityInformation"
    if d: "d \<in> set (validateSingleStep stepData lineNum stepNumber)"
      and c: "Code d = ''missing-label''" for d
    using missing_label_origin [OF d c] label_diag [of d stepData lineNum] by simp
  from 1 2 3 show ?thesis by blast
qed

theorem missing_label_iff_witness:
  "(\<exists>d \<in> set (validateSingleStep [''command'' \<mapsto> JString ''make build''] 1 1).
      Code d = ''missing-label'' \<and> Severity d = DiagnosticSeverityInformation)
   \<and> \<not> (\<exists>d \<in> set (validateSingleStep [''block'' \<mapsto> JString ''Deploy?''] 1 1).
      Code d = ''missing-label'')"
  using missing_label_iff [where stepData = "[''command'' \<mapsto> JString ''make build'']"
      and lineNum = 1 and stepNumber = 1]
    missing_label_iff [where stepData = "[''block'' \<mapsto> JString ''Deploy?'']"
      and lineNum = 1 and stepNumber = 1]
  by (auto simp: notNil_def)

theorem missing_label_counterexample:
  "[''wait'' \<mapsto> JNull] ''label'' = None \<and> [''wait'' \<mapsto> JNull] ''name'' = None
   \<and> map Code (validateSingleStep [''wait'' \<mapsto> JNull] 1 1) = []"
  by (simp add: validateSingleStep_def stepTypeDiagnostics_def commandDiagnostics_def
      waitDiagnostics_def blockDiagnostics_def triggerDiagnostics_def inputDiagnostics_def
      stepTypeCount_def hasCommand_def hasWait_def hasBlock_def hasInput_def hasTrigger_def
      hasGroup_def notNil_def)

section \<open>Context kinds\<close>

lemma stackScan_kind:
  "stackScan c ks n = Some found \<Longrightarrow>
     Type found \<in> {ContextStep, ContextPlugins, ContextPluginConfig}"
  by (induction n) (auto simp: Let_def split: if_splits)

lemma determineContextFromStack_kind:
  "Type (determineContextFromStack c ks cl ci)
     \<in> {ContextTopLevel, ContextStep, ContextPlugins, ContextPluginConfig}"
proof (cases "stackScan (c\<lparr>ParentKeys := map Key ks\<rparr>) ks (length ks)")
  case None
  then show ?thesis by (simp add: determineContextFromStack_def Let_def)
next
  case (Some found)
  from stackScan_kind [OF this] Some show ?thesis
    by (auto simp: determineContextFromStack_def Let_def)
qed

lemma determineContextFromStack_empty:
  "Type (determineContextFromStack c [] cl ci) = ContextTopLevel"
  by (simp add: determineContextFromStack_def)

lemma analyzeLoop_last:
  "\<exists>c. analyzeLoop [line] cl ci ctx ks =
     determineContextFromStack c (popKeysAtOrAboveIndent ks (getIndentLevel line)) cl ci"
  by (auto simp: Let_def)

lemma analyzeLoop_more:
  "rest \<noteq> [] \<Longrightarrow> \<exists>c k. analyzeLoop (line # rest) cl ci ctx ks = analyzeLoop rest cl ci c k"
  by (auto simp: Let_def split: prod.splits option.splits)

lemma analyzeLoop_kind:
  "lines \<noteq> [] \<Longrightarrow>
     Type (analyzeLoop lines cl ci ctx ks)
       \<in> {ContextTopLevel, ContextStep, ContextPlugins, ContextPluginConfig}"
proof (induction lines arbitrary: ctx ks)
  case Nil
  then show ?case by simp
next
  case (Cons line rest)
  show ?case
  proof (cases "rest = []")
    case True
    obtain c where "analyzeLoop [line] cl ci ctx ks =
        determineContextFromStack c (popKeysAtOrAboveIndent ks (getIndentLevel line)) cl ci"
      using analyzeLoop_last by blast
    with True show ?thesis
      using determineContextFromStack_kind by simp
  next
    case False
    obtain c k where "analyzeLoop (line # rest) cl ci ctx ks = analyzeLoop rest cl ci c k"
      using analyzeLoop_more [OF False] by blast
    with Cons.IH [OF False, of c k] show ?thesis by simp
  qed
qed

lemma analyzeLoop_single:
  "Type (analyzeLoop [line] cl ci ctx []) = ContextTopLevel"
proof -
  obtain c where "analyzeLoop [line] cl ci ctx [] =
      determineContextFromStack c (popKeysAtOrAboveIndent [] (getIndentLevel line)) cl ci"
    using analyzeLoop_last by blast
  then show ?thesis
    by (simp add: popKeysAtOrAboveIndent_def determineContextFromStack_empty)
qed

text \<open>
  C3, as the code has it. A position context whose context lines are the current line
  alone yields kind TopLevel; a position context with no context line at all yields
  Unknown, as the missing (\<open>nil\<close>) position context does; and for every position
  context with at least one context line the kind is one of TopLevel, Step, Plugins and
  PluginConfig.
\<close>

theorem analyzer_kind:
  "(ContextLines p \<noteq> [] \<longrightarrow>
      Type (AnalyzeContext (Some p))
        \<in> {ContextTopLevel, ContextStep, ContextPlugins, ContextPluginConfig})
   \<and> (ContextLines p = [line] \<longrightarrow> Type (AnalyzeContext (Some p)) = ContextTopLevel)
   \<and> (ContextLines p = [] \<longrightarrow> Type (AnalyzeContext (Some p)) = ContextUnknown)
   \<and> Type (AnalyzeContext None) = ContextUnknown"
  using analyzeLoop_kind [of "ContextLines p"]
  by (simp add: AnalyzeContext_def analyzeYAMLStructure_def analyzeLoop_single
      del: analyzeLoop.simps(2))

theorem analyzer_kind_witness:
  "Type (AnalyzeContext (Some \<lparr>URI_c = ''file:///p/.buildkite/pipeline.yml'',
      Position_c = \<lparr>Line_p = 2, Character = 4\<rparr>, CurrentLine = ''    '', CharIndex = 4,
      ContextLines = [''steps:'', ''  - label: x'', ''    ''], FullContent = []\<rparr>))
     \<in> {ContextTopLevel, ContextStep, ContextPlugins, ContextPluginConfig}
   \<and> Type (AnalyzeContext (Some \<lparr>URI_c = ''file:///p/.buildkite/pipeline.yml'',
      Position_c = \<lparr>Line_p = 0, Character = 0\<rparr>, CurrentLine = [], CharIndex = 0,
      ContextLines = [[]], FullContent = ''\<newline>''\<rparr>)) = ContextTopLevel
   \<and> Type (AnalyzeContext (Some \<lparr>URI_c = ''file:///p/.buildkite/pipeline.yml'',
      Position_c = \<lparr>Line_p = 0, Character = 0\<rparr>, CurrentLine = [], CharIndex = 0,
      ContextLines = [], FullContent = []\<rparr>)) = ContextUnknown"
  using analyzer_kind [where p = "\<lparr>URI_c = ''file:///p/.buildkite/pipeline.yml'',
      Position_c = \<lparr>Line_p = 2, Character = 4\<rparr>, CurrentLine = ''    '', CharIndex = 4,
      ContextLines = [''steps:'', ''  - label: x'', ''    ''], FullContent = []\<rparr>"]
    analyzer_kind [where p = "\<lparr>URI_c = ''file:///p/.buildkite/pipeline.yml'',
      Position_c = \<lparr>Line_p = 0, Character = 0\<rparr>, CurrentLine = [], CharIndex = 0,
      ContextLines = [[]], FullContent = ''\<newline>''\<rparr>" and line = "[]"]
    analyzer_kind [where p = "\<lparr>URI_c = ''file:///p/.buildkite/pipeline.yml'',
      Position_c = \<lparr>Line_p = 0, Character = 0\<rparr>, CurrentLine = [], CharIndex = 0,
      ContextLines = [], FullContent = []\<rparr>"]
  by simp

theorem analyzer_empty_counterexample:
  "Type (AnalyzeContext (Some \<lparr>URI_c = ''file:///p/.buildkite/pipeline.yml'',
      Position_c = \<lparr>Line_p = 0, Character = 0\<rparr>, CurrentLine = [], CharIndex = 0,
      ContextLines = [], FullContent = []\<rparr>)) = ContextUnknown
   \<and> Type (AnalyzeContext (Some \<lparr>URI_c = ''file:///p/.buildkite/pipeline.yml'',
      Position_c = \<lparr>Line_p = 0, Character = 0\<rparr>, CurrentLine = [], CharIndex = 0,
      ContextLines = [], FullContent = []\<rparr>)) \<noteq> ContextTopLevel"
  by (simp add: AnalyzeContext_def analyzeYAMLStructure_def)

section \<open>Completion labels\<close>

lemma top_level_labels:
  "map Label getTopLevelCompletions =
     [''steps'', ''env'', ''agents'', ''timeout_in_minutes'', ''cancel_running_branch_builds'',
      ''skip_intermediate_builds'', ''skip'', ''notify'', ''group'',
      ''x-buildkite-repository-provider'', ''x-buildkite-plugins'',
      ''repository_provider_settings'']"
  by (simp add: getTopLevelCompletions_def)

lemma step_labels:
  "map Label getStepCompletions =
     [''label'', ''command'', ''commands'', ''agents'', ''artifact_paths'', ''branches'', ''if'',
      ''depends_on'', ''retry'', ''timeout_in_minutes'', ''skip'', ''plugins'', ''key'',
      ''concurrency'', ''concurrency_group'', ''concurrency_method'', ''parallelism'',
      ''soft_fail'', ''priority'', ''matrix'', ''notify'', ''wait'', ''block'', ''input'',
      ''trigger'', ''group'', ''prompt'', ''fields'', ''pipeline'', ''build'', ''async'', ''group'',
      ''parallelism'', ''signature'', ''cache'', ''concurrency_method'',
      ''cancel_on_build_failing'']"
  by (simp add: getStepCompletions_def)

lemma plugin_item_label:
  "Label (pluginCompletionItem plugin) = Name_pp plugin @ ''#'' @ Version_pp plugin"
  by (simp add: pluginCompletionItem_def Let_def)

lemma plugin_labels:
  "map Label (map pluginCompletionItem GetPopularPlugins) =
     [''docker#v5.13.0'', ''docker-compose#v5.10.0'', ''cache#v1.7.0'', ''artifacts#v1.9.4'',
      ''test-collector#v1.11.0'', ''junit-annotate#v2.7.0'', ''shellcheck#v1.4.0'',
      ''ecr#v2.10.0'', ''monorepo-diff#v1.5.1'', ''plugin-linter#v3.3.0'',
      ''docker-login#v3.0.0'']"
  by (simp add: GetPopularPlugins_def plugin_item_label)

lemma top_level_no_hash:
  "item \<in> set getTopLevelCompletions \<Longrightarrow> CHR ''#'' \<notin> set (Label item)"
proof -
  assume "item \<in> set getTopLevelCompletions"
  then have "Label item \<in> set (map Label getTopLevelCompletions)" by simp
  then show ?thesis unfolding top_level_labels by auto
qed

lemma step_no_hash:
  "item \<in> set getStepCompletions \<Longrightarrow> CHR ''#'' \<notin> set (Label item)"
proof -
  assume "item \<in> set getStepCompletions"
  then have "Label item \<in> set (map Label getStepCompletions)" by simp
  then show ?thesis unfolding step_labels by auto
qed

lemma plugin_label_form:
  assumes "item \<in> set (map pluginCompletionItem GetPopularPlugins)"
  shows "CHR ''#'' \<in> set (Label item) \<and> pluginLabelForm (Label item)
         \<and> Label item \<noteq> ''- (add plugin)''"
proof -
  from assms have "Label item \<in> set (map Label (map pluginCompletionItem GetPopularPlugins))"
    by (metis image_eqI list.set_map)
  then show ?thesis unfolding plugin_labels
    by (auto simp: pluginLabelForm_def versionForm_def isDigit_def)
qed


lemma needsListItemSuggestion_plugins:
  "Type info = ContextPlugins \<Longrightarrow>
     needsListItemSuggestion (Some p) (Some info) \<longleftrightarrow> TrimSpace (CurrentLine p) = []"
  by (auto simp: needsListItemSuggestion_def Let_def HasPrefix_def)

lemma GetCompletions_plugins:
  "Type (AnalyzeContext (Some p)) = ContextPlugins \<Longrightarrow>
     GetCompletions cfg (Some p) =
       (if TrimSpace (CurrentLine p) = [] then [listItemCompletion] else [])
       @ map pluginCompletionItem GetPopularPlugins"
  by (simp add: GetCompletions_def getPluginCompletions_def needsListItemSuggestion_plugins)

text \<open>
  C8, as the code has it. In the Plugins context the completion list is the items of the
  popular plugins, each with a label that contains \<open>#\<close> and has the form
  \<open><name>#v<major>.<minor>.<patch>\<close> with an optional \<open>-suffix\<close>, preceded by the
  list-item helper labelled \<open>- (add plugin)\<close> exactly when the current line is blank; the
  helper's label has no \<open>#\<close>. In the Step context and in the TopLevel context no label
  contains \<open>#\<close>.
\<close>

theorem completion_labels:
  "(Type (AnalyzeContext (Some p)) = ContextPlugins \<longrightarrow>
      (\<forall>item \<in> set (GetCompletions cfg (Some p)).
         Label item \<noteq> ''- (add plugin)'' \<longrightarrow>
           CHR ''#'' \<in> set (Label item) \<and> pluginLabelForm (Label item))
      \<and> ((\<exists>item \<in> set (GetCompletions cfg (Some p)). Label item = ''- (add plugin)'')
            \<longleftrightarrow> TrimSpace (CurrentLine p) = [])
      \<and> (TrimSpace (CurrentLine p) = [] \<longrightarrow>
            hd (GetCompletions cfg (Some p)) = listItemCompletion))
   \<and> (Type (AnalyzeContext (Some p)) = ContextStep \<or> Type (AnalyzeContext (Some p)) = ContextTopLevel \<longrightarrow>
      (\<forall>item \<in> set (GetCompletions cfg (Some p)). CHR ''#'' \<notin> set (Label item)))"
proof -
  have plugins: "(\<forall>item \<in> set (GetCompletions cfg (Some p)).
         Label item \<noteq> ''- (add plugin)'' \<longrightarrow>
           CHR ''#'' \<in> set (Label item) \<and> pluginLabelForm (Label item))
      \<and> ((\<exists>item \<in> set (GetCompletions cfg (Some p)). Label item = ''- (add plugin)'')
            \<longleftrightarrow> TrimSpace (CurrentLine p) = [])
      \<and> (TrimSpace (CurrentLine p) = [] \<longrightarrow>
            hd (GetCompletions cfg (Some p)) = listItemCompletion)"
    if ctx: "Type (AnalyzeContext (Some p)) = ContextPlugins"
  proof -
    have l: "Label listItemCompletion = ''- (add plugin)''"
      by (simp add: listItemCompletion_def)
    show ?thesis
      unfolding GetCompletions_plugins [OF ctx]
      using plugin_label_form l by (cases "TrimSpace (CurrentLine p) = []") auto
  qed
  have others: "\<forall>item \<in> set (GetCompletions cfg (Some p)). CHR ''#'' \<notin> set (Label item)"
    if "Type (AnalyzeContext (Some p)) = ContextStep \<or> Type (AnalyzeContext (Some p)) = ContextTopLevel"
    using that top_level_no_hash step_no_hash by (auto simp: GetCompletions_def)
  from plugins others show ?thesis by blast
qed

theorem completion_labels_witness:
  "Type (AnalyzeContext (Some \<lparr>URI_c = ''file:///p/.buildkite/pipeline.yml'',
      Position_c = \<lparr>Line_p = 3, Character = 8\<rparr>, CurrentLine = ''      - '', CharIndex = 8,
      ContextLines = [''steps:'', ''  - label: x'', ''    plugins:'', ''      - ''],
      FullContent = []\<rparr>)) = ContextPlugins
   \<and> \<not> (\<exists>item \<in> set (GetCompletions (\<lambda>contextInfo. [])
        (Some \<lparr>URI_c = ''file:///p/.buildkite/pipeline.yml'',
          Position_c = \<lparr>Line_p = 3, Character = 8\<rparr>, CurrentLine = ''      - '', CharIndex = 8,
          ContextLines = [''steps:'', ''  - label: x'', ''    plugins:'', ''      - ''],
          FullContent = []\<rparr>)). Label item = ''- (add plugin)'')
   \<and> Type (AnalyzeContext (Some \<lparr>URI_c = ''file:///p/.buildkite/pipeline.yml'',
      Position_c = \<lparr>Line_p = 1, Character = 0\<rparr>, CurrentLine = [], CharIndex = 0,
      ContextLines = [''steps:'', []], FullContent = []\<rparr>)) = ContextTopLevel
   \<and> list_all (\<lambda>item. CHR ''#'' \<notin> set (Label item))
        (GetCompletions (\<lambda>contextInfo. [])
          (Some \<lparr>URI_c = ''file:///p/.buildkite/pipeline.yml'',
            Position_c = \<lparr>Line_p = 1, Character = 0\<rparr>, CurrentLine = [], CharIndex = 0,
            ContextLines = [''steps:'', []], FullContent = []\<rparr>))
   \<and> Type (AnalyzeContext (Some \<lparr>URI_c = ''file:///p/.buildkite/pipeline.yml'',
      Position_c = \<lparr>Line_p = 3, Character = 6\<rparr>, CurrentLine = ''      '', CharIndex = 6,
      ContextLines = [''steps:'', ''  - label: x'', ''    plugins:'', ''      ''],
      FullContent = []\<rparr>)) = ContextPlugins
   \<and> hd (GetCompletions (\<lambda>contextInfo. [])
        (Some \<lparr>URI_c = ''file:///p/.buildkite/pipeline.yml'',
          Position_c = \<lparr>Line_p = 3, Character = 6\<rparr>, CurrentLine = ''      '', CharIndex = 6,
          ContextLines = [''steps:'', ''  - label: x'', ''    plugins:'', ''      ''],
          FullContent = []\<rparr>)) = listItemCompletion
   \<and> Type (AnalyzeContext (Some \<lparr>URI_c = ''file:///p/.buildkite/pipeline.yml'',
      Position_c = \<lparr>Line_p = 2, Character = 4\<rparr>, CurrentLine = ''    '', CharIndex = 4,
      ContextLines = [''steps:'', ''  - label: x'', ''    ''], FullContent = []\<rparr>)) = ContextStep
   \<and> list_all (\<lambda>item. CHR ''#'' \<notin> set (Label item))
        (GetCompletions (\<lambda>contextInfo. [])
          (Some \<lparr>URI_c = ''file:///p/.buildkite/pipeline.yml'',
            Position_c = \<lparr>Line_p = 2, Character = 4\<rparr>, CurrentLine = ''    '', CharIndex = 4,
            ContextLines = [''steps:'', ''  - label: x'', ''    ''], FullContent = []\<rparr>))"
proof -
  let ?r = "\<lparr>URI_c = ''file:///p/.buildkite/pipeline.yml'',
      Position_c = \<lparr>Line_p = 3, Character = 6\<rparr>, CurrentLine = ''      '', CharIndex = 6,
      ContextLines = [''steps:'', ''  - label: x'', ''    plugins:'', ''      ''],
      FullContent = []\<rparr>"
  let ?s = "\<lparr>URI_c = ''file:///p/.buildkite/pipeline.yml'',
      Position_c = \<lparr>Line_p = 2, Character = 4\<rparr>, CurrentLine = ''    '', CharIndex = 4,
      ContextLines = [''steps:'', ''  - label: x'', ''    ''], FullContent = []\<rparr>"
  have ra: "Type (AnalyzeContext (Some ?r)) = ContextPlugins"
    by code_simp
  have rb: "TrimSpace (CurrentLine ?r) = []"
    by code_simp
  have sa: "Type (AnalyzeContext (Some ?s)) = ContextStep"
    by code_simp
  from completion_labels [of ?r "\<lambda>contextInfo. []"] ra rb
  have 3: "hd (GetCompletions (\<lambda>contextInfo. []) (Some ?r)) = listItemCompletion"
    by blast
  from completion_labels [of ?s "\<lambda>contextInfo. []"] sa
  have 4: "list_all (\<lambda>item. CHR ''#'' \<notin> set (Label item))
      (GetCompletions (\<lambda>contextInfo. []) (Some ?s))"
    unfolding list_all_iff by blast
  let ?p = "\<lparr>URI_c = ''file:///p/.buildkite/pipeline.yml'',
      Position_c = \<lparr>Line_p = 3, Character = 8\<rparr>, CurrentLine = ''      - '', CharIndex = 8,
      ContextLines = [''steps:'', ''  - label: x'', ''    plugins:'', ''      - ''],
      FullContent = []\<rparr>"
  let ?q = "\<lparr>URI_c = ''file:///p/.buildkite/pipeline.yml'',
      Position_c = \<lparr>Line_p = 1, Character = 0\<rparr>, CurrentLine = [], CharIndex = 0,
      ContextLines = [''steps:'', []], FullContent = []\<rparr>"
  have a: "Type (AnalyzeContext (Some ?p)) = ContextPlugins"
    by code_simp
  have b: "TrimSpace (CurrentLine ?p) \<noteq> []"
    by code_simp
  have c: "Type (AnalyzeContext (Some ?q)) = ContextTopLevel"
    by code_simp
  from completion_labels [of ?p "\<lambda>contextInfo. []"] a b
  have 1: "\<not> (\<exists>item \<in> set (GetCompletions (\<lambda>contextInfo. []) (Some ?p)).
      Label item = ''- (add plugin)'')"
    by blast
  from completion_labels [of ?q "\<lambda>contextInfo. []"] c
  have 2: "list_all (\<lambda>item. CHR ''#'' \<notin> set (Label item))
      (GetCompletions (\<lambda>contextInfo. []) (Some ?q))"
    unfolding list_all_iff by blast
  from a 1 c 2 ra 3 sa 4 show ?thesis by blast
qed

theorem completion_labels_counterexample:
  "Type (AnalyzeContext (Some \<lparr>URI_c = ''file:///p/.buildkite/pipeline.yml'',
      Position_c = \<lparr>Line_p = 3, Character = 6\<rparr>, CurrentLine = ''      '', CharIndex = 6,
      ContextLines = [''steps:'', ''  - label: x'', ''    plugins:'', ''      ''],
      FullContent = []\<rparr>)) = ContextPlugins
   \<and> Label (hd (GetCompletions (\<lambda>contextInfo. [])
        (Some \<lparr>URI_c = ''file:///p/.buildkite/pipeline.yml'',
          Position_c = \<lparr>Line_p = 3, Character = 6\<rparr>, CurrentLine = ''      '', CharIndex = 6,
          ContextLines = [''steps:'', ''  - label: x'', ''    plugins:'', ''      ''],
          FullContent = []\<rparr>))) = ''- (add plugin)''
   \<and> CHR ''#'' \<notin> set ''- (add plugin)''"
  by code_simp

section \<open>Well-formedness of the token stream\<close>

lemma getTokenTypeIndex_range: "0 \<le> getTokenTypeIndex t \<and> getTokenTypeIndex t < 8"
  by (simp add: getTokenTypeIndex_def tokenTypes_def)

lemma modifierMap_values: "modifierMap m = Some b \<Longrightarrow> b = 1 \<or> b = 2 \<or> b = 4"
  by (auto simp: modifierMap_def split: if_splits)

lemma bitsLoop_range: "0 \<le> bits \<Longrightarrow> bits < 8 \<Longrightarrow> 0 \<le> bitsLoop ms bits \<and> bitsLoop ms bits < 8"
proof (induction ms arbitrary: bits)
  case Nil
  then show ?case by simp
next
  case (Cons m ms)
  show ?case
  proof (cases "modifierMap m")
    case None
    with Cons show ?thesis by simp
  next
    case (Some b)
    from modifierMap_values [OF Some] have b: "0 \<le> b" "b < 2 ^ 3" by auto
    have "bits OR b < 2 ^ 3"
      using Cons.prems b by (intro OR_upper) simp_all
    moreover have "0 \<le> bits OR b"
      using Cons.prems b by simp
    ultimately show ?thesis using Some Cons.IH [of "bits OR b"] by simp
  qed
qed

lemma getTokenModifierBits_range:
  "0 \<le> getTokenModifierBits ms \<and> getTokenModifierBits ms < 8"
  unfolding getTokenModifierBits_def by (rule bitsLoop_range) simp_all

lemma small_word: "0 \<le> x \<Longrightarrow> x < 8 \<Longrightarrow> (word_of_int x :: 32 word) < 8"
proof -
  assume "0 \<le> x" and "x < 8"
  then have "x = 0 \<or> x = 1 \<or> x = 2 \<or> x = 3 \<or> x = 4 \<or> x = 5 \<or> x = 6 \<or> x = 7"
    by arith
  then show ?thesis by auto
qed

lemma tokensOk_createToken: "tokensOk (createToken line start len tokenType modifiers)"
  using getTokenTypeIndex_range [of tokenType] getTokenModifierBits_range [of modifiers]
  by (simp add: createToken_def small_word)

lemma tokensOk_append: "tokensOk xs \<Longrightarrow> tokensOk ys \<Longrightarrow> tokensOk (xs @ ys)"
  by (induction xs rule: tokensOk.induct) simp_all

lemma tokensOk_length: "tokensOk d \<Longrightarrow> length d mod 5 = 0"
  by (induction d rule: tokensOk.induct) simp_all

lemma tokensOk_nth:
  "tokensOk d \<Longrightarrow> 5 * k + 4 < length d \<Longrightarrow> d ! (5 * k + 3) < 8 \<and> d ! (5 * k + 4) < 8"
proof (induction d arbitrary: k rule: tokensOk.induct)
  case (2 a b c tokenType tokenModifiers rest)
  show ?case
  proof (cases k)
    case 0
    with "2.prems" show ?thesis by simp
  next
    case (Suc j)
    with "2.prems" have "tokensOk rest" and "5 * j + 4 < length rest" by simp_all
    from "2.IH" [OF this] have r: "rest ! (5 * j + 3) < 8" "rest ! (5 * j + 4) < 8"
      by simp_all
    have "5 * k + 3 = Suc (Suc (Suc (Suc (Suc (5 * j + 3)))))"
      and "5 * k + 4 = Suc (Suc (Suc (Suc (Suc (5 * j + 4)))))"
      using Suc by simp_all
    with r show ?thesis by (simp only: nth_Cons_Suc)
  qed
qed simp_all

lemma deltaLoop_ok:
  "tokensOk lineTokens \<Longrightarrow> tokensOk data \<Longrightarrow>
     \<exists>d pl ps. deltaLoop lineTokens prevLine prevStart data = Some (d, pl, ps) \<and> tokensOk d"
proof (induction lineTokens prevLine prevStart data rule: deltaLoop.induct)
  case (2 currentLine currentStart len tokenType tokenModifiers rest prevLine prevStart data)
  define deltaLine where "deltaLine = currentLine - prevLine"
  define deltaStart where "deltaStart = (if deltaLine = 0 then currentStart - prevStart else currentStart)"
  from "2.prems" have t: "tokenType < 8" "tokenModifiers < 8" "tokensOk rest" by simp_all
  have "tokensOk [deltaLine, deltaStart, len, tokenType, tokenModifiers]"
    using t by simp
  with "2.prems"(2) have "tokensOk (data @ [deltaLine, deltaStart, len, tokenType, tokenModifiers])"
    by (rule tokensOk_append)
  from "2.IH" [OF deltaLine_def deltaStart_def t(3) this]
  show ?case by (simp add: deltaLine_def deltaStart_def Let_def)
qed simp_all

lemma Index_bounds:
  "Index s sub \<noteq> - 1 \<Longrightarrow> 0 \<le> Index s sub \<and> Index s sub + int (length sub) \<le> int (length s)"
proof (induction s)
  case Nil
  then show ?case by (simp split: if_splits)
next
  case (Cons c cs)
  show ?case
  proof (cases "HasPrefix (c # cs) sub")
    case True
    then have "take (length sub) (c # cs) = sub"
      by (simp only: HasPrefix_def)
    then have "length (take (length sub) (c # cs)) = length sub"
      by (simp only:)
    then have "length sub \<le> length (c # cs)"
      by (simp add: min_def split: if_splits)
    with True show ?thesis by simp
  next
    case False
    with Cons.prems have n: "Index cs sub \<noteq> - 1"
      by (auto simp: Let_def split: if_splits)
    from Cons.IH [OF n] False n show ?thesis by (simp add: Let_def)
  qed
qed

lemma Index_after_blanks:
  "Index line [c] \<noteq> - 1 \<Longrightarrow> \<not> P c \<Longrightarrow> int (length (takeWhile P line)) \<le> Index line [c]"
proof (induction line)
  case Nil
  then show ?case by simp
next
  case (Cons x xs)
  show ?case
  proof (cases "x = c")
    case True
    with Cons.prems show ?thesis by (simp add: HasPrefix_def)
  next
    case False
    with Cons.prems have n: "Index xs [c] \<noteq> - 1"
      by (auto simp: Let_def HasPrefix_def split: if_splits)
    from Cons.IH [OF n Cons.prems(2)] False n show ?thesis by (simp add: Let_def HasPrefix_def)
  qed
qed

lemma Index_after_TrimLeft:
  assumes "HasPrefix (TrimLeft line cutset) sub"
  shows "Index line sub \<noteq> - 1"
proof -
  from assms obtain b where "dropWhile (\<lambda>c. c \<in> set cutset) line = sub @ b"
    by (auto simp: HasPrefix_iff TrimLeft_def)
  then have "line = takeWhile (\<lambda>c. c \<in> set cutset) line @ sub @ b"
    by (metis takeWhile_dropWhile_id)
  then have "\<exists>a b. line = a @ sub @ b" by blast
  then show ?thesis by (simp add: Index_absent)
qed

lemma stripRunes_blank: "\<forall>c \<in> set s. c = CHR '' '' \<Longrightarrow> stripRunes spaceRunes s = []"
proof (induction s)
  case Nil
  show ?case by simp
next
  case (Cons c cs)
  then have c: "c = CHR '' ''" by simp
  have "find (\<lambda>e. HasPrefix (c # cs) e) spaceRunes = Some [CHR 0x20]"
    unfolding c by (simp add: spaceRunes_def HasPrefix_def)
  with Cons show ?case by simp
qed

lemma TrimSpace_blank: "\<forall>c \<in> set s. c = CHR '' '' \<Longrightarrow> TrimSpace s = []"
  by (simp add: TrimSpace_def stripRunes_blank)



lemma unat_add_of_nat:
  fixes v :: "32 word"
  assumes "unat v + k < 2 ^ 32"
  shows "unat (v + of_nat k) = unat v + k"
proof -
  have k: "k < 2 ^ LENGTH(32)" using assms by simp
  have uk: "unat (of_nat k :: 32 word) = k"
    using k by (simp add: unat_of_nat)
  have "unat v + unat (of_nat k :: 32 word) < 2 ^ LENGTH(32)"
    using assms uk by simp
  then have "unat (v + of_nat k) = unat v + unat (of_nat k :: 32 word)"
    by (simp only: unat_add_lem)
  with uk show ?thesis by simp
qed

lemma byteAt_int: "i < length s \<Longrightarrow> byteAt s (int i) = Some (s ! i)"
  by (simp add: byteAt_def)

lemma valueStartLoop_total_aux:
  fixes startChar :: "32 word"
  assumes c: "0 \<le> colonIndex"
    and nb: "nat (colonIndex + 1) + n < length content"
    and stop: "content ! (nat (colonIndex + 1) + n) \<noteq> CHR '' ''"
  shows "k \<le> n \<Longrightarrow> m = n - k \<Longrightarrow> unat (startChar + word_of_int (colonIndex + 1)) + k < 2 ^ 32 \<Longrightarrow>
     valueStartLoop content colonIndex startChar (startChar + word_of_int (colonIndex + 1) + of_nat k) \<noteq> None"
proof (induction m arbitrary: k rule: less_induct)
  case (less m)
  define V0 where "V0 = startChar + word_of_int (colonIndex + 1)"
  define B where "B = startChar + word_of_nat (length content)"
  define v where "v = V0 + of_nat k"
  have nowrap: "unat v = unat V0 + k"
    unfolding v_def using less.prems(3) by (simp add: V0_def unat_add_of_nat)
  have k32: "k < 2 ^ LENGTH(32)" using less.prems(3) by simp
  have "v - startChar - word_of_int (colonIndex + 1) = of_nat k"
    by (simp add: v_def V0_def)
  then have idx': "uint (v - startChar - word_of_int (colonIndex + 1)) = int k"
    using k32 by (simp add: uint_nat unat_of_nat)
  have idx: "colonIndex + 1 + uint (v - startChar - word_of_int (colonIndex + 1))
      = int (nat (colonIndex + 1) + k)"
    using idx' c by simp
  have inr: "nat (colonIndex + 1) + k < length content"
    using nb less.prems(1) by simp
  have at: "byteAt content (colonIndex + 1 + uint (v - startChar - word_of_int (colonIndex + 1)))
      = Some (content ! (nat (colonIndex + 1) + k))"
    unfolding idx using inr by (rule byteAt_int)
  show ?case
  proof (cases "v < B \<and> content ! (nat (colonIndex + 1) + k) = CHR '' ''")
    case False
    then show ?thesis
      using at unfolding V0_def [symmetric] v_def [symmetric]
      by (subst valueStartLoop.simps) (auto simp: B_def)
  next
    case True
    then have kn: "k \<noteq> n" using stop by auto
    with less.prems(1) have k1: "Suc k \<le> n" by simp
    have "unat v < unat B" using True by (simp add: word_less_nat_alt)
    moreover have "unat B < 2 ^ LENGTH(32)" by (rule unsigned_less)
    ultimately have w: "unat V0 + Suc k < 2 ^ 32" using nowrap by simp
    have r0: "valueStartLoop content colonIndex startChar (V0 + of_nat (Suc k)) \<noteq> None"
      unfolding V0_def
      using less.IH [of "n - Suc k" "Suc k"] k1 less.prems(1,2) kn w
      by (simp add: V0_def)
    have e: "V0 + of_nat (Suc k) = v + 1" by (simp add: v_def)
    have rec: "valueStartLoop content colonIndex startChar (v + 1) \<noteq> None"
      using r0 unfolding e .
    show ?thesis
      unfolding V0_def [symmetric] v_def [symmetric]
      using True at rec
      by (subst valueStartLoop.simps) (simp add: B_def)
  qed
qed

lemma valueStartLoop_total:
  fixes startChar :: "32 word"
  assumes c: "0 \<le> colonIndex"
    and len: "colonIndex + 1 \<le> int (length content)"
    and val: "TrimSpace (drop (nat (colonIndex + 1)) content) \<noteq> []"
  shows "\<exists>valueStart. valueStartLoop content colonIndex startChar
           (startChar + word_of_int (colonIndex + 1)) = Some valueStart"
proof -
  define rest where "rest = drop (nat (colonIndex + 1)) content"
  define n where "n = length (takeWhile (\<lambda>c. c = CHR '' '') rest)"
  have "\<not> (\<forall>c \<in> set rest. c = CHR '' '')"
    using val TrimSpace_blank [of rest] by (auto simp: rest_def)
  then have "takeWhile (\<lambda>c. c = CHR '' '') rest \<noteq> rest"
    by (simp add: takeWhile_eq_all_conv)
  then have "n \<noteq> length rest"
    unfolding n_def by (metis takeWhile_eq_take take_all_iff order_refl)
  moreover have "n \<le> length rest"
    unfolding n_def by (rule length_takeWhile_le)
  ultimately have nl: "n < length rest" by simp
  then have "rest ! n \<noteq> CHR '' ''"
    unfolding n_def using nth_length_takeWhile [of "\<lambda>c. c = CHR '' ''" rest] by simp
  moreover have "rest ! n = content ! (nat (colonIndex + 1) + n)"
    unfolding rest_def using nl by (simp add: rest_def)
  ultimately have stop: "content ! (nat (colonIndex + 1) + n) \<noteq> CHR '' ''" by simp
  have nb: "nat (colonIndex + 1) + n < length content"
    using nl by (simp add: rest_def)
  have "unat (startChar + word_of_int (colonIndex + 1)) < 2 ^ LENGTH(32)"
    by (rule unsigned_less)
  then have "unat (startChar + word_of_int (colonIndex + 1)) + 0 < 2 ^ 32"
    by simp
  from valueStartLoop_total_aux [OF c nb stop, of 0 n startChar, OF _ _ this]
  show ?thesis by auto
qed



lemma slice_from: "0 \<le> lo \<Longrightarrow> lo \<le> int (length s) \<Longrightarrow> slice s lo (int (length s)) = Some (drop (nat lo) s)"
  by (simp add: slice_def)

lemma slice_to: "0 \<le> lo \<Longrightarrow> lo \<le> hi \<Longrightarrow> hi \<le> int (length s) \<Longrightarrow>
    slice s lo hi = Some (drop (nat lo) (take (nat hi) s))"
  by (simp add: slice_def)

lemma parseStepContent_ok:
  "\<exists>tokens. parseStepContent content line startChar = Some tokens \<and> tokensOk tokens"
proof (cases "Index content '':'' = - 1")
  case True
  then show ?thesis by (simp add: parseStepContent_def)
next
  case False
  define colonIndex where "colonIndex = Index content '':''"
  from Index_bounds [OF False] have b: "0 \<le> colonIndex" "colonIndex + 1 \<le> int (length content)"
    by (simp_all add: colonIndex_def)
  have s1: "slice content 0 colonIndex = Some (drop (nat 0) (take (nat colonIndex) content))"
    using b by (intro slice_to) simp_all
  have s2: "slice content (colonIndex + 1) (int (length content))
      = Some (drop (nat (colonIndex + 1)) content)"
    using b by (intro slice_from) simp_all
  define key where "key = TrimSpace (take (nat colonIndex) content)"
  define val where "val = TrimSpace (drop (nat (colonIndex + 1)) content)"
  define tokens where "tokens =
      createToken line startChar (word_of_nat (length key)) (getKeyTokenType key True)
        (getKeyModifiers key True)
      @ createToken line (startChar + word_of_nat (length key)) 1 ''operator'' []"
  have tok: "tokensOk tokens"
    unfolding tokens_def by (intro tokensOk_append tokensOk_createToken)
  show ?thesis
  proof (cases "val = []")
    case True
    have "parseStepContent content line startChar = Some tokens"
      using False True s1 s2
      by (simp add: parseStepContent_def Let_def colonIndex_def [symmetric]
          key_def [symmetric] val_def [symmetric] tokens_def)
    with tok show ?thesis by simp
  next
    case nonempty: False
    then obtain valueStart where vs: "valueStartLoop content colonIndex startChar
        (startChar + word_of_int (colonIndex + 1)) = Some valueStart"
      using valueStartLoop_total [OF b(1) b(2), of startChar] by (auto simp: val_def)
    obtain valueTokenType valueModifiers
      where vt: "getValueTokenType key val True = (valueTokenType, valueModifiers)"
      by (cases "getValueTokenType key val True")
    have "parseStepContent content line startChar =
        Some (if valueTokenType \<noteq> []
              then tokens @ createToken line valueStart (word_of_nat (length val))
                     valueTokenType valueModifiers
              else tokens)"
      using False nonempty s1 s2 vs vt
      by (simp add: parseStepContent_def Let_def colonIndex_def [symmetric]
          key_def [symmetric] val_def [symmetric] tokens_def)
    moreover have "tokensOk (if valueTokenType \<noteq> []
              then tokens @ createToken line valueStart (word_of_nat (length val))
                     valueTokenType valueModifiers
              else tokens)"
      using tok by (simp add: tokensOk_append tokensOk_createToken)
    ultimately show ?thesis by simp
  qed
qed

lemma stepStartTokens_ok:
  assumes "HasPrefix (TrimLeft line cutset) ''- ''"
  shows "\<exists>tokens. stepStartTokens line lineNumber = Some tokens \<and> tokensOk tokens"
proof -
  define dashPos where "dashPos = Index line ''- ''"
  have "Index line ''- '' \<noteq> - 1"
    using assms by (rule Index_after_TrimLeft)
  from Index_bounds [OF this] have b: "0 \<le> dashPos + 2" "dashPos + 2 \<le> int (length line)"
    by (simp_all add: dashPos_def)
  have s: "slice line (dashPos + 2) (int (length line)) = Some (drop (nat (dashPos + 2)) line)"
    using b by (rule slice_from)
  define stepContent where "stepContent = TrimSpace (drop (nat (dashPos + 2)) line)"
  obtain stepTokens where p: "parseStepContent stepContent lineNumber (word_of_int (dashPos + 2))
      = Some stepTokens" and ok: "tokensOk stepTokens"
    using parseStepContent_ok by blast
  have "stepStartTokens line lineNumber =
      Some (createToken lineNumber (word_of_int dashPos) 1 ''operator'' []
            @ (if stepContent \<noteq> [] then stepTokens else []))"
    using s p
    by (simp add: stepStartTokens_def Let_def dashPos_def [symmetric] stepContent_def [symmetric])
  moreover have "tokensOk (createToken lineNumber (word_of_int dashPos) 1 ''operator'' []
            @ (if stepContent \<noteq> [] then stepTokens else []))"
    using ok by (intro tokensOk_append tokensOk_createToken) simp
  ultimately show ?thesis by simp
qed

lemma keyValueTokens_ok:
  "\<exists>tokens. keyValueTokens line lineNumber inStep = Some tokens \<and> tokensOk tokens"
proof (cases "Index line '':'' = - 1")
  case True
  then show ?thesis by (simp add: keyValueTokens_def)
next
  case False
  define colonIndex where "colonIndex = Index line '':''"
  define keyStart where "keyStart = int (length (takeWhile (\<lambda>c. c = CHR '' '' \<or> c = TAB) line))"
  from Index_bounds [OF False] have b: "0 \<le> colonIndex" "colonIndex + 1 \<le> int (length line)"
    by (simp_all add: colonIndex_def)
  have ks: "keyStart \<le> colonIndex"
    unfolding keyStart_def colonIndex_def
    using False by (rule Index_after_blanks) (simp add: TAB_def)
  have s1: "slice line keyStart colonIndex = Some (drop (nat keyStart) (take (nat colonIndex) line))"
    using b ks by (intro slice_to) (simp_all add: keyStart_def)
  have s2: "slice line (colonIndex + 1) (int (length line)) = Some (drop (nat (colonIndex + 1)) line)"
    using b by (intro slice_from) simp_all
  define key where "key = TrimSpace (drop (nat keyStart) (take (nat colonIndex) line))"
  define val where "val = TrimSpace (drop (nat (colonIndex + 1)) line)"
  define tokens where "tokens =
      createToken lineNumber (word_of_int keyStart) (word_of_nat (length key))
        (getKeyTokenType key inStep) (getKeyModifiers key inStep)
      @ createToken lineNumber (word_of_int colonIndex) 1 ''operator'' []"
  define valueStart where "valueStart = colonIndex + 1
      + int (length (takeWhile (\<lambda>c. c = CHR '' '') (drop (nat (colonIndex + 1)) line)))"
  have tok: "tokensOk tokens"
    unfolding tokens_def by (intro tokensOk_append tokensOk_createToken)
  obtain valueTokenType valueModifiers
    where vt: "getValueTokenType key val inStep = (valueTokenType, valueModifiers)"
    by (cases "getValueTokenType key val inStep")
  have "keyValueTokens line lineNumber inStep =
      Some (if val \<noteq> [] \<and> valueTokenType \<noteq> []
            then tokens @ createToken lineNumber (word_of_int valueStart)
                   (word_of_nat (length val)) valueTokenType valueModifiers
            else tokens)"
    using False s1 s2 vt
    by (simp add: keyValueTokens_def Let_def colonIndex_def [symmetric] keyStart_def [symmetric]
        key_def [symmetric] val_def [symmetric] tokens_def valueStart_def)
  moreover have "tokensOk (if val \<noteq> [] \<and> valueTokenType \<noteq> []
            then tokens @ createToken lineNumber (word_of_int valueStart)
                   (word_of_nat (length val)) valueTokenType valueModifiers
            else tokens)"
    using tok by (simp add: tokensOk_append tokensOk_createToken)
  ultimately show ?thesis by simp
qed

lemma stepStartTokens_not_None:
  "HasPrefix (TrimLeft line cutset) ''- '' \<Longrightarrow> stepStartTokens line lineNumber \<noteq> None"
  using stepStartTokens_ok [of line cutset lineNumber] by auto

lemma stepStartTokens_tokensOk:
  "HasPrefix (TrimLeft line cutset) ''- '' \<Longrightarrow> stepStartTokens line lineNumber = Some tokens \<Longrightarrow>
     tokensOk tokens"
  using stepStartTokens_ok [of line cutset lineNumber] by auto

lemma keyValueTokens_not_None: "keyValueTokens line lineNumber inStep \<noteq> None"
  using keyValueTokens_ok [of line lineNumber inStep] by auto

lemma keyValueTokens_tokensOk:
  "keyValueTokens line lineNumber inStep = Some tokens \<Longrightarrow> tokensOk tokens"
  using keyValueTokens_ok [of line lineNumber inStep] by auto

lemma tokenizeLine_not_None:
  "tokenizeLine line lineNumber inSteps inStep stepIndent \<noteq> None"
  unfolding tokenizeLine_def Let_def
  by (auto simp: keyValueTokens_not_None split: option.splits
      dest: stepStartTokens_not_None [of line "[CHR '' '', TAB]" lineNumber])

lemma tokenizeLine_tokensOk:
  "tokenizeLine line lineNumber inSteps inStep stepIndent
     = Some (tokens, inSteps', inStep', stepIndent') \<Longrightarrow> tokensOk tokens"
  unfolding tokenizeLine_def Let_def
  by (auto simp: tokensOk_createToken tokensOk_append split: option.splits if_splits
      dest: keyValueTokens_tokensOk stepStartTokens_tokensOk [of line "[CHR '' '', TAB]" lineNumber])

lemma tokenizeLine_ok:
  "\<exists>tokens inSteps' inStep' stepIndent'.
     tokenizeLine line lineNumber inSteps inStep stepIndent
       = Some (tokens, inSteps', inStep', stepIndent') \<and> tokensOk tokens"
proof -
  obtain r where r: "tokenizeLine line lineNumber inSteps inStep stepIndent = Some r"
    using tokenizeLine_not_None [of line lineNumber inSteps inStep stepIndent] by auto
  obtain tokens inSteps' inStep' stepIndent' where "r = (tokens, inSteps', inStep', stepIndent')"
    by (cases r) auto
  with r tokenizeLine_tokensOk [of line lineNumber inSteps inStep stepIndent tokens inSteps' inStep' stepIndent']
  show ?thesis by auto
qed

lemma linesLoop_ok:
  "tokensOk data \<Longrightarrow>
     \<exists>d. linesLoop lines lineIndex startLineOffset inSteps inStep stepIndent prevLine prevStart data
            = Some d \<and> tokensOk d"
proof (induction lines arbitrary: lineIndex inSteps inStep stepIndent prevLine prevStart data)
  case Nil
  then show ?case by simp
next
  case (Cons line rest)
  obtain tokens inSteps' inStep' stepIndent' where
    t: "tokenizeLine line (word_of_int (int lineIndex + startLineOffset)) inSteps inStep stepIndent
          = Some (tokens, inSteps', inStep', stepIndent')" and ok: "tokensOk tokens"
    using tokenizeLine_ok by blast
  obtain d pl ps where dl: "deltaLoop tokens prevLine prevStart data = Some (d, pl, ps)"
    and dok: "tokensOk d"
    using deltaLoop_ok [OF ok Cons.prems] by blast
  from Cons.IH [OF dok, of "lineIndex + 1" inSteps' inStep' stepIndent' pl ps]
  show ?case using t dl by (simp add: Let_def)
qed


text \<open>
  C10. For every list of lines and every start-line offset, generating the semantic tokens
  returns (no slice or index of the source is out of range), the data returned has a
  length that is a multiple of 5, and in every group of five the token-type index is
  below 8 and the modifier bits are below 8.
\<close>

theorem semantic_tokens_well_formed:
  "\<exists>data. generateSemanticTokensForRange lines startLineOffset = Some data
     \<and> length data mod 5 = 0
     \<and> (\<forall>k. 5 * k + 4 < length data \<longrightarrow> data ! (5 * k + 3) < 8 \<and> data ! (5 * k + 4) < 8)"
proof -
  have "tokensOk []" by simp
  from linesLoop_ok [OF this, of lines 0 startLineOffset False False "- 1" 0 0]
  obtain data where d: "generateSemanticTokensForRange lines startLineOffset = Some data"
    and ok: "tokensOk data"
    by (auto simp: generateSemanticTokensForRange_def)
  from ok have "length data mod 5 = 0" by (rule tokensOk_length)
  moreover have "\<forall>k. 5 * k + 4 < length data \<longrightarrow>
      data ! (5 * k + 3) < 8 \<and> data ! (5 * k + 4) < 8"
    using tokensOk_nth [OF ok] by simp
  ultimately show ?thesis using d by (intro exI [of _ data]) simp
qed

theorem semantic_tokens_well_formed_witness:
  "generateSemanticTokensForRange [''  - wait: ~'', ''x''] 3
     = Some [3, 2, 6, 2, 0, 0, 6, 1, 6, 0, 0, 2, 1, 0, 2]
   \<and> length [3, 2, 6, 2, 0, 0, 6, 1, 6, 0, 0, 2, 1, 0, 2 :: 32 word] mod 5 = 0
   \<and> 5 * 2 + 4 < length [3, 2, 6, 2, 0, 0, 6, 1, 6, 0, 0, 2, 1, 0, 2 :: 32 word]
   \<and> [3, 2, 6, 2, 0, 0, 6, 1, 6, 0, 0, 2, 1, 0, 2 :: 32 word] ! (5 * 2 + 3) < 8
   \<and> [3, 2, 6, 2, 0, 0, 6, 1, 6, 0, 0, 2, 1, 0, 2 :: 32 word] ! (5 * 2 + 4) < 8"
proof -
  let ?d = "[3, 2, 6, 2, 0, 0, 6, 1, 6, 0, 0, 2, 1, 0, 2] :: 32 word list"
  have ev: "generateSemanticTokensForRange [''  - wait: ~'', ''x''] 3 = Some ?d"
    by code_simp
  from semantic_tokens_well_formed [of "[''  - wait: ~'', ''x'']" 3] ev
  have "length ?d mod 5 = 0
      \<and> (\<forall>k. 5 * k + 4 < length ?d \<longrightarrow> ?d ! (5 * k + 3) < 8 \<and> ?d ! (5 * k + 4) < 8)"
    by simp
  then have "length ?d mod 5 = 0" and "?d ! (5 * 2 + 3) < 8 \<and> ?d ! (5 * 2 + 4) < 8"
    by simp_all
  with ev show ?thesis by simp
qed

end
